theory Spec2Isabelle
  imports Main
begin

section \<open>Python runtime objects\<close>

text \<open>
  The collector observes arbitrary Python objects. It uses of them only their identity
  (\<open>is\<close>), their type, their \<open>repr\<close>, whether they are instances of the immutable
  builtin types, whether they are iterable, and, for the right-hand side of an unpacking
  assignment, their length, items and slices. An object is therefore the builtin
  \<open>type\<close> itself, or an address together with its type object and these attributes.
  The type of \<open>type\<close> is \<open>type\<close>; every other type chain is finite, as in Python.
\<close>

datatype pyobj =
    PyTypeType
  | PyObj nat pyobj string bool bool "pyobj list option"

datatype ident = TypeIdent | ObjIdent nat

fun py_id :: "pyobj \<Rightarrow> ident" where
  "py_id PyTypeType = TypeIdent"
| "py_id (PyObj a c r im it xs) = ObjIdent a"

definition py_is :: "pyobj \<Rightarrow> pyobj \<Rightarrow> bool" where
  "py_is a b = (py_id a = py_id b)"

fun py_type :: "pyobj \<Rightarrow> pyobj" where
  "py_type PyTypeType = PyTypeType"
| "py_type (PyObj a c r im it xs) = c"

fun py_repr :: "pyobj \<Rightarrow> string" where
  "py_repr PyTypeType = ''<class type>''"
| "py_repr (PyObj a c r im it xs) = r"

fun py_immutable :: "pyobj \<Rightarrow> bool" where
  "py_immutable PyTypeType = False"
| "py_immutable (PyObj a c r im it xs) = im"

fun isiterable :: "pyobj \<Rightarrow> bool" where
  "isiterable PyTypeType = False"
| "isiterable (PyObj a c r im it xs) = it"

fun py_items :: "pyobj \<Rightarrow> pyobj list option" where
  "py_items PyTypeType = None"
| "py_items (PyObj a c r im it xs) = xs"

definition py_NoneType :: pyobj where
  "py_NoneType = PyObj 1 PyTypeType ''<class NoneType>'' False False None"

definition py_None :: pyobj where
  "py_None = PyObj 0 py_NoneType ''None'' True False None"

datatype py_error =
    IndexError
  | TypeError
  | AttributeError
  | InvalidReference
  | Raised pyobj

section \<open>Records of the provenance graph\<close>

record value_rec =
  v_id :: int
  v_value :: string
  v_type_id :: int

record evaluation =
  e_id :: int
  e_code_component_id :: int
  e_activation_id :: int
  e_moment :: "nat option"
  e_value_id :: "int option"

record dependency_rec =
  d_id :: int
  d_dependent_activation_id :: int
  d_dependent_id :: int
  d_dependency_activation_id :: int
  d_dependency_id :: int
  d_mode :: string

record compartment =
  c_id :: int
  c_name :: string
  c_moment :: nat
  c_whole_id :: "int option"
  c_part_id :: "int option"

record exception_rec =
  x_id :: int
  x_exception :: pyobj
  x_activation_id :: int

text \<open>
  Modelled from the spec: the object stores (their class is not part of the sources at
  hand). A store hands out identifiers monotonically, starting at 1, and keeps every
  object it has added under its identifier; \<open>dry_add\<close> builds an object with the
  placeholder identifier \<open>-1\<close> and does not keep it.
\<close>

record 'a store =
  store_id :: int
  store_map :: "int \<rightharpoonup> 'a"

definition empty_store :: "'a store" where
  "empty_store = \<lparr>store_id = 0, store_map = Map.empty\<rparr>"

definition store_add_object :: "(int \<Rightarrow> 'a) \<Rightarrow> 'a store \<Rightarrow> 'a \<times> 'a store" where
  "store_add_object cls st =
     (let i = store_id st + 1; obj = cls i
      in (obj, \<lparr>store_id = i, store_map = (store_map st)(i \<mapsto> obj)\<rparr>))"

section \<open>Transient structures of the collector\<close>

text \<open>
  Modelled from the spec: \<open>Dependency\<close>, the three dependency-aware scopes and
  \<open>Activation\<close> (their module is not part of the sources at hand). A Dependency is a
  mutable object: scopes hold references to Dependency objects, and the objects live in
  a heap of the collector state, so that a mode rewritten through one reference is seen
  through every other. A plain scope has neither a \<open>key\<close> nor an \<open>items\<close> slot, a
  compartment scope has a \<open>key\<close> slot (initially \<open>None\<close>), a collection scope has an
  \<open>items\<close> slot (initially empty); as in Python, assigning \<open>key\<close> creates the slot.
  \<open>add\<close> appends a dependency to the list of its scope. An activation starts with an
  empty context, no closure and one plain scope on its stack.
\<close>

type_synonym dep_ref = nat

record dependency =
  dep_activation_id :: int
  dep_evaluation_id :: int
  dep_value :: pyobj
  dep_value_id :: "int option"
  dep_mode :: string
  dep_kind :: "string option"
  dep_arg :: "string option"
  dep_sub_dependencies :: "dep_ref list"

definition Dependency :: "int \<Rightarrow> int \<Rightarrow> pyobj \<Rightarrow> int option \<Rightarrow> string \<Rightarrow> dependency" where
  "Dependency aid eid val vid m =
     \<lparr>dep_activation_id = aid, dep_evaluation_id = eid, dep_value = val,
      dep_value_id = vid, dep_mode = m, dep_kind = None, dep_arg = None,
      dep_sub_dependencies = []\<rparr>"

record depa =
  dependencies :: "dep_ref list"
  key :: "pyobj option"
  items :: "(pyobj \<times> int option \<times> nat) list option"

definition DependencyAware :: depa where
  "DependencyAware = \<lparr>dependencies = [], key = None, items = None\<rparr>"

definition CompartmentDependencyAware :: depa where
  "CompartmentDependencyAware = \<lparr>dependencies = [], key = Some py_None, items = None\<rparr>"

definition CollectionDependencyAware :: depa where
  "CollectionDependencyAware = \<lparr>dependencies = [], key = None, items = Some []\<rparr>"

datatype act_ref = FirstActivation | Stored int

record activation =
  a_id :: int
  a_name :: string
  a_start :: "nat option"
  a_code_block_id :: "int option"
  a_evaluation :: evaluation
  a_closure :: "act_ref option"
  a_context :: "string \<rightharpoonup> evaluation"
  a_dependencies :: "depa list"
  a_assignments :: "(nat \<times> pyobj \<times> depa) list"
  a_depedency_type :: string
  a_func :: "pyobj option"

record code_component =
  cc_id :: int
  cc_name :: string
  cc_type :: string
  cc_mode :: string
  cc_first_char_line :: int
  cc_first_char_column :: int
  cc_last_char_line :: int
  cc_last_char_column :: int
  cc_container_id :: int

section \<open>The collector state\<close>

text \<open>
  The fields of \<open>Collector\<close> and the stores of its metascript. The activation objects
  are the entries of \<open>activations_store\<close> and \<open>first_activation\<close> (built by
  \<open>dry_add\<close>, hence in no store); an \<open>act_ref\<close> names one of them. An activation holds
  its Evaluation object, which the evaluations store holds too: the only writes to an
  Evaluation after its creation are those of \<open>close_activation\<close>, which the model
  performs on both. \<open>clock\<close> is the host clock, read and advanced by \<open>time\<close>; the
  partial save that \<open>time\<close> may trigger belongs to the persistence layer and leaves the
  records in memory as they are.
\<close>

record collector =
  code_components_store :: "code_component store"
  evaluations_store :: "evaluation store"
  activations_store :: "activation store"
  dependencies_store :: "dependency_rec store"
  values_store :: "value_rec store"
  compartments_store :: "compartment store"
  exceptions_store :: "exception_rec store"
  first_activation :: activation
  last_activation :: act_ref
  shared_types :: "ident \<rightharpoonup> int"
  globals :: "string \<rightharpoonup> pyobj"
  global_evaluations :: "string \<rightharpoonup> evaluation"
  dep_heap :: "dependency list"
  clock :: nat

definition get_activation :: "collector \<Rightarrow> act_ref \<Rightarrow> activation option" where
  "get_activation s r =
     (case r of FirstActivation \<Rightarrow> Some (first_activation s)
      | Stored i \<Rightarrow> store_map (activations_store s) i)"

definition put_activation :: "act_ref \<Rightarrow> activation \<Rightarrow> collector \<Rightarrow> collector" where
  "put_activation r a s =
     (case r of FirstActivation \<Rightarrow> s\<lparr>first_activation := a\<rparr>
      | Stored i \<Rightarrow>
          s\<lparr>activations_store :=
              (activations_store s)\<lparr>store_map := (store_map (activations_store s))(i \<mapsto> a)\<rparr>\<rparr>)"

definition init_collector :: "(string \<rightharpoonup> pyobj) \<Rightarrow> collector" where
  "init_collector builtins =
     \<lparr>code_components_store = empty_store,
      evaluations_store = empty_store,
      activations_store = empty_store,
      dependencies_store = empty_store,
      values_store = empty_store,
      compartments_store = empty_store,
      exceptions_store = empty_store,
      first_activation =
        \<lparr>a_id = -1, a_name = ''<now>'', a_start = None, a_code_block_id = None,
         a_evaluation =
           \<lparr>e_id = -1, e_code_component_id = -1, e_activation_id = -1,
            e_moment = None, e_value_id = None\<rparr>,
         a_closure = None, a_context = Map.empty, a_dependencies = [DependencyAware],
         a_assignments = [], a_depedency_type = [], a_func = None\<rparr>,
      last_activation = FirstActivation,
      shared_types = Map.empty,
      globals = builtins,
      global_evaluations = Map.empty,
      dep_heap = [],
      clock = 0\<rparr>"

definition time :: "collector \<Rightarrow> nat \<times> collector" where
  "time s = (clock s, s\<lparr>clock := clock s + 1\<rparr>)"

section \<open>The value interner\<close>

definition values_add_object :: "string \<Rightarrow> int \<Rightarrow> collector \<Rightarrow> value_rec \<times> collector" where
  "values_add_object r tid s =
     (let (obj, st) = store_add_object (\<lambda>i. \<lparr>v_id = i, v_value = r, v_type_id = tid\<rparr>)
                        (values_store s)
      in (obj, s\<lparr>values_store := st\<rparr>))"

definition values_add :: "string \<Rightarrow> int \<Rightarrow> collector \<Rightarrow> int \<times> collector" where
  "values_add r tid s = (let (obj, s') = values_add_object r tid s in (v_id obj, s'))"

definition set_type_id :: "int \<Rightarrow> int \<Rightarrow> collector \<Rightarrow> collector" where
  "set_type_id i tid s =
     s\<lparr>values_store :=
         (values_store s)\<lparr>store_map :=
            (case store_map (values_store s) i of
               None \<Rightarrow> store_map (values_store s)
             | Some v \<Rightarrow> (store_map (values_store s))(i \<mapsto> v\<lparr>v_type_id := tid\<rparr>))\<rparr>\<rparr>"

text \<open>
  \<open>add_value\<close>: the branch \<open>value is type\<close> is the first equation. In the other branch
  the source tests \<open>value_type not in self.shared_types\<close>, stores the identifier that
  the recursive call returns and reads it back; the \<open>case\<close> reads the entry once.
\<close>

fun add_value :: "pyobj \<Rightarrow> collector \<Rightarrow> int \<times> collector" where
  "add_value PyTypeType s =
     (let (value_object, s1) = values_add_object (py_repr PyTypeType) (-1) s;
          s2 = set_type_id (v_id value_object) (v_id value_object) s1;
          s3 = s2\<lparr>shared_types := (shared_types s2)(py_id PyTypeType \<mapsto> v_id value_object)\<rparr>
      in (v_id value_object, s3))"
| "add_value (PyObj a value_type r im it xs) s =
     (case shared_types s (py_id value_type) of
        Some type_id \<Rightarrow> values_add r type_id s
      | None \<Rightarrow>
          (let (type_id, s1) = add_value value_type s;
               s2 = s1\<lparr>shared_types := (shared_types s1)(py_id value_type \<mapsto> type_id)\<rparr>
           in values_add r type_id s2))"

section \<open>Dependencies\<close>

text \<open>
  References to Dependency objects are created by \<open>new_dependency\<close> only, so every
  reference held by a scope of a state built by the hooks is below the length of the heap.
\<close>

definition new_dependency :: "dependency \<Rightarrow> collector \<Rightarrow> dep_ref \<times> collector" where
  "new_dependency d s = (length (dep_heap s), s\<lparr>dep_heap := dep_heap s @ [d]\<rparr>)"

definition get_dep :: "collector \<Rightarrow> dep_ref \<Rightarrow> dependency" where
  "get_dep s r = dep_heap s ! r"

definition upd_dep :: "dep_ref \<Rightarrow> (dependency \<Rightarrow> dependency) \<Rightarrow> collector \<Rightarrow> collector" where
  "upd_dep r f s = s\<lparr>dep_heap := (dep_heap s)[r := f (dep_heap s ! r)]\<rparr>"

definition startswith :: "string \<Rightarrow> string \<Rightarrow> bool" where
  "startswith m p = (take (length p) m = p)"

definition endswith :: "string \<Rightarrow> string \<Rightarrow> bool" where
  "endswith m p = (length p \<le> length m \<and> drop (length m - length p) m = p)"

definition truthy :: "int option \<Rightarrow> bool" where
  "truthy v = (case v of None \<Rightarrow> False | Some i \<Rightarrow> i \<noteq> 0)"

definition dependencies_add ::
  "int \<Rightarrow> int \<Rightarrow> int \<Rightarrow> int \<Rightarrow> string \<Rightarrow> collector \<Rightarrow> collector" where
  "dependencies_add aid eid daid deid m s =
     s\<lparr>dependencies_store :=
         snd (store_add_object
                (\<lambda>i. \<lparr>d_id = i, d_dependent_activation_id = aid, d_dependent_id = eid,
                      d_dependency_activation_id = daid, d_dependency_id = deid, d_mode = m\<rparr>)
                (dependencies_store s))\<rparr>"

definition evaluations_add_object ::
  "int \<Rightarrow> int \<Rightarrow> nat option \<Rightarrow> int option \<Rightarrow> collector \<Rightarrow> evaluation \<times> collector" where
  "evaluations_add_object code_id aid moment value_id s =
     (let (obj, st) = store_add_object
                        (\<lambda>i. \<lparr>e_id = i, e_code_component_id = code_id, e_activation_id = aid,
                              e_moment = moment, e_value_id = value_id\<rparr>)
                        (evaluations_store s)
      in (obj, s\<lparr>evaluations_store := st\<rparr>))"

definition compartments_add_object ::
  "string \<Rightarrow> nat \<Rightarrow> int option \<Rightarrow> int option \<Rightarrow> collector \<Rightarrow> collector" where
  "compartments_add_object name moment whole part s =
     s\<lparr>compartments_store :=
         snd (store_add_object
                (\<lambda>i. \<lparr>c_id = i, c_name = name, c_moment = moment, c_whole_id = whole,
                      c_part_id = part\<rparr>)
                (compartments_store s))\<rparr>"

section \<open>The bind rule\<close>

text \<open>The rewrite of a mode inside the loop of \<open>find_value_id\<close>.\<close>

definition bind_mode :: "string \<Rightarrow> string" where
  "bind_mode m =
     (if startswith m ''dependency'' then ''assign''
      else if \<not> endswith m ''-bind'' then m @ ''-bind''
      else m)"

text \<open>The loop of \<open>find_value_id\<close> up to its \<open>break\<close>: the first dependency whose value is the object.\<close>

fun find_dep :: "collector \<Rightarrow> pyobj \<Rightarrow> dep_ref list \<Rightarrow> dep_ref option" where
  "find_dep s v [] = None"
| "find_dep s v (r # rs) =
     (if py_is (dep_value (get_dep s r)) v then Some r else find_dep s v rs)"

text \<open>
  \<open>find_value_id\<close>. The scope argument is \<open>None\<close> where the source passes \<open>None\<close>. The
  truth value of a scope object does not matter to the result: on a scope without
  dependencies the loop does nothing.
\<close>

definition find_value_id ::
  "pyobj \<Rightarrow> depa option \<Rightarrow> bool \<Rightarrow> collector \<Rightarrow> int option \<times> collector" where
  "find_value_id v depa create s =
     (let (value_id, s1) =
        (case depa of
           None \<Rightarrow> (None, s)
         | Some d \<Rightarrow>
             if \<not> py_immutable v \<or> length (dependencies d) = 1 then
               (case find_dep s v (dependencies d) of
                  None \<Rightarrow> (None, s)
                | Some r \<Rightarrow>
                    (dep_value_id (get_dep s r),
                     upd_dep r (\<lambda>dep. dep\<lparr>dep_mode := bind_mode (dep_mode dep)\<rparr>) s))
             else (None, s))
      in if create \<and> \<not> truthy value_id
         then (let (i, s2) = add_value v s1 in (Some i, s2))
         else (value_id, s1))"

fun create_dependencies_loop :: "evaluation \<Rightarrow> dep_ref list \<Rightarrow> collector \<Rightarrow> collector" where
  "create_dependencies_loop ev [] s = s"
| "create_dependencies_loop ev (r # rs) s =
     create_dependencies_loop ev rs
       (dependencies_add (e_activation_id ev) (e_id ev)
          (dep_activation_id (get_dep s r)) (dep_evaluation_id (get_dep s r))
          (dep_mode (get_dep s r)) s)"

definition create_dependencies :: "evaluation \<Rightarrow> depa option \<Rightarrow> collector \<Rightarrow> collector" where
  "create_dependencies ev depa s =
     (case depa of None \<Rightarrow> s | Some d \<Rightarrow> create_dependencies_loop ev (dependencies d) s)"

fun create_argument_dependencies_loop ::
  "evaluation \<Rightarrow> dep_ref list \<Rightarrow> collector \<Rightarrow> collector" where
  "create_argument_dependencies_loop ev [] s = s"
| "create_argument_dependencies_loop ev (r # rs) s =
     create_argument_dependencies_loop ev rs
       (if startswith (dep_mode (get_dep s r)) ''argument''
        then dependencies_add (e_activation_id ev) (e_id ev)
               (dep_activation_id (get_dep s r)) (dep_evaluation_id (get_dep s r))
               ''dependency'' s
        else s)"

definition create_argument_dependencies :: "evaluation \<Rightarrow> depa \<Rightarrow> collector \<Rightarrow> collector" where
  "create_argument_dependencies ev d s = create_argument_dependencies_loop ev (dependencies d) s"

text \<open>\<open>evaluate\<close> reads of its activation only the identifier, which is passed instead.\<close>

definition evaluate ::
  "int \<Rightarrow> int \<Rightarrow> pyobj \<Rightarrow> nat option \<Rightarrow> depa option \<Rightarrow> collector \<Rightarrow> evaluation \<times> collector" where
  "evaluate aid code_id v moment depa s =
     (let (moment', s1) = (case moment of None \<Rightarrow> time s | Some t \<Rightarrow> (t, s));
          (value_id, s2) = find_value_id v depa True s1;
          (ev, s3) = evaluations_add_object code_id aid (Some moment') value_id s2
      in (ev, create_dependencies ev depa s3))"

section \<open>The scope stack of an activation\<close>

text \<open>
  The stack is the Python list \<open>activation.dependencies\<close>: \<open>append\<close> adds at the end,
  \<open>pop()\<close> removes the last element and raises IndexError on the empty list, and
  \<open>[-1]\<close> and \<open>[0]\<close> raise IndexError on the empty list. A reference that names
  no activation object has no counterpart in Python; the model reports it as
  \<open>InvalidReference\<close> where the source first reads the activation.
\<close>

definition bind_err :: "py_error + 'a \<Rightarrow> ('a \<Rightarrow> py_error + 'b) \<Rightarrow> py_error + 'b" where
  "bind_err m f = (case m of Inl e \<Rightarrow> Inl e | Inr x \<Rightarrow> f x)"

definition act_id_of :: "collector \<Rightarrow> act_ref \<Rightarrow> py_error + int" where
  "act_id_of s r =
     (case get_activation s r of None \<Rightarrow> Inl InvalidReference | Some a \<Rightarrow> Inr (a_id a))"

definition append_scope :: "act_ref \<Rightarrow> depa \<Rightarrow> collector \<Rightarrow> py_error + collector" where
  "append_scope r d s =
     (case get_activation s r of
        None \<Rightarrow> Inl InvalidReference
      | Some a \<Rightarrow> Inr (put_activation r (a\<lparr>a_dependencies := a_dependencies a @ [d]\<rparr>) s))"

definition pop_scope :: "act_ref \<Rightarrow> collector \<Rightarrow> py_error + (depa \<times> collector)" where
  "pop_scope r s =
     (case get_activation s r of
        None \<Rightarrow> Inl InvalidReference
      | Some a \<Rightarrow>
          if a_dependencies a = [] then Inl IndexError
          else Inr (last (a_dependencies a),
                    put_activation r (a\<lparr>a_dependencies := butlast (a_dependencies a)\<rparr>) s))"

definition upd_top ::
  "act_ref \<Rightarrow> (depa \<Rightarrow> py_error + depa) \<Rightarrow> collector \<Rightarrow> py_error + collector" where
  "upd_top r f s =
     (case get_activation s r of
        None \<Rightarrow> Inl InvalidReference
      | Some a \<Rightarrow>
          if a_dependencies a = [] then Inl IndexError
          else bind_err (f (last (a_dependencies a)))
                 (\<lambda>d. Inr (put_activation r
                              (a\<lparr>a_dependencies := butlast (a_dependencies a) @ [d]\<rparr>) s)))"

text \<open>\<open>activation.dependencies[-1].add(dependency)\<close>\<close>

definition top_add :: "act_ref \<Rightarrow> dep_ref \<Rightarrow> collector \<Rightarrow> py_error + collector" where
  "top_add r dref s = upd_top r (\<lambda>d. Inr (d\<lparr>dependencies := dependencies d @ [dref]\<rparr>)) s"

text \<open>\<open>activation.dependencies[-1].items.append(item)\<close>\<close>

definition top_items_append ::
  "act_ref \<Rightarrow> pyobj \<times> int option \<times> nat \<Rightarrow> collector \<Rightarrow> py_error + collector" where
  "top_items_append r item s =
     upd_top r (\<lambda>d. case items d of
                       None \<Rightarrow> Inl AttributeError
                     | Some xs \<Rightarrow> Inr (d\<lparr>items := Some (xs @ [item])\<rparr>)) s"

text \<open>\<open>activation.dependencies[-1].key = value\<close>\<close>

definition top_set_key :: "act_ref \<Rightarrow> pyobj \<Rightarrow> collector \<Rightarrow> py_error + collector" where
  "top_set_key r v s = upd_top r (\<lambda>d. Inr (d\<lparr>key := Some v\<rparr>)) s"

section \<open>Expression hooks\<close>

text \<open>
  A before-hook returns the bound method that the transformed code calls afterwards:
  \<open>U_operation\<close> stands for \<open>self._operation\<close>, and so on. The method \<open>_operation\<close>
  itself is \<open>after_operation\<close>, and likewise for the others (an Isabelle name cannot
  begin with an underscore). The hooks \<open>dict\<close>, \<open>list\<close>, \<open>tuple\<close> and \<open>set\<close> are
  \<open>dict_hook\<close>, \<open>list_hook\<close>, \<open>tuple_hook\<close> and \<open>set_hook\<close>, and \<open>return_\<close> is
  \<open>return_hook\<close>. The hooks \<open>func\<close>, \<open>call\<close> and \<open>function_def\<close> follow
  \<open>_call\<close> below.
\<close>

datatype after_callable =
    U_operation | U_container | U_dict | U_dict_key | U_dict_value | U_list | U_item
  | U_assign_value | U_argument | U_return | U_func | U_call | U_function_def

definition literal ::
  "act_ref \<Rightarrow> int \<Rightarrow> pyobj \<Rightarrow> string \<Rightarrow> collector \<Rightarrow> py_error + (pyobj \<times> collector)" where
  "literal activation code_id v mode s =
     (let (value_id, s1) = add_value v s in
      bind_err (act_id_of s1 activation) (\<lambda>aid.
      let (t, s2) = time s1;
          (ev, s3) = evaluations_add_object code_id aid (Some t) (Some value_id) s2;
          (dref, s4) = new_dependency (Dependency aid (e_id ev) v (Some value_id) mode) s3
      in bind_err (top_add activation dref s4) (\<lambda>s5. Inr (v, s5))))"

definition operation :: "act_ref \<Rightarrow> collector \<Rightarrow> py_error + (after_callable \<times> collector)" where
  "operation activation s =
     bind_err (append_scope activation DependencyAware s) (\<lambda>s1. Inr (U_operation, s1))"

definition after_operation ::
  "act_ref \<Rightarrow> int \<Rightarrow> pyobj \<Rightarrow> string \<Rightarrow> collector \<Rightarrow> py_error + (pyobj \<times> collector)" where
  "after_operation activation code_id v mode s =
     bind_err (pop_scope activation s) (\<lambda>(depa, s1).
     bind_err (act_id_of s1 activation) (\<lambda>aid.
     let (ev, s2) = evaluate aid code_id v None (Some depa) s1;
         (dref, s3) = new_dependency (Dependency aid (e_id ev) v (e_value_id ev) mode) s2
     in bind_err (top_add activation dref s3) (\<lambda>s4. Inr (v, s4))))"

definition container :: "act_ref \<Rightarrow> collector \<Rightarrow> py_error + (after_callable \<times> collector)" where
  "container activation s =
     bind_err (append_scope activation CompartmentDependencyAware s)
       (\<lambda>s1. Inr (U_container, s1))"

definition after_container ::
  "act_ref \<Rightarrow> int \<Rightarrow> pyobj \<Rightarrow> collector \<Rightarrow> py_error + (pyobj \<times> collector)" where
  "after_container activation code_id v s =
     bind_err (top_set_key activation v s) (\<lambda>s1. Inr (v, s1))"

fun add_compartments ::
  "int option \<Rightarrow> (pyobj \<times> int option \<times> nat) list \<Rightarrow> collector \<Rightarrow> collector" where
  "add_compartments whole [] s = s"
| "add_compartments whole ((k, value_id, moment) # rest) s =
     add_compartments whole rest
       (compartments_add_object (''['' @ py_repr k @ '']'') moment whole value_id s)"

definition dict_hook :: "act_ref \<Rightarrow> collector \<Rightarrow> py_error + (after_callable \<times> collector)" where
  "dict_hook activation s =
     bind_err (append_scope activation CollectionDependencyAware s) (\<lambda>s1. Inr (U_dict, s1))"

definition after_dict ::
  "act_ref \<Rightarrow> int \<Rightarrow> pyobj \<Rightarrow> string \<Rightarrow> collector \<Rightarrow> py_error + (pyobj \<times> collector)" where
  "after_dict activation code_id v mode s =
     bind_err (pop_scope activation s) (\<lambda>(depa, s1).
     bind_err (act_id_of s1 activation) (\<lambda>aid.
     let (ev, s2) = evaluate aid code_id v None (Some depa) s1 in
     (case items depa of
        None \<Rightarrow> Inl AttributeError
      | Some its \<Rightarrow>
          (let s3 = add_compartments (e_value_id ev) its s2;
               (dref, s4) = new_dependency (Dependency aid (e_id ev) v (e_value_id ev) mode) s3
           in bind_err (top_add activation dref s4) (\<lambda>s5. Inr (v, s5))))))"

definition dict_key :: "act_ref \<Rightarrow> collector \<Rightarrow> py_error + (after_callable \<times> collector)" where
  "dict_key activation s =
     bind_err (append_scope activation CompartmentDependencyAware s)
       (\<lambda>s1. Inr (U_dict_key, s1))"

definition after_dict_key ::
  "act_ref \<Rightarrow> int \<Rightarrow> pyobj \<Rightarrow> collector \<Rightarrow> py_error + (pyobj \<times> collector)" where
  "after_dict_key activation code_id v s =
     bind_err (top_set_key activation v s) (\<lambda>s1. Inr (v, s1))"

definition dict_value :: "act_ref \<Rightarrow> collector \<Rightarrow> py_error + (after_callable \<times> collector)" where
  "dict_value activation s =
     bind_err (append_scope activation DependencyAware s) (\<lambda>s1. Inr (U_dict_value, s1))"

definition after_dict_value ::
  "act_ref \<Rightarrow> int \<Rightarrow> pyobj \<Rightarrow> collector \<Rightarrow> py_error + (pyobj \<times> collector)" where
  "after_dict_value activation code_id v s =
     bind_err (pop_scope activation s) (\<lambda>(value_dependency_aware, s1).
     bind_err (pop_scope activation s1) (\<lambda>(popped, s2).
     let compartment_dependency_aware =
           popped\<lparr>dependencies := dependencies popped @ dependencies value_dependency_aware\<rparr>;
         (value_id, s3) = find_value_id v (Some value_dependency_aware) True s2
     in bind_err (act_id_of s3 activation) (\<lambda>aid.
     let (t, s4) = time s3;
         (ev, s5) = evaluations_add_object code_id aid (Some t) value_id s4;
         s6 = create_dependencies ev (Some compartment_dependency_aware) s5;
         (dref, s7) = new_dependency (Dependency aid (e_id ev) v value_id ''item'') s6
     in bind_err (top_add activation dref s7) (\<lambda>s8.
        case key compartment_dependency_aware of
          None \<Rightarrow> Inl AttributeError
        | Some k \<Rightarrow>
            bind_err (top_items_append activation (k, value_id, t) s8)
              (\<lambda>s9. Inr (v, s9))))))"

definition list_hook :: "act_ref \<Rightarrow> collector \<Rightarrow> py_error + (after_callable \<times> collector)" where
  "list_hook activation s =
     bind_err (append_scope activation CollectionDependencyAware s) (\<lambda>s1. Inr (U_list, s1))"

definition after_list ::
  "act_ref \<Rightarrow> int \<Rightarrow> pyobj \<Rightarrow> string \<Rightarrow> collector \<Rightarrow> py_error + (pyobj \<times> collector)" where
  "after_list activation code_id v mode s =
     bind_err (pop_scope activation s) (\<lambda>(depa, s1).
     bind_err (act_id_of s1 activation) (\<lambda>aid.
     let (ev, s2) = evaluate aid code_id v None (Some depa) s1 in
     (case items depa of
        None \<Rightarrow> Inl AttributeError
      | Some its \<Rightarrow>
          (let s3 = add_compartments (e_value_id ev) its s2;
               dependency = Dependency aid (e_id ev) v (e_value_id ev) mode;
               (dref, s4) = new_dependency
                              (dependency\<lparr>dep_sub_dependencies :=
                                 dep_sub_dependencies dependency @ dependencies depa\<rparr>) s3
           in bind_err (top_add activation dref s4) (\<lambda>s5. Inr (v, s5))))))"

definition tuple_hook :: "act_ref \<Rightarrow> collector \<Rightarrow> py_error + (after_callable \<times> collector)" where
  "tuple_hook activation s =
     bind_err (append_scope activation CollectionDependencyAware s) (\<lambda>s1. Inr (U_list, s1))"

definition set_hook :: "act_ref \<Rightarrow> collector \<Rightarrow> py_error + (after_callable \<times> collector)" where
  "set_hook activation s =
     bind_err (append_scope activation CollectionDependencyAware s) (\<lambda>s1. Inr (U_list, s1))"

definition item :: "act_ref \<Rightarrow> collector \<Rightarrow> py_error + (after_callable \<times> collector)" where
  "item activation s =
     bind_err (append_scope activation DependencyAware s) (\<lambda>s1. Inr (U_item, s1))"

text \<open>In \<open>_item\<close> the argument \<open>key\<close> is \<open>None\<close> or an object.\<close>

definition after_item ::
  "act_ref \<Rightarrow> int \<Rightarrow> pyobj \<Rightarrow> pyobj option \<Rightarrow> collector \<Rightarrow> py_error + (pyobj \<times> collector)" where
  "after_item activation code_id v key_arg s =
     (let k = (case key_arg of None \<Rightarrow> v | Some k' \<Rightarrow> k') in
      bind_err (pop_scope activation s) (\<lambda>(value_dependency_aware, s1).
      bind_err
        (if length (dependencies value_dependency_aware) = 1
         then Inr (hd (dependencies value_dependency_aware), s1)
         else
           (let (value_id, s2) = find_value_id v (Some value_dependency_aware) True s1 in
            bind_err (act_id_of s2 activation) (\<lambda>aid.
            let (t, s3) = time s2;
                (ev, s4) = evaluations_add_object code_id aid (Some t) value_id s3;
                s5 = create_dependencies ev (Some value_dependency_aware) s4
            in Inr (new_dependency (Dependency aid (e_id ev) v value_id ''item'') s5))))
        (\<lambda>(dref, s6).
           let value_id = dep_value_id (get_dep s6 dref);
               (moment, s7) = time s6
           in bind_err (top_add activation dref s7) (\<lambda>s8.
              bind_err (top_items_append activation (k, value_id, moment) s8)
                (\<lambda>s9. Inr (v, s9))))))"

definition assign_value :: "act_ref \<Rightarrow> collector \<Rightarrow> py_error + (after_callable \<times> collector)" where
  "assign_value activation s =
     bind_err (append_scope activation DependencyAware s) (\<lambda>s1. Inr (U_assign_value, s1))"

definition after_assign_value ::
  "act_ref \<Rightarrow> pyobj \<Rightarrow> collector \<Rightarrow> py_error + (pyobj \<times> collector)" where
  "after_assign_value activation v s =
     bind_err (pop_scope activation s) (\<lambda>(dependency, s1).
     let (t, s2) = time s1 in
     (case get_activation s2 activation of
        None \<Rightarrow> Inl InvalidReference
      | Some a \<Rightarrow>
          Inr (v, put_activation activation
                    (a\<lparr>a_assignments := a_assignments a @ [(t, v, dependency)]\<rparr>) s2)))"

definition pop_assign ::
  "act_ref \<Rightarrow> collector \<Rightarrow> py_error + ((nat \<times> pyobj \<times> depa) \<times> collector)" where
  "pop_assign activation s =
     (case get_activation s activation of
        None \<Rightarrow> Inl InvalidReference
      | Some a \<Rightarrow>
          if a_assignments a = [] then Inl IndexError
          else Inr (last (a_assignments a),
                    put_activation activation
                      (a\<lparr>a_assignments := butlast (a_assignments a)\<rparr>) s))"

definition argument :: "act_ref \<Rightarrow> collector \<Rightarrow> py_error + (after_callable \<times> collector)" where
  "argument activation s =
     bind_err (append_scope activation DependencyAware s) (\<lambda>s1. Inr (U_argument, s1))"

definition after_argument ::
  "act_ref \<Rightarrow> int \<Rightarrow> pyobj \<Rightarrow> string \<Rightarrow> string \<Rightarrow> string \<Rightarrow> collector
   \<Rightarrow> py_error + (pyobj \<times> collector)" where
  "after_argument activation code_id v mode_arg arg kind_arg s =
     (let mode = (if mode_arg = [] then ''argument'' else mode_arg);
          kind = (if kind_arg = [] then ''argument'' else kind_arg) in
      bind_err (pop_scope activation s) (\<lambda>(dependency_aware, s1).
      bind_err
        (if length (dependencies dependency_aware) = 1
         then Inr (hd (dependencies dependency_aware), s1)
         else
           bind_err (act_id_of s1 activation) (\<lambda>aid.
           let (t, s2) = time s1;
               (ev, s3) = evaluate aid code_id v (Some t) (Some dependency_aware) s2
           in Inr (new_dependency (Dependency aid (e_id ev) v (e_value_id ev) mode) s3)))
        (\<lambda>(dref, s4).
           let s5 = upd_dep dref (\<lambda>d. d\<lparr>dep_arg := Some arg, dep_kind := Some kind\<rparr>) s4
           in bind_err (top_add (last_activation s5) dref s5) (\<lambda>s6. Inr (v, s6)))))"

definition return_hook :: "act_ref \<Rightarrow> collector \<Rightarrow> py_error + (after_callable \<times> collector)" where
  "return_hook activation s =
     bind_err (append_scope activation DependencyAware s) (\<lambda>s1. Inr (U_return, s1))"

definition after_return ::
  "act_ref \<Rightarrow> pyobj \<Rightarrow> collector \<Rightarrow> py_error + (pyobj \<times> collector)" where
  "after_return activation v s =
     bind_err (pop_scope activation s) (\<lambda>(dependency_aware, s1).
     case get_activation s1 activation of
       None \<Rightarrow> Inl InvalidReference
     | Some a \<Rightarrow> Inr (v, create_dependencies (a_evaluation a) (Some dependency_aware) s1))"

section \<open>Names\<close>

text \<open>
  \<open>lookup\<close> walks the closure chain, which the source follows for as long as it finds an
  activation; on a cyclic chain that never binds the name the loop does not end, and the
  model returns \<open>None\<close>.
\<close>

partial_function (option) lookup_closure ::
  "collector \<Rightarrow> act_ref option \<Rightarrow> string \<Rightarrow> (py_error + evaluation option) option" where
  "lookup_closure s activation name =
     (case activation of
        None \<Rightarrow> Some (Inr None)
      | Some r \<Rightarrow>
          (case get_activation s r of
             None \<Rightarrow> Some (Inl InvalidReference)
           | Some a \<Rightarrow>
               (case a_context a name of
                  Some ev \<Rightarrow> Some (Inr (Some ev))
                | None \<Rightarrow> lookup_closure s (a_closure a) name)))"

definition code_components_add ::
  "string \<Rightarrow> string \<Rightarrow> string \<Rightarrow> int \<Rightarrow> int \<Rightarrow> int \<Rightarrow> int \<Rightarrow> int \<Rightarrow> collector
   \<Rightarrow> int \<times> collector" where
  "code_components_add name ty mode fl fc ll lc cont s =
     (let (obj, st) = store_add_object
                        (\<lambda>i. \<lparr>cc_id = i, cc_name = name, cc_type = ty, cc_mode = mode,
                              cc_first_char_line = fl, cc_first_char_column = fc,
                              cc_last_char_line = ll, cc_last_char_column = lc,
                              cc_container_id = cont\<rparr>)
                        (code_components_store s)
      in (cc_id obj, s\<lparr>code_components_store := st\<rparr>))"

definition lookup ::
  "act_ref \<Rightarrow> string \<Rightarrow> collector \<Rightarrow> (py_error + (evaluation option \<times> collector)) option" where
  "lookup activation name s =
     (case lookup_closure s (Some activation) name of
        None \<Rightarrow> None
      | Some (Inl e) \<Rightarrow> Some (Inl e)
      | Some (Inr (Some ev)) \<Rightarrow> Some (Inr (Some ev, s))
      | Some (Inr None) \<Rightarrow>
          (case global_evaluations s name of
             Some ev \<Rightarrow> Some (Inr (Some ev, s))
           | None \<Rightarrow>
               (case globals s name of
                  None \<Rightarrow> Some (Inr (None, s))
                | Some g \<Rightarrow>
                    (let (cid, s1) = code_components_add name ''global'' ''w''
                                       (-1) (-1) (-1) (-1) (-1) s;
                         (t, s2) = time s1;
                         (value_id, s3) = add_value g s2;
                         (ev, s4) = evaluations_add_object cid (-1) (Some t) (Some value_id) s3
                     in Some (Inr (Some ev,
                                   s4\<lparr>global_evaluations :=
                                        (global_evaluations s4)(name \<mapsto> ev)\<rparr>))))))"

text \<open>
  \<open>name\<close>: the first element of \<open>code_tuple\<close> is falsy (\<open>None\<close> here) or a triple of a code
  component id, a name and a third element that the hook ignores.
\<close>

definition name ::
  "act_ref \<Rightarrow> (int \<times> string \<times> 'x) option \<times> 'y \<Rightarrow> pyobj \<Rightarrow> string \<Rightarrow> collector
   \<Rightarrow> (py_error + (pyobj \<times> collector)) option" where
  "name activation code_tuple v mode s =
     (case fst code_tuple of
        None \<Rightarrow> Some (Inr (v, s))
      | Some (code_id, nm, _) \<Rightarrow>
          (case lookup activation nm s of
             None \<Rightarrow> None
           | Some (Inl e) \<Rightarrow> Some (Inl e)
           | Some (Inr (old_eval, s1)) \<Rightarrow>
               Some
                 (let (value_id, s2) =
                        (case old_eval of
                           Some ev \<Rightarrow> (e_value_id ev, s1)
                         | None \<Rightarrow> (let (i, s') = add_value v s1 in (Some i, s')))
                  in bind_err (act_id_of s2 activation) (\<lambda>aid.
                     let (t, s3) = time s2;
                         (ev, s4) = evaluations_add_object code_id aid (Some t) value_id s3;
                         (dref, s5) = new_dependency
                                        (Dependency aid (e_id ev) v value_id mode) s4
                     in bind_err (top_add activation dref s5) (\<lambda>s6.
                        Inr (v, (case old_eval of
                                   None \<Rightarrow> s6
                                 | Some old \<Rightarrow>
                                     dependencies_add aid (e_id ev) (e_activation_id old)
                                       (e_id old) ''assignment'' s6)))))))"

section \<open>Activations and calls\<close>

definition close_activation :: "act_ref \<Rightarrow> int \<Rightarrow> collector \<Rightarrow> py_error + collector" where
  "close_activation activation value_id s =
     (case get_activation s activation of
        None \<Rightarrow> Inl InvalidReference
      | Some a \<Rightarrow>
          (let (t, s1) = time s;
               ev = (a_evaluation a)\<lparr>e_moment := Some t, e_value_id := Some value_id\<rparr>;
               s2 = put_activation activation (a\<lparr>a_evaluation := ev\<rparr>) s1;
               s3 = s2\<lparr>evaluations_store :=
                        (evaluations_store s2)\<lparr>store_map :=
                           (case store_map (evaluations_store s2) (e_id ev) of
                              None \<Rightarrow> store_map (evaluations_store s2)
                            | Some _ \<Rightarrow> (store_map (evaluations_store s2))(e_id ev \<mapsto> ev))\<rparr>\<rparr>
           in Inr (s3\<lparr>last_activation :=
                        (case store_map (activations_store s3) (e_activation_id ev) of
                           None \<Rightarrow> FirstActivation
                         | Some _ \<Rightarrow> Stored (e_activation_id ev))\<rparr>)))"

definition collect_exception :: "act_ref \<Rightarrow> pyobj \<Rightarrow> collector \<Rightarrow> py_error + collector" where
  "collect_exception now_activation exc s =
     bind_err (act_id_of s now_activation) (\<lambda>aid.
       Inr (s\<lparr>exceptions_store :=
               snd (store_add_object
                      (\<lambda>i. \<lparr>x_id = i, x_exception = exc, x_activation_id = aid\<rparr>)
                      (exceptions_store s))\<rparr>))"

text \<open>
  The loop of \<open>_call\<close> over the scopes of the activation, and the interning that follows
  it when the loop has found no value id.
\<close>

fun find_in_scopes ::
  "pyobj \<Rightarrow> depa list \<Rightarrow> int option \<Rightarrow> collector \<Rightarrow> int option \<times> collector" where
  "find_in_scopes v [] value_id s = (value_id, s)"
| "find_in_scopes v (d # ds) value_id s =
     (let (vid, s1) = find_value_id v (Some d) False s
      in if truthy vid then (vid, s1) else find_in_scopes v ds vid s1)"

definition call_value_id :: "pyobj \<Rightarrow> depa list \<Rightarrow> collector \<Rightarrow> int \<times> collector" where
  "call_value_id result scopes s =
     (let (value_id, s1) = find_in_scopes result scopes None s
      in case value_id of
           None \<Rightarrow> add_value result s1
         | Some i \<Rightarrow> if i = 0 then add_value result s1 else (i, s1))"

text \<open>
  The \<open>finally\<close> block of \<open>_call\<close>. It returns the exception that the block itself
  raises, if any, together with the state it has reached.
\<close>

definition call_finally ::
  "act_ref \<Rightarrow> evaluation \<Rightarrow> pyobj \<Rightarrow> collector \<Rightarrow> py_error option \<times> collector" where
  "call_finally activation ev result s =
     (case get_activation s activation of
        None \<Rightarrow> (Some InvalidReference, s)
      | Some a \<Rightarrow>
          (let (value_id, s1) = call_value_id result (a_dependencies a) s in
           case close_activation activation value_id s1 of
             Inl e \<Rightarrow> (Some e, s1)
           | Inr s2 \<Rightarrow>
               (case get_activation s2 activation of
                  None \<Rightarrow> (Some InvalidReference, s2)
                | Some a2 \<Rightarrow>
                    (case a_dependencies a2 of
                       [] \<Rightarrow> (Some IndexError, s2)
                     | depa # _ \<Rightarrow>
                         (let s3 = create_dependencies ev (Some depa) s2
                          in (None,
                              if a_code_block_id a2 = Some (-1)
                              then create_argument_dependencies ev depa s3
                              else s3))))))"

text \<open>
  \<open>_call\<close>. The call \<open>activation.func(*args, **kwargs)\<close> runs code outside the
  collector, which may call the hooks in turn: \<open>callee\<close> gives, for the state at the call,
  the exception it raises (\<open>Inl\<close>) or the object it returns (\<open>Inr\<close>), and the state it
  leaves. \<open>none\<close> is the object \<open>None\<close>, a parameter because the tuple \<open>IMMUTABLE\<close> is
  not part of the sources at hand and decides whether \<open>None\<close> is immutable. An exception
  raised inside the \<open>finally\<close> block replaces the one in flight.
\<close>

definition after_call ::
  "pyobj \<Rightarrow> (collector \<Rightarrow> (pyobj + pyobj) \<times> collector) \<Rightarrow> collector
   \<Rightarrow> (py_error + pyobj) \<times> collector" where
  "after_call none callee s =
     (let activation = last_activation s in
      case get_activation s activation of
        None \<Rightarrow> (Inl InvalidReference, s)
      | Some a \<Rightarrow>
          (let ev = a_evaluation a;
               (outcome, s1) = callee s;
               result = (case outcome of Inl _ \<Rightarrow> none | Inr r \<Rightarrow> r);
               collected = (case outcome of
                              Inl exc \<Rightarrow> collect_exception activation exc s1
                            | Inr _ \<Rightarrow> Inr s1)
           in case collected of
                Inl e \<Rightarrow>
                  (let (e', s3) = call_finally activation ev result s1
                   in (Inl (case e' of None \<Rightarrow> e | Some e'' \<Rightarrow> e''), s3))
              | Inr s2 \<Rightarrow>
                  (let (e', s3) = call_finally activation ev result s2 in
                   case e' of
                     Some e \<Rightarrow> (Inl e, s3)
                   | None \<Rightarrow>
                       (case outcome of
                          Inl exc \<Rightarrow> (Inl (Raised exc), s3)
                        | Inr _ \<Rightarrow>
                            (case get_activation s3 (last_activation s3) of
                               None \<Rightarrow> (Inl InvalidReference, s3)
                             | Some la \<Rightarrow>
                                 if a_dependencies la = [] then (Inl IndexError, s3)
                                 else
                                   (let (value_id, s4) = add_value result s3 in
                                    case get_activation s4 activation of
                                      None \<Rightarrow> (Inl InvalidReference, s4)
                                    | Some a4 \<Rightarrow>
                                        (let (dref, s5) =
                                               new_dependency
                                                 (Dependency (e_activation_id ev) (e_id ev)
                                                    result (Some value_id)
                                                    (a_depedency_type a4)) s4
                                         in case top_add (last_activation s5) dref s5 of
                                              Inl e \<Rightarrow> (Inl e, s5)
                                            | Inr s6 \<Rightarrow> (Inr result, s6))))))))"

text \<open>
  \<open>start_activation\<close>. The constructor of \<open>Activation\<close> receives the new evaluation, the
  name, the time and the definition, and no activation: the closure of the new
  activation stays unset until the wrapper of a function definition sets it. The store
  keeps the new activation under the next identifier.
\<close>

definition start_activation ::
  "string \<Rightarrow> int \<Rightarrow> int \<Rightarrow> act_ref \<Rightarrow> collector \<Rightarrow> py_error + (act_ref \<times> collector)" where
  "start_activation nm code_component_id definition_id act s =
     bind_err (act_id_of s act) (\<lambda>aid.
     let (ev, s1) = evaluations_add_object code_component_id aid None None s;
         (t, s2) = time s1;
         (a, st) = store_add_object
                     (\<lambda>i. \<lparr>a_id = i, a_name = nm, a_start = Some t,
                           a_code_block_id = Some definition_id, a_evaluation = ev,
                           a_closure = None, a_context = Map.empty,
                           a_dependencies = [DependencyAware], a_assignments = [],
                           a_depedency_type = [], a_func = None\<rparr>)
                     (activations_store s2)
     in Inr (Stored (a_id a),
             s2\<lparr>activations_store := st, last_activation := Stored (a_id a)\<rparr>))"

text \<open>
  \<open>call\<close>. \<open>func_name\<close> is the attribute \<open>func.__name__\<close>, which \<open>call\<close> reads before
  anything else: \<open>None\<close> stands for an object without that attribute.
\<close>

definition call ::
  "act_ref \<Rightarrow> int \<Rightarrow> pyobj \<Rightarrow> string option \<Rightarrow> string \<Rightarrow> collector
   \<Rightarrow> py_error + (after_callable \<times> collector)" where
  "call activation code_id func func_name mode s =
     (case func_name of
        None \<Rightarrow> Inl AttributeError
      | Some nm \<Rightarrow>
          bind_err (start_activation nm code_id (- 1) activation s) (\<lambda>(act, s1).
          bind_err (append_scope act DependencyAware s1) (\<lambda>s2.
          case get_activation s2 act of
            None \<Rightarrow> Inl InvalidReference
          | Some a \<Rightarrow>
              Inr (U_call,
                   put_activation act (a\<lparr>a_func := Some func, a_depedency_type := mode\<rparr>) s2))))"

text \<open>\<open>_func\<close>. It returns what \<open>call\<close> returns, the bound method \<open>_call\<close>.\<close>

definition after_func ::
  "act_ref \<Rightarrow> int \<Rightarrow> int \<Rightarrow> pyobj \<Rightarrow> string option \<Rightarrow> string \<Rightarrow> collector
   \<Rightarrow> py_error + (after_callable \<times> collector)" where
  "after_func activation code_id func_id func func_name mode s =
     bind_err (pop_scope activation s) (\<lambda>(dependency_aware, s1).
     bind_err
       (if length (dependencies dependency_aware) = 1
        then Inr (hd (dependencies dependency_aware), s1)
        else
          bind_err (act_id_of s1 activation) (\<lambda>aid.
          let (t, s2) = time s1;
              (ev, s3) = evaluate aid func_id func (Some t) (Some dependency_aware) s2
          in Inr (new_dependency (Dependency aid (e_id ev) func (e_value_id ev) ''func'') s3)))
       (\<lambda>(dref, s4).
          bind_err (call activation code_id func func_name mode s4) (\<lambda>(result, s5).
          bind_err (top_add (last_activation s5) dref s5) (\<lambda>s6. Inr (result, s6)))))"

definition func :: "act_ref \<Rightarrow> collector \<Rightarrow> py_error + (after_callable \<times> collector)" where
  "func activation s =
     bind_err (append_scope activation DependencyAware s) (\<lambda>s1. Inr (U_func, s1))"

text \<open>
  \<open>function_def\<close> and \<open>_function_def\<close>. The latter returns the decorator \<open>dec\<close>, a
  closure over the activation, the block, the arguments of the definition and the scope
  it has popped; the decorator runs when Python applies it to the function.
\<close>

datatype 'a decorator = Dec act_ref int 'a depa

definition function_def :: "act_ref \<Rightarrow> collector \<Rightarrow> py_error + (after_callable \<times> collector)" where
  "function_def activation s =
     bind_err (append_scope activation DependencyAware s) (\<lambda>s1. Inr (U_function_def, s1))"

definition after_function_def ::
  "act_ref \<Rightarrow> int \<Rightarrow> 'a \<Rightarrow> collector \<Rightarrow> py_error + ('a decorator \<times> collector)" where
  "after_function_def closure_activation block_id arguments s =
     bind_err (pop_scope closure_activation s) (\<lambda>(defaults, s1).
     Inr (Dec closure_activation block_id arguments defaults, s1))"

section \<open>The assignment engine\<close>

text \<open>
  A target is the pair \<open>(info, type_)\<close> of the source: \<open>Single code name value\<close> is
  \<open>((code, name, value), "single")\<close>, \<open>Multiple subcomps value\<close> is
  \<open>((subcomps, value), "multiple")\<close>, and \<open>Starred target value\<close> is a sub-target with
  \<open>type_ = "starred"\<close>, whose \<open>info[0]\<close> is the target under the star and whose
  \<open>info[-1]\<close> is its value. An empty name stands for a falsy name.

  The value of an assignment record is an observed object or the slice that \<open>assign\<close>
  takes of one for a starred target. \<open>assign\<close> uses of this value only its length, its
  items and its slices, which \<open>py_items\<close> gives for an object: \<open>None\<close> for an object
  that has neither, on which the three operations raise TypeError.
\<close>

datatype target =
    Single int string pyobj
  | Multiple "target list" pyobj
  | Starred target pyobj

fun target_value :: "target \<Rightarrow> pyobj" where
  "target_value (Single code nm v) = v"
| "target_value (Multiple subcomps v) = v"
| "target_value (Starred t v) = v"

datatype rhs = Object pyobj | Slice "pyobj list"

fun rhs_items :: "rhs \<Rightarrow> pyobj list option" where
  "rhs_items (Object v) = py_items v"
| "rhs_items (Slice xs) = Some xs"

text \<open>Python indexing and slicing of a sequence: a negative index counts from the end.\<close>

definition list_get :: "'a list \<Rightarrow> int \<Rightarrow> 'a option" where
  "list_get xs i =
     (let n = int (length xs); j = (if i < 0 then n + i else i)
      in if 0 \<le> j \<and> j < n then Some (xs ! nat j) else None)"

definition slice_bound :: "int \<Rightarrow> int \<Rightarrow> int" where
  "slice_bound n k = (if k < 0 then max 0 (n + k) else min n k)"

definition list_slice :: "'a list \<Rightarrow> int \<Rightarrow> int \<Rightarrow> 'a list" where
  "list_slice xs lo hi =
     (let n = int (length xs); l = slice_bound n lo; h = slice_bound n hi
      in take (nat (h - l)) (drop (nat l) xs))"

definition py_len :: "rhs \<Rightarrow> py_error + int" where
  "py_len v = (case rhs_items v of None \<Rightarrow> Inl TypeError | Some xs \<Rightarrow> Inr (int (length xs)))"

definition py_getitem :: "rhs \<Rightarrow> int \<Rightarrow> py_error + pyobj" where
  "py_getitem v i =
     (case rhs_items v of
        None \<Rightarrow> Inl TypeError
      | Some xs \<Rightarrow> (case list_get xs i of None \<Rightarrow> Inl IndexError | Some x \<Rightarrow> Inr x))"

definition py_getslice :: "rhs \<Rightarrow> int \<Rightarrow> int \<Rightarrow> py_error + rhs" where
  "py_getslice v lo hi =
     (case rhs_items v of
        None \<Rightarrow> Inl TypeError
      | Some xs \<Rightarrow> Inr (Slice (list_slice xs lo hi)))"

text \<open>\<open>str\<close> of an integer, for the address \<open>"[{}]".format(index)\<close>.\<close>

fun str_nat :: "nat \<Rightarrow> string" where
  "str_nat n =
     (if n < 10 then [''0123456789'' ! n]
      else str_nat (n div 10) @ [''0123456789'' ! (n mod 10)])"

definition str_int :: "int \<Rightarrow> string" where
  "str_int i = (if i < 0 then ''-'' @ str_nat (nat (- i)) else str_nat (nat i))"

text \<open>
  Modelled from the spec: \<open>DependencyAware.join\<close> and \<open>DependencyAware.clone\<close>. The
  join of scopes is a fresh plain scope that holds their dependencies in order; the
  clone of a scope is a fresh plain scope that holds copies of its dependencies, each
  with the given mode.
\<close>

definition join :: "depa list \<Rightarrow> depa" where
  "join ds = DependencyAware\<lparr>dependencies := concat (map dependencies ds)\<rparr>"

fun clone_loop :: "string \<Rightarrow> dep_ref list \<Rightarrow> collector \<Rightarrow> dep_ref list \<times> collector" where
  "clone_loop mode [] s = ([], s)"
| "clone_loop mode (r # rs) s =
     (let (r', s1) = new_dependency ((get_dep s r)\<lparr>dep_mode := mode\<rparr>) s;
          (rs', s2) = clone_loop mode rs s1
      in (r' # rs', s2))"

definition clone :: "string \<Rightarrow> depa \<Rightarrow> collector \<Rightarrow> depa \<times> collector" where
  "clone mode d s =
     (let (rs, s1) = clone_loop mode (dependencies d) s
      in (DependencyAware\<lparr>dependencies := rs\<rparr>, s1))"

text \<open>
  Modelled from the spec: \<open>get_compartment\<close> and \<open>last_evaluation_by_value_id\<close> (the
  helper module is not part of the sources at hand): the member value of the latest
  compartment of a container value at an address, and the latest evaluation of a value.
\<close>

fun find_last :: "('a \<Rightarrow> bool) \<Rightarrow> (int \<rightharpoonup> 'a) \<Rightarrow> nat \<Rightarrow> 'a option" where
  "find_last P m 0 = None"
| "find_last P m (Suc k) =
     (case m (int (Suc k)) of
        None \<Rightarrow> find_last P m k
      | Some x \<Rightarrow> if P x then Some x else find_last P m k)"

definition get_compartment :: "collector \<Rightarrow> int option \<Rightarrow> string \<Rightarrow> int option" where
  "get_compartment s whole addr =
     (case find_last (\<lambda>c. c_whole_id c = whole \<and> c_name c = addr)
             (store_map (compartments_store s)) (nat (store_id (compartments_store s))) of
        None \<Rightarrow> None
      | Some c \<Rightarrow> c_part_id c)"

definition last_evaluation_by_value_id :: "collector \<Rightarrow> int option \<Rightarrow> (int \<times> int) option" where
  "last_evaluation_by_value_id s value_id =
     (case find_last (\<lambda>e. e_value_id e = value_id)
             (store_map (evaluations_store s)) (nat (store_id (evaluations_store s))) of
        None \<Rightarrow> None
      | Some e \<Rightarrow> Some (e_activation_id e, e_id e))"

text \<open>
  The three closures \<open>custom_dependency\<close> of \<open>assign\<close>, with the variables they capture:
  \<open>ldepa\<close> and \<open>clone_depa\<close>; \<open>dep\<close>, \<open>assign_value\<close> (written \<open>assign_val\<close>) and \<open>clone_depa\<close>; \<open>clone_depa\<close>.
\<close>

datatype custom =
    FromList "depa list" depa
  | Propagate dep_ref rhs depa
  | Fallback depa

fun custom_dependency :: "custom \<Rightarrow> int \<Rightarrow> collector \<Rightarrow> py_error + (depa \<times> collector)" where
  "custom_dependency (FromList ldepa clone_depa) index s =
     (case list_get ldepa index of
        Some d \<Rightarrow> Inr (d, s)
      | None \<Rightarrow> Inr (clone_depa, s))"
| "custom_dependency (Propagate dep assign_val clone_depa) index s =
     bind_err
       (if int (length (dep_sub_dependencies (get_dep s dep))) > index then
          (case list_get (dep_sub_dependencies (get_dep s dep)) index of
             None \<Rightarrow> Inl IndexError
           | Some nr \<Rightarrow>
               Inr (dep_value_id (get_dep s nr),
                    Some (dep_activation_id (get_dep s nr), dep_evaluation_id (get_dep s nr))))
        else
          (let part_id = get_compartment s (dep_value_id (get_dep s dep))
                           (''['' @ str_int index @ '']'')
           in Inr (part_id, last_evaluation_by_value_id s part_id)))
       (\<lambda>(part_id, found).
          case found of
            None \<Rightarrow> Inr (clone_depa, s)
          | Some (aid, eid) \<Rightarrow>
              if \<not> truthy part_id \<or> eid = 0 then Inr (clone_depa, s)
              else
                bind_err (py_getitem assign_val index) (\<lambda>val.
                  let (r, s1) = new_dependency (Dependency aid eid val part_id ''assign'') s
                  in Inr (DependencyAware\<lparr>dependencies := [r]\<rparr>, s1)))"
| "custom_dependency (Fallback clone_depa) index s = Inr (clone_depa, s)"

fun custom_dependencies ::
  "custom \<Rightarrow> int list \<Rightarrow> collector \<Rightarrow> py_error + (depa list \<times> collector)" where
  "custom_dependencies c [] s = Inr ([], s)"
| "custom_dependencies c (i # is) s =
     bind_err (custom_dependency c i s) (\<lambda>(d, s1).
     bind_err (custom_dependencies c is s1) (\<lambda>(ds, s2). Inr (d # ds, s2)))"

datatype depa_arg = One depa | Many "depa list"

text \<open>
  \<open>assign\<close>. Its result is the value the Python function returns: \<open>Some 1\<close> for a single
  target and \<open>None\<close> where the function ends without a \<open>return\<close> statement.
  \<open>assign_subcomps\<close> is the loop over \<open>enumerate(subcomps)\<close> together with the code
  that follows it: at a starred sub-target the loop breaks, and the sub-targets after
  it are visited from the last one backwards by \<open>assign_reversed\<close>, which is the loop
  over \<open>range(len(subcomps) - 1, starred, -1)\<close>. Adding \<open>None\<close> to \<open>delta\<close> or
  subtracting it from \<open>rdelta\<close> raises TypeError.
\<close>

fun assign ::
    "act_ref \<Rightarrow> nat \<times> rhs \<times> depa_arg \<Rightarrow> target \<Rightarrow> collector
     \<Rightarrow> py_error + (int option \<times> collector)"
  and assign_subcomps ::
    "act_ref \<Rightarrow> nat \<Rightarrow> rhs \<Rightarrow> custom \<Rightarrow> int \<Rightarrow> int \<Rightarrow> target list \<Rightarrow> collector
     \<Rightarrow> py_error + (unit \<times> collector)"
  and assign_reversed ::
    "act_ref \<Rightarrow> nat \<Rightarrow> rhs \<Rightarrow> custom \<Rightarrow> int \<Rightarrow> target list \<Rightarrow> collector
     \<Rightarrow> py_error + (int \<times> collector)"
where
  "assign activation (moment, assign_val, depa_arg) (Single code nm v) s =
     (let depa = (case depa_arg of One d \<Rightarrow> d | Many ds \<Rightarrow> join ds) in
      bind_err (act_id_of s activation) (\<lambda>aid.
      let (ev, s1) = evaluate aid code v (Some moment) (Some depa) s in
      if nm \<noteq> [] then
        (case get_activation s1 activation of
           None \<Rightarrow> Inl InvalidReference
         | Some a \<Rightarrow>
             Inr (Some 1,
                  put_activation activation (a\<lparr>a_context := (a_context a)(nm \<mapsto> ev)\<rparr>) s1))
      else Inr (Some 1, s1)))"
| "assign activation (moment, assign_val, depa_arg) (Multiple subcomps v) s =
     (let ldepa = (case depa_arg of One d \<Rightarrow> [] | Many ds \<Rightarrow> ds);
          depa = (case depa_arg of One d \<Rightarrow> d | Many ds \<Rightarrow> join ds);
          propagate_dependencies =
            (length (dependencies depa) = 1 \<and>
             startswith (dep_mode (get_dep s (hd (dependencies depa)))) ''assign'' \<and>
             isiterable v);
          (clone_depa, s1) = clone ''dependency'' depa s;
          custom =
            (if ldepa \<noteq> [] then FromList ldepa clone_depa
             else if propagate_dependencies
               then Propagate (hd (dependencies depa)) assign_val clone_depa
             else Fallback clone_depa)
      in bind_err (assign_subcomps activation moment assign_val custom 0 0 subcomps s1)
           (\<lambda>(u, s2). Inr (None, s2)))"
| "assign activation (moment, assign_val, depa_arg) (Starred t v) s = Inr (None, s)"
| "assign_subcomps activation moment assign_val custom index delta [] s = Inr ((), s)"
| "assign_subcomps activation moment assign_val custom index delta (Starred star v # rest) s =
     bind_err (assign_reversed activation moment assign_val custom (-1) rest s)
       (\<lambda>(rdelta, s1).
     bind_err (py_getslice assign_val delta (rdelta + 1)) (\<lambda>new_value.
     bind_err (py_len assign_val) (\<lambda>n.
     bind_err (custom_dependencies custom [delta .. n + rdelta] s1) (\<lambda>(depas, s2).
     bind_err (assign activation (moment, new_value, Many depas) star s2)
       (\<lambda>(w, s3). Inr ((), s3))))))"
| "assign_subcomps activation moment assign_val custom index delta (subcomp # rest) s =
     bind_err (custom_dependency custom index s) (\<lambda>(adepa, s1).
     bind_err (assign activation (moment, Object (target_value subcomp), One adepa) subcomp s1)
       (\<lambda>(w, s2).
          case w of
            None \<Rightarrow> Inl TypeError
          | Some k \<Rightarrow>
              assign_subcomps activation moment assign_val custom (index + 1) (delta + k)
                rest s2))"
| "assign_reversed activation moment assign_val custom rdelta [] s = Inr (rdelta, s)"
| "assign_reversed activation moment assign_val custom rdelta (subcomp # rest) s =
     bind_err (assign_reversed activation moment assign_val custom rdelta rest s)
       (\<lambda>(rd, s1).
     bind_err (py_len assign_val) (\<lambda>n.
     bind_err (custom_dependency custom (n + rd) s1) (\<lambda>(adepa, s2).
     bind_err (assign activation (moment, Object (target_value subcomp), One adepa) subcomp s2)
       (\<lambda>(w, s3).
          case w of
            None \<Rightarrow> Inl TypeError
          | Some k \<Rightarrow> Inr (rd - k, s3)))))"

section \<open>Notions used to state the properties\<close>



text \<open>Objects and states for the concrete runs below.\<close>

definition py_int :: pyobj where
  "py_int = PyObj 2 PyTypeType ''<class int>'' False False None"

definition py_list :: pyobj where
  "py_list = PyObj 3 PyTypeType ''<class list>'' False False None"

definition int_obj :: "nat \<Rightarrow> string \<Rightarrow> pyobj" where
  "int_obj a r = PyObj a py_int r True False None"

definition list_obj :: "nat \<Rightarrow> string \<Rightarrow> pyobj list \<Rightarrow> pyobj" where
  "list_obj a r xs = PyObj a py_list r False True (Some xs)"

definition s0 :: collector where
  "s0 = init_collector Map.empty"

definition bind_state :: collector where
  "bind_state =
     s0\<lparr>dep_heap :=
          [Dependency (-1) 1 (list_obj 8 ''[]'' []) (Some 5) ''dependency'',
           Dependency (-1) 2 (int_obj 7 ''5'') (Some 6) ''argument'']\<rparr>"

text \<open>
  A state in which the only dependency holds the empty list \<open>[]\<close> and has no value id.
\<close>

definition unbound_state :: collector where
  "unbound_state =
     s0\<lparr>dep_heap := [Dependency (-1) 1 (list_obj 8 ''[]'' []) None ''dependency'']\<rparr>"

text \<open>The number of scopes on the stack of an activation.\<close>

definition stack_size :: "collector \<Rightarrow> act_ref \<Rightarrow> nat" where
  "stack_size s r =
     (case get_activation s r of None \<Rightarrow> 0 | Some a \<Rightarrow> length (a_dependencies a))"

text \<open>
  The invariant of the activations store: it holds no activation under an identifier
  beyond the last one it has handed out, so that the activation that \<open>start_activation\<close>
  adds is a new one.
\<close>

definition activations_wf :: "collector \<Rightarrow> bool" where
  "activations_wf s =
     (\<forall>i. store_id (activations_store s) < i \<longrightarrow> store_map (activations_store s) i = None)"

text \<open>The part of the state that holds the activation objects.\<close>

definition activation_part :: "collector \<Rightarrow> activation store \<times> activation \<times> act_ref" where
  "activation_part s = (activations_store s, first_activation s, last_activation s)"

text \<open>
  The objects of the unpacking runs: the integers 1, 2 and 3, the list \<open>[1, 2, 3]\<close>, the
  tuple \<open>(1, 2)\<close> and the tuple \<open>((1, 2), 3)\<close>; and a state in which the right-hand
  side has been captured as one dependency with the mode \<open>dependency\<close>.
\<close>

definition py_tuple :: pyobj where
  "py_tuple = PyObj 4 PyTypeType ''<class tuple>'' False False None"

definition one :: pyobj where "one = int_obj 11 ''1''"
definition two :: pyobj where "two = int_obj 12 ''2''"
definition three :: pyobj where "three = int_obj 13 ''3''"

definition list123 :: pyobj where
  "list123 = list_obj 20 ''[1, 2, 3]'' [one, two, three]"

definition list23 :: pyobj where
  "list23 = list_obj 23 ''[2, 3]'' [two, three]"

definition list3 :: pyobj where
  "list3 = list_obj 24 ''[3]'' [three]"

definition pair12 :: pyobj where
  "pair12 = PyObj 21 py_tuple ''(1, 2)'' False True (Some [one, two])"

definition nested123 :: pyobj where
  "nested123 = PyObj 22 py_tuple ''((1, 2), 3)'' False True (Some [pair12, three])"

definition rhs_state :: "pyobj \<Rightarrow> collector" where
  "rhs_state v = s0\<lparr>dep_heap := [Dependency (-1) 1 v (Some 1) ''dependency'']\<rparr>"

definition rhs_depa :: depa where
  "rhs_depa = DependencyAware\<lparr>dependencies := [0]\<rparr>"

text \<open>The dependency edges of a state, in the order of their creation, without their ids.\<close>

fun store_list :: "(int \<rightharpoonup> 'a) \<Rightarrow> nat \<Rightarrow> 'a list" where
  "store_list m 0 = []"
| "store_list m (Suc k) =
     store_list m k @ (case m (int (Suc k)) of None \<Rightarrow> [] | Some x \<Rightarrow> [x])"

definition edges :: "collector \<Rightarrow> (int \<times> int \<times> int \<times> int \<times> string) list" where
  "edges s =
     map (\<lambda>d. (d_dependent_activation_id d, d_dependent_id d,
               d_dependency_activation_id d, d_dependency_id d, d_mode d))
       (store_list (store_map (dependencies_store s)) (nat (store_id (dependencies_store s))))"

text \<open>
  The records that a store holds under the \<open>n\<close> identifiers after \<open>base\<close>, in the order
  of their identifiers, and the dependency edges that a state \<open>s'\<close> holds beyond those of
  an earlier state \<open>s\<close>.
\<close>

fun added :: "(int \<rightharpoonup> 'a) \<Rightarrow> int \<Rightarrow> nat \<Rightarrow> 'a list" where
  "added m base 0 = []"
| "added m base (Suc n) =
     added m base n @ (case m (base + int (Suc n)) of None \<Rightarrow> [] | Some x \<Rightarrow> [x])"

definition new_edges :: "collector \<Rightarrow> collector \<Rightarrow> (int \<times> int \<times> int \<times> int \<times> string) list" where
  "new_edges s s' =
     map (\<lambda>d. (d_dependent_activation_id d, d_dependent_id d,
               d_dependency_activation_id d, d_dependency_id d, d_mode d))
       (added (store_map (dependencies_store s')) (store_id (dependencies_store s))
          (nat (store_id (dependencies_store s') - store_id (dependencies_store s))))"

text \<open>
  The edge that \<open>create_dependencies\<close> draws from an evaluation to the dependency \<open>r\<close>,
  and the edge that \<open>create_argument_dependencies\<close> draws to it.
\<close>

definition edge_to :: "evaluation \<Rightarrow> collector \<Rightarrow> dep_ref \<Rightarrow> int \<times> int \<times> int \<times> int \<times> string" where
  "edge_to ev s r =
     (e_activation_id ev, e_id ev, dep_activation_id (get_dep s r),
      dep_evaluation_id (get_dep s r), dep_mode (get_dep s r))"

definition argument_edge_to ::
  "evaluation \<Rightarrow> collector \<Rightarrow> dep_ref \<Rightarrow> int \<times> int \<times> int \<times> int \<times> string" where
  "argument_edge_to ev s r =
     (e_activation_id ev, e_id ev, dep_activation_id (get_dep s r),
      dep_evaluation_id (get_dep s r), ''dependency'')"

text \<open>
  A heap of dependencies differs from another only in modes, and no mode has moved
  across \<open>startswith "argument"\<close>: what the bind rule may do to a heap.
\<close>

definition modes_rewritten :: "dependency list \<Rightarrow> dependency list \<Rightarrow> bool" where
  "modes_rewritten h h' =
     (length h' = length h \<and>
      (\<forall>r. h' ! r = (h ! r)\<lparr>dep_mode := dep_mode (h' ! r)\<rparr> \<and>
           startswith (dep_mode (h' ! r)) ''argument'' =
             startswith (dep_mode (h ! r)) ''argument''))"

text \<open>Adding a list of edges to the dependencies store, one after the other.\<close>

fun push_edges :: "(int \<times> int \<times> int \<times> int \<times> string) list \<Rightarrow> collector \<Rightarrow> collector" where
  "push_edges [] s = s"
| "push_edges ((a, e, da, de, m) # es) s = push_edges es (dependencies_add a e da de m s)"

text \<open>
  A state in which a call of the builtin \<open>len\<close> is in flight: the activation of the call
  has no known definition, its evaluation is in the evaluations store, and its first scope
  holds the dependency of the argument, the list \<open>[1, 2, 3]\<close>. The callee returns 3, or
  raises an exception.
\<close>

definition len_builtin :: pyobj where
  "len_builtin =
     PyObj 41 (PyObj 40 PyTypeType ''<class builtin_function_or_method>'' False False None)
       ''<built-in function len>'' False False None"

definition len_evaluation :: evaluation where
  "len_evaluation =
     \<lparr>e_id = 1, e_code_component_id = 5, e_activation_id = - 1,
      e_moment = None, e_value_id = None\<rparr>"

definition len_activation :: activation where
  "len_activation =
     \<lparr>a_id = 1, a_name = ''len'', a_start = Some 0, a_code_block_id = Some (- 1),
      a_evaluation = len_evaluation, a_closure = None, a_context = Map.empty,
      a_dependencies = [DependencyAware\<lparr>dependencies := [0]\<rparr>],
      a_assignments = [], a_depedency_type = ''dependency'',
      a_func = Some len_builtin\<rparr>"

definition call_state :: collector where
  "call_state =
     s0\<lparr>evaluations_store := \<lparr>store_id = 1, store_map = [1 \<mapsto> len_evaluation]\<rparr>,
        activations_store := \<lparr>store_id = 1, store_map = [1 \<mapsto> len_activation]\<rparr>,
        last_activation := Stored 1,
        dep_heap := [(Dependency (- 1) 7 list123 (Some 9) ''argument'')
                       \<lparr>dep_kind := Some ''argument'', dep_arg := Some []\<rparr>],
        clock := 1\<rparr>"

definition returns_three :: "collector \<Rightarrow> (pyobj + pyobj) \<times> collector" where
  "returns_three s = (Inr three, s)"

definition type_error :: pyobj where
  "type_error =
     PyObj 31 (PyObj 30 PyTypeType ''<class TypeError>'' False False None)
       ''TypeError()'' False False None"

definition raises :: "collector \<Rightarrow> (pyobj + pyobj) \<times> collector" where
  "raises s = (Inl type_error, s)"

section \<open>Properties\<close>

subsection \<open>The value interner\<close>

lemma values_add_eq:
  "values_add r t s =
     (store_id (values_store s) + 1,
      s\<lparr>values_store :=
          \<lparr>store_id = store_id (values_store s) + 1,
           store_map = (store_map (values_store s))
             (store_id (values_store s) + 1 \<mapsto>
                \<lparr>v_id = store_id (values_store s) + 1, v_value = r, v_type_id = t\<rparr>)\<rparr>\<rparr>)"
  by (simp add: values_add_def values_add_object_def store_add_object_def Let_def)

lemma add_value_type_eq:
  "add_value PyTypeType s =
     (store_id (values_store s) + 1,
      s\<lparr>values_store :=
          \<lparr>store_id = store_id (values_store s) + 1,
           store_map = (store_map (values_store s))
             (store_id (values_store s) + 1 \<mapsto>
                \<lparr>v_id = store_id (values_store s) + 1, v_value = py_repr PyTypeType,
                 v_type_id = store_id (values_store s) + 1\<rparr>)\<rparr>,
        shared_types := (shared_types s)(TypeIdent \<mapsto> store_id (values_store s) + 1)\<rparr>)"
  by (simp add: values_add_object_def store_add_object_def set_type_id_def Let_def)

lemmas add_value_obj_eq = add_value.simps(2)

declare add_value.simps [simp del]











text \<open>\<open>add_value\<close> grows the store and returns the last identifier.\<close>

lemma add_value_grows:
  "add_value v s = (i, s') \<Longrightarrow>
     i = store_id (values_store s') \<and> store_id (values_store s) < i \<and>
     (\<exists>t. store_map (values_store s') i = Some \<lparr>v_id = i, v_value = py_repr v, v_type_id = t\<rparr>) \<and>
     (\<forall>j \<le> store_id (values_store s).
        store_map (values_store s') j = store_map (values_store s) j)"
proof (induction v arbitrary: s i s')
  case PyTypeType
  then show ?case by (auto simp: add_value_type_eq)
next
  case (PyObj a c r im it xs)
  show ?case
  proof (cases "shared_types s (py_id c)")
    case (Some t)
    with PyObj.prems have "values_add r t s = (i, s')" by (simp add: add_value_obj_eq)
    then show ?thesis unfolding values_add_eq by auto
  next
    case None
    obtain t s1 where c: "add_value c s = (t, s1)" by (cases "add_value c s")
    note ih = PyObj.IH(1)[OF c]
    let ?s2 = "s1\<lparr>shared_types := (shared_types s1)(py_id c \<mapsto> t)\<rparr>"
    from PyObj.prems None c have "values_add r t ?s2 = (i, s')" by (simp add: add_value_obj_eq)
    then have i: "i = store_id (values_store s1) + 1"
      and s': "s' = ?s2\<lparr>values_store :=
          \<lparr>store_id = store_id (values_store s1) + 1,
           store_map = (store_map (values_store s1))
             (store_id (values_store s1) + 1 \<mapsto>
                \<lparr>v_id = store_id (values_store s1) + 1, v_value = r, v_type_id = t\<rparr>)\<rparr>\<rparr>"
      unfolding values_add_eq by auto
    have lt: "store_id (values_store s) < store_id (values_store s1)"
      using ih by simp
    have keep: "\<forall>j \<le> store_id (values_store s).
        store_map (values_store s1) j = store_map (values_store s) j"
      using ih by simp
    show ?thesis using lt keep by (simp add: i s')
  qed
qed



lemma add_value_shared:
  "shared_types (snd (add_value (PyObj a c r im it xs) s)) (py_id c) \<noteq> None"
  by (cases "shared_types s (py_id c)")
     (auto simp: add_value_obj_eq values_add_eq split: prod.splits)

lemma add_value_cached:
  "shared_types s (py_id c) = Some t \<Longrightarrow>
   add_value (PyObj a c r im it xs) s = values_add r t s"
  by (simp add: add_value_obj_eq)

lemma add_value_single:
  assumes "v = PyTypeType \<or> shared_types s (py_id (py_type v)) \<noteq> None"
  shows "fst (add_value v s) = store_id (values_store s) + 1 \<and>
         store_id (values_store (snd (add_value v s))) = store_id (values_store s) + 1 \<and>
         (\<forall>j. j \<noteq> store_id (values_store s) + 1 \<longrightarrow>
            store_map (values_store (snd (add_value v s))) j = store_map (values_store s) j)"
proof (cases v)
  case PyTypeType
  then show ?thesis by (simp add: add_value_type_eq)
next
  case (PyObj a c r im it xs)
  with assms obtain t where "shared_types s (py_id c) = Some t" by auto
  then show ?thesis by (simp add: PyObj add_value_cached values_add_eq)
qed

lemma add_value_ready:
  "v = PyTypeType \<or> shared_types (snd (add_value v s)) (py_id (py_type v)) \<noteq> None"
  by (cases v) (simp_all add: add_value_shared)

text \<open>
  Claim C2, as amended. \<open>add_value\<close> interns no instance value by identity: called twice
  on the identical object, the second call returns the identifier after the one the
  first call returned, and afterwards the store holds a Value record with the \<open>repr\<close> of
  the object under each of the two identifiers. Only the Values of types are shared,
  through \<open>shared_types\<close>.
\<close>

theorem add_value_twice:
  "fst (add_value v (snd (add_value v s))) = fst (add_value v s) + 1 \<and>
   (\<exists>t. store_map (values_store (snd (add_value v (snd (add_value v s))))) (fst (add_value v s)) =
     Some \<lparr>v_id = fst (add_value v s), v_value = py_repr v, v_type_id = t\<rparr>) \<and>
   (\<exists>t. store_map (values_store (snd (add_value v (snd (add_value v s))))) (fst (add_value v s) + 1) =
     Some \<lparr>v_id = fst (add_value v s) + 1, v_value = py_repr v, v_type_id = t\<rparr>)"
proof -
  obtain i s1 where a1: "add_value v s = (i, s1)" by (cases "add_value v s")
  obtain j s2 where a2: "add_value v s1 = (j, s2)" by (cases "add_value v s1")
  have ready: "v = PyTypeType \<or> shared_types s1 (py_id (py_type v)) \<noteq> None"
    using add_value_ready[of v s] a1 by simp
  note g1 = add_value_grows[OF a1] and g2 = add_value_grows[OF a2]
  note one = add_value_single[OF ready]
  have j: "j = i + 1" using one g1 a2 by simp
  have keep: "store_map (values_store s2) i = store_map (values_store s1) i"
    using g2 g1 by simp
  from g1 obtain t where "store_map (values_store s1) i = Some \<lparr>v_id = i, v_value = py_repr v, v_type_id = t\<rparr>"
    by blast
  with keep have first: "\<exists>t. store_map (values_store s2) i = Some \<lparr>v_id = i, v_value = py_repr v, v_type_id = t\<rparr>"
    by simp
  from g2 obtain t' where "store_map (values_store s2) j = Some \<lparr>v_id = j, v_value = py_repr v, v_type_id = t'\<rparr>"
    by blast
  then have second: "\<exists>t. store_map (values_store s2) (i + 1) = Some \<lparr>v_id = i + 1, v_value = py_repr v, v_type_id = t\<rparr>"
    unfolding j by blast
  show ?thesis using j first second by (simp add: a1 a2)
qed

text \<open>The equations that evaluate the concrete runs.\<close>

lemmas run_simps = s0_def init_collector_def empty_store_def int_obj_def list_obj_def py_int_def py_list_def
  values_add_eq add_value_type_eq add_value_obj_eq Let_def

text \<open>
  Claim C2 as stated fails: interning the same integer object twice in the initial state
  returns the identifiers 3 and 4, and the store then holds a Value record for the object
  under both.
\<close>

theorem add_value_twice_counterexample:
  "fst (add_value (int_obj 7 ''5'') s0) = 3 \<and>
   fst (add_value (int_obj 7 ''5'') (snd (add_value (int_obj 7 ''5'') s0))) = 4 \<and>
   map_option v_value (store_map (values_store (snd (add_value (int_obj 7 ''5'') (snd (add_value (int_obj 7 ''5'') s0))))) 3) = Some ''5'' \<and>
   map_option v_value (store_map (values_store (snd (add_value (int_obj 7 ''5'') (snd (add_value (int_obj 7 ''5'') s0))))) 4) = Some ''5''"
  by (simp add: run_simps)



text \<open>Witness for C2 as amended.\<close>

theorem add_value_twice_witness:
  "fst (add_value (int_obj 7 ''5'') (snd (add_value (int_obj 7 ''5'') s0))) = 4"
  using add_value_twice[of "int_obj 7 ''5''" s0] by (simp add: run_simps)

subsection \<open>Names without a code component\<close>

text \<open>
  Claim C10. Called with a code tuple whose first element is falsy, \<open>name\<close> returns the
  value it was given and the state it was given: no record is created and the
  activation, its context, its scope stack and every store are as they were.
\<close>

theorem name_without_code_component:
  "name activation (None, rest) v mode s = Some (Inr (v, s))"
  by (simp add: name_def)

text \<open>Witness for C10: the hook on the root activation of the initial state.\<close>

theorem name_without_code_component_witness:
  "name FirstActivation (None :: (int \<times> string \<times> unit) option, ()) (int_obj 7 ''5'') ''dependency'' s0
     = Some (Inr (int_obj 7 ''5'', s0))"
  by (rule name_without_code_component)

subsection \<open>Collection literals\<close>

text \<open>
  Claim C9. The before-hooks \<open>tuple\<close> and \<open>set\<close> are equal to the before-hook \<open>list\<close>:
  each pushes a collection scope and returns \<open>_list\<close>, so that a tuple literal and a set
  literal are recorded by the very steps that record a list literal.
\<close>

theorem tuple_set_as_list:
  "tuple_hook activation s = list_hook activation s \<and>
   set_hook activation s = list_hook activation s \<and>
   (case list_hook activation s of Inl e \<Rightarrow> True | Inr (cb, s1) \<Rightarrow> cb = U_list) \<and>
   bind_err (tuple_hook activation s) (\<lambda>(cb, s1). after_list activation code_id v mode s1) =
     bind_err (list_hook activation s) (\<lambda>(cb, s1). after_list activation code_id v mode s1) \<and>
   bind_err (set_hook activation s) (\<lambda>(cb, s1). after_list activation code_id v mode s1) =
     bind_err (list_hook activation s) (\<lambda>(cb, s1). after_list activation code_id v mode s1)"
  by (simp add: tuple_hook_def set_hook_def list_hook_def bind_err_def split: sum.splits)

text \<open>The equations that evaluate the stack operations.\<close>

lemmas stack_simps = bind_err_def append_scope_def pop_scope_def upd_top_def top_add_def
  top_items_append_def top_set_key_def get_activation_def put_activation_def act_id_of_def
  DependencyAware_def CompartmentDependencyAware_def CollectionDependencyAware_def

text \<open>Witness for C9: the three hooks on the root activation of the initial state.\<close>

theorem tuple_set_as_list_witness:
  "tuple_hook FirstActivation s0 = list_hook FirstActivation s0 \<and>
   set_hook FirstActivation s0 = list_hook FirstActivation s0 \<and>
   map_sum id fst (tuple_hook FirstActivation s0) = Inr U_list \<and>
   map_sum id (\<lambda>(cb, s1). a_dependencies (first_activation s1)) (set_hook FirstActivation s0) =
     Inr [DependencyAware, CollectionDependencyAware]"
  using tuple_set_as_list[of FirstActivation s0]
  by (simp add: tuple_hook_def set_hook_def list_hook_def stack_simps s0_def init_collector_def)

subsection \<open>The bind rule\<close>

lemma find_dep_Some:
  "find_dep s v rs = Some r \<Longrightarrow>
   \<exists>pre post. rs = pre @ r # post \<and> py_is (dep_value (get_dep s r)) v \<and>
     (\<forall>q \<in> set pre. \<not> py_is (dep_value (get_dep s q)) v)"
proof (induction rs)
  case Nil
  then show ?case by simp
next
  case (Cons a rs)
  show ?case
  proof (cases "py_is (dep_value (get_dep s a)) v")
    case True
    with Cons.prems have "r = a" by simp
    with True have "a # rs = [] @ r # rs \<and> py_is (dep_value (get_dep s r)) v \<and>
      (\<forall>q \<in> set []. \<not> py_is (dep_value (get_dep s q)) v)" by simp
    then show ?thesis by blast
  next
    case False
    with Cons.prems have "find_dep s v rs = Some r" by simp
    from Cons.IH[OF this] obtain pre post where
      "rs = pre @ r # post" "py_is (dep_value (get_dep s r)) v"
      "\<forall>q \<in> set pre. \<not> py_is (dep_value (get_dep s q)) v" by blast
    with False have "a # rs = (a # pre) @ r # post \<and> py_is (dep_value (get_dep s r)) v \<and>
      (\<forall>q \<in> set (a # pre). \<not> py_is (dep_value (get_dep s q)) v)" by simp
    then show ?thesis by blast
  qed
qed

lemma find_dep_None:
  "find_dep s v rs = None \<longleftrightarrow> (\<forall>r \<in> set rs. \<not> py_is (dep_value (get_dep s r)) v)"
  by (induction rs) auto

lemma get_upd_dep:
  "r < length (dep_heap s) \<Longrightarrow> get_dep (upd_dep r f s) r = f (get_dep s r)"
  "r' \<noteq> r \<Longrightarrow> get_dep (upd_dep r f s) r' = get_dep s r'"
  by (simp_all add: get_dep_def upd_dep_def)

text \<open>
  Interning leaves the heap of dependencies alone and adds one Value record, under an
  identifier beyond the last one handed out, with the \<open>repr\<close> of the object. The two
  lemmas after it give the result of \<open>find_value_id\<close> when the loop finds a match and when
  it finds none.
\<close>

lemma add_value_heap: "dep_heap (snd (add_value v s)) = dep_heap s"
proof (induction v arbitrary: s)
  case PyTypeType
  then show ?case by (simp add: add_value_type_eq)
next
  case (PyObj a c r im it xs)
  show ?case
  proof (cases "shared_types s (py_id c)")
    case None
    have "dep_heap (snd (add_value c s)) = dep_heap s" by (rule PyObj.IH(1))
    then show ?thesis using None
      by (auto simp: add_value_obj_eq values_add_eq split: prod.splits)
  next
    case (Some t)
    then show ?thesis by (simp add: add_value_obj_eq values_add_eq)
  qed
qed

lemma add_value_interns:
  "\<exists>i t. fst (add_value v s) = i \<and> store_id (values_store s) < i \<and>
     store_id (values_store (snd (add_value v s))) = i \<and>
     store_map (values_store (snd (add_value v s))) i =
       Some \<lparr>v_id = i, v_value = py_repr v, v_type_id = t\<rparr> \<and>
     (\<forall>j \<le> store_id (values_store s).
        store_map (values_store (snd (add_value v s))) j = store_map (values_store s) j) \<and>
     dep_heap (snd (add_value v s)) = dep_heap s"
proof -
  obtain i s' where a: "add_value v s = (i, s')" by (cases "add_value v s")
  from add_value_grows[OF a] add_value_heap[of v s] a show ?thesis by auto
qed

lemma find_value_id_match:
  assumes "\<not> py_immutable v \<or> length (dependencies d) = 1"
    and "find_dep s v (dependencies d) = Some r"
  shows "find_value_id v (Some d) create s =
     (let s1 = upd_dep r (\<lambda>dep. dep\<lparr>dep_mode := bind_mode (dep_mode dep)\<rparr>) s
      in if create \<and> \<not> truthy (dep_value_id (get_dep s r))
         then (Some (fst (add_value v s1)), snd (add_value v s1))
         else (dep_value_id (get_dep s r), s1))"
  using assms by (auto simp: find_value_id_def Let_def split: prod.splits)

lemma find_value_id_no_match:
  assumes "(py_immutable v \<and> length (dependencies d) \<noteq> 1) \<or> find_dep s v (dependencies d) = None"
  shows "find_value_id v (Some d) create s =
     (if create then (Some (fst (add_value v s)), snd (add_value v s)) else (None, s))"
  using assms by (auto simp: find_value_id_def Let_def truthy_def split: prod.splits)


text \<open>
  Claim C4, as amended. The loop of \<open>find_value_id\<close> runs if the object is mutable or
  the scope holds exactly one dependency, and stops at the first dependency of the scope
  whose value is the given object. The mode of that dependency, and of no other, is
  rewritten: a mode that starts with \<open>dependency\<close> becomes \<open>assign\<close>, any other mode
  that does not end in \<open>-bind\<close> gains the suffix, and a mode that ends in \<open>-bind\<close>
  stays. Its value id is the result if it is truthy (neither \<open>None\<close> nor 0) or creation
  is disabled; if it is falsy and creation is enabled, a fresh Value is interned after the
  rewrite and its identifier is the result. For an immutable object and a scope that does
  not hold exactly one dependency, and whenever no dependency matches, no mode is rewritten:
  with creation disabled the result is \<open>None\<close> and the state is unchanged, with creation
  enabled a fresh Value is interned. Interning a fresh Value adds a record with the
  \<open>repr\<close> of the object under an identifier beyond the last one handed out and keeps the
  records stored before.
\<close>

theorem find_value_id_bind_rule:
  "(find_dep s v (dependencies d) = Some r \<longrightarrow>
      (\<exists>pre post. dependencies d = pre @ r # post \<and> py_is (dep_value (get_dep s r)) v \<and>
         (\<forall>q \<in> set pre. \<not> py_is (dep_value (get_dep s q)) v))) \<and>
   (find_dep s v (dependencies d) = None \<longleftrightarrow>
      (\<forall>q \<in> set (dependencies d). \<not> py_is (dep_value (get_dep s q)) v)) \<and>
   ((\<not> py_immutable v \<or> length (dependencies d) = 1) \<and>
    find_dep s v (dependencies d) = Some r \<and>
    (truthy (dep_value_id (get_dep s r)) \<or> \<not> create) \<longrightarrow>
      find_value_id v (Some d) create s =
        (dep_value_id (get_dep s r),
         upd_dep r (\<lambda>dep. dep\<lparr>dep_mode := bind_mode (dep_mode dep)\<rparr>) s)) \<and>
   ((\<not> py_immutable v \<or> length (dependencies d) = 1) \<and>
    find_dep s v (dependencies d) = Some r \<and> \<not> truthy (dep_value_id (get_dep s r)) \<longrightarrow>
      find_value_id v (Some d) True s =
        (Some (fst (add_value v
                 (upd_dep r (\<lambda>dep. dep\<lparr>dep_mode := bind_mode (dep_mode dep)\<rparr>) s))),
         snd (add_value v
                 (upd_dep r (\<lambda>dep. dep\<lparr>dep_mode := bind_mode (dep_mode dep)\<rparr>) s))) \<and>
      (\<exists>i t. fst (find_value_id v (Some d) True s) = Some i \<and>
         store_id (values_store s) < i \<and>
         store_map (values_store (snd (find_value_id v (Some d) True s))) i =
           Some \<lparr>v_id = i, v_value = py_repr v, v_type_id = t\<rparr> \<and>
         (\<forall>j \<le> store_id (values_store s).
            store_map (values_store (snd (find_value_id v (Some d) True s))) j =
              store_map (values_store s) j) \<and>
         dep_heap (snd (find_value_id v (Some d) True s)) =
           dep_heap (upd_dep r (\<lambda>dep. dep\<lparr>dep_mode := bind_mode (dep_mode dep)\<rparr>) s))) \<and>
   (r < length (dep_heap s) \<longrightarrow>
      get_dep (upd_dep r (\<lambda>dep. dep\<lparr>dep_mode := bind_mode (dep_mode dep)\<rparr>) s) r =
        (get_dep s r)\<lparr>dep_mode := bind_mode (dep_mode (get_dep s r))\<rparr>) \<and>
   (q \<noteq> r \<longrightarrow>
      get_dep (upd_dep r (\<lambda>dep. dep\<lparr>dep_mode := bind_mode (dep_mode dep)\<rparr>) s) q = get_dep s q) \<and>
   (startswith m ''dependency'' \<longrightarrow> bind_mode m = ''assign'') \<and>
   (\<not> startswith m ''dependency'' \<and> \<not> endswith m ''-bind'' \<longrightarrow> bind_mode m = m @ ''-bind'') \<and>
   (\<not> startswith m ''dependency'' \<and> endswith m ''-bind'' \<longrightarrow> bind_mode m = m) \<and>
   ((py_immutable v \<and> length (dependencies d) \<noteq> 1) \<or> find_dep s v (dependencies d) = None \<longrightarrow>
      find_value_id v (Some d) False s = (None, s) \<and>
      find_value_id v (Some d) True s = (Some (fst (add_value v s)), snd (add_value v s)) \<and>
      (\<exists>i t. fst (find_value_id v (Some d) True s) = Some i \<and>
         store_id (values_store s) < i \<and>
         store_map (values_store (snd (find_value_id v (Some d) True s))) i =
           Some \<lparr>v_id = i, v_value = py_repr v, v_type_id = t\<rparr> \<and>
         (\<forall>j \<le> store_id (values_store s).
            store_map (values_store (snd (find_value_id v (Some d) True s))) j =
              store_map (values_store s) j) \<and>
         dep_heap (snd (find_value_id v (Some d) True s)) = dep_heap s))"
proof (intro conjI)
  let ?s1 = "upd_dep r (\<lambda>dep. dep\<lparr>dep_mode := bind_mode (dep_mode dep)\<rparr>) s"
  show "find_dep s v (dependencies d) = Some r \<longrightarrow>
      (\<exists>pre post. dependencies d = pre @ r # post \<and> py_is (dep_value (get_dep s r)) v \<and>
         (\<forall>q \<in> set pre. \<not> py_is (dep_value (get_dep s q)) v))"
    using find_dep_Some by blast
  show "find_dep s v (dependencies d) = None \<longleftrightarrow>
      (\<forall>q \<in> set (dependencies d). \<not> py_is (dep_value (get_dep s q)) v)"
    by (rule find_dep_None)
  show "(\<not> py_immutable v \<or> length (dependencies d) = 1) \<and>
    find_dep s v (dependencies d) = Some r \<and>
    (truthy (dep_value_id (get_dep s r)) \<or> \<not> create) \<longrightarrow>
      find_value_id v (Some d) create s = (dep_value_id (get_dep s r), ?s1)"
    using find_value_id_match[of v d s r create] by (auto simp: Let_def)
  show "(\<not> py_immutable v \<or> length (dependencies d) = 1) \<and>
    find_dep s v (dependencies d) = Some r \<and> \<not> truthy (dep_value_id (get_dep s r)) \<longrightarrow>
      find_value_id v (Some d) True s = (Some (fst (add_value v ?s1)), snd (add_value v ?s1)) \<and>
      (\<exists>i t. fst (find_value_id v (Some d) True s) = Some i \<and>
         store_id (values_store s) < i \<and>
         store_map (values_store (snd (find_value_id v (Some d) True s))) i =
           Some \<lparr>v_id = i, v_value = py_repr v, v_type_id = t\<rparr> \<and>
         (\<forall>j \<le> store_id (values_store s).
            store_map (values_store (snd (find_value_id v (Some d) True s))) j =
              store_map (values_store s) j) \<and>
         dep_heap (snd (find_value_id v (Some d) True s)) = dep_heap ?s1)"
  proof (intro impI, elim conjE)
    assume el: "\<not> py_immutable v \<or> length (dependencies d) = 1"
      and f: "find_dep s v (dependencies d) = Some r"
      and nt: "\<not> truthy (dep_value_id (get_dep s r))"
    have eq: "find_value_id v (Some d) True s =
        (Some (fst (add_value v ?s1)), snd (add_value v ?s1))"
      using find_value_id_match[OF el f, of True] nt by (simp add: Let_def)
    have vs: "values_store ?s1 = values_store s" by (simp add: upd_dep_def)
    from add_value_interns[of v ?s1] show "find_value_id v (Some d) True s =
        (Some (fst (add_value v ?s1)), snd (add_value v ?s1)) \<and>
      (\<exists>i t. fst (find_value_id v (Some d) True s) = Some i \<and>
         store_id (values_store s) < i \<and>
         store_map (values_store (snd (find_value_id v (Some d) True s))) i =
           Some \<lparr>v_id = i, v_value = py_repr v, v_type_id = t\<rparr> \<and>
         (\<forall>j \<le> store_id (values_store s).
            store_map (values_store (snd (find_value_id v (Some d) True s))) j =
              store_map (values_store s) j) \<and>
         dep_heap (snd (find_value_id v (Some d) True s)) = dep_heap ?s1)"
      unfolding eq vs by simp
  qed
  show "r < length (dep_heap s) \<longrightarrow>
      get_dep ?s1 r = (get_dep s r)\<lparr>dep_mode := bind_mode (dep_mode (get_dep s r))\<rparr>"
    by (simp add: get_upd_dep)
  show "q \<noteq> r \<longrightarrow> get_dep ?s1 q = get_dep s q"
    by (simp add: get_upd_dep)
  show "startswith m ''dependency'' \<longrightarrow> bind_mode m = ''assign''"
    by (simp add: bind_mode_def)
  show "\<not> startswith m ''dependency'' \<and> \<not> endswith m ''-bind'' \<longrightarrow> bind_mode m = m @ ''-bind''"
    by (simp add: bind_mode_def)
  show "\<not> startswith m ''dependency'' \<and> endswith m ''-bind'' \<longrightarrow> bind_mode m = m"
    by (simp add: bind_mode_def)
  show "(py_immutable v \<and> length (dependencies d) \<noteq> 1) \<or> find_dep s v (dependencies d) = None \<longrightarrow>
      find_value_id v (Some d) False s = (None, s) \<and>
      find_value_id v (Some d) True s = (Some (fst (add_value v s)), snd (add_value v s)) \<and>
      (\<exists>i t. fst (find_value_id v (Some d) True s) = Some i \<and>
         store_id (values_store s) < i \<and>
         store_map (values_store (snd (find_value_id v (Some d) True s))) i =
           Some \<lparr>v_id = i, v_value = py_repr v, v_type_id = t\<rparr> \<and>
         (\<forall>j \<le> store_id (values_store s).
            store_map (values_store (snd (find_value_id v (Some d) True s))) j =
              store_map (values_store s) j) \<and>
         dep_heap (snd (find_value_id v (Some d) True s)) = dep_heap s)"
  proof
    assume no: "(py_immutable v \<and> length (dependencies d) \<noteq> 1) \<or>
      find_dep s v (dependencies d) = None"
    have eqF: "find_value_id v (Some d) False s = (None, s)"
      using find_value_id_no_match[OF no, of False] by simp
    have eqT: "find_value_id v (Some d) True s = (Some (fst (add_value v s)), snd (add_value v s))"
      using find_value_id_no_match[OF no, of True] by simp
    from add_value_interns[of v s] eqF show "find_value_id v (Some d) False s = (None, s) \<and>
      find_value_id v (Some d) True s = (Some (fst (add_value v s)), snd (add_value v s)) \<and>
      (\<exists>i t. fst (find_value_id v (Some d) True s) = Some i \<and>
         store_id (values_store s) < i \<and>
         store_map (values_store (snd (find_value_id v (Some d) True s))) i =
           Some \<lparr>v_id = i, v_value = py_repr v, v_type_id = t\<rparr> \<and>
         (\<forall>j \<le> store_id (values_store s).
            store_map (values_store (snd (find_value_id v (Some d) True s))) j =
              store_map (values_store s) j) \<and>
         dep_heap (snd (find_value_id v (Some d) True s)) = dep_heap s)"
      unfolding eqT by simp
  qed
qed

text \<open>
  Claim C4 as stated fails: in a scope whose only dependency holds the given list and has
  no value id, the dependency matches and its mode is rewritten, but the result is not
  its value id: \<open>find_value_id\<close> interns a fresh Value and returns the identifier 3.
\<close>

theorem find_value_id_bind_rule_counterexample:
  "find_dep unbound_state (list_obj 8 ''[]'' []) [0] = Some 0 \<and>
   py_is (dep_value (get_dep unbound_state 0)) (list_obj 8 ''[]'' []) \<and>
   dep_value_id (get_dep unbound_state 0) = None \<and>
   store_map (values_store unbound_state) 3 = None \<and>
   find_value_id (list_obj 8 ''[]'' []) (Some (DependencyAware\<lparr>dependencies := [0]\<rparr>)) True
       unbound_state =
     (Some 3,
      unbound_state
        \<lparr>values_store :=
           \<lparr>store_id = 3,
            store_map = [1 \<mapsto> \<lparr>v_id = 1, v_value = ''<class type>'', v_type_id = 1\<rparr>,
                         2 \<mapsto> \<lparr>v_id = 2, v_value = ''<class list>'', v_type_id = 1\<rparr>,
                         3 \<mapsto> \<lparr>v_id = 3, v_value = ''[]'', v_type_id = 2\<rparr>]\<rparr>,
         shared_types := [TypeIdent \<mapsto> 1, ObjIdent 3 \<mapsto> 2],
         dep_heap := [Dependency (-1) 1 (list_obj 8 ''[]'' []) None ''assign'']\<rparr>)"
  by (simp add: unbound_state_def find_value_id_def get_dep_def upd_dep_def Dependency_def
        py_is_def truthy_def bind_mode_def startswith_def DependencyAware_def run_simps)

text \<open>
  Witness for C4 as amended: a scope whose second dependency holds the given list object
  with the mode \<open>dependency\<close> and the value id 5; an immutable integer against the same
  scope of two dependencies; and the scope whose only dependency has no value id, with
  creation disabled and enabled.
\<close>

theorem find_value_id_bind_rule_witness:
  "find_dep bind_state (list_obj 8 ''[]'' []) [1, 0] = Some 0 \<and>
   find_value_id (list_obj 8 ''[]'' []) (Some (DependencyAware\<lparr>dependencies := [1, 0]\<rparr>)) True
       bind_state =
     (Some 5,
      bind_state\<lparr>dep_heap :=
          [Dependency (-1) 1 (list_obj 8 ''[]'' []) (Some 5) ''assign'',
           Dependency (-1) 2 (int_obj 7 ''5'') (Some 6) ''argument'']\<rparr>) \<and>
   bind_mode ''argument'' = ''argument-bind'' \<and>
   bind_mode ''argument-bind'' = ''argument-bind'' \<and>
   find_value_id (int_obj 7 ''5'') (Some (DependencyAware\<lparr>dependencies := [1, 0]\<rparr>)) True
       bind_state =
     (Some 3, snd (add_value (int_obj 7 ''5'') bind_state)) \<and>
   store_map (values_store (snd (add_value (int_obj 7 ''5'') bind_state))) 3 =
     Some \<lparr>v_id = 3, v_value = ''5'', v_type_id = 2\<rparr> \<and>
   find_value_id (list_obj 8 ''[]'' []) (Some (DependencyAware\<lparr>dependencies := [0]\<rparr>)) False
       unbound_state =
     (None, unbound_state\<lparr>dep_heap := [Dependency (-1) 1 (list_obj 8 ''[]'' []) None ''assign'']\<rparr>) \<and>
   fst (find_value_id (list_obj 8 ''[]'' []) (Some (DependencyAware\<lparr>dependencies := [0]\<rparr>)) True
       unbound_state) = Some 3"
proof -
  let ?d = "DependencyAware\<lparr>dependencies := [1, 0]\<rparr>"
  let ?e = "DependencyAware\<lparr>dependencies := [0]\<rparr>"
  let ?l = "list_obj 8 ''[]'' []"
  have d: "dependencies ?d = [1, 0]" "dependencies ?e = [0]"
    by (simp_all add: DependencyAware_def)
  have f: "find_dep bind_state ?l [1, 0] = Some 0"
    by (simp add: bind_state_def get_dep_def Dependency_def py_is_def list_obj_def int_obj_def)
  have fu: "find_dep unbound_state ?l [0] = Some 0"
    by (simp add: unbound_state_def get_dep_def Dependency_def py_is_def list_obj_def)
  have t: "truthy (dep_value_id (get_dep bind_state 0))"
    by (simp add: bind_state_def get_dep_def Dependency_def truthy_def)
  have nt: "\<not> truthy (dep_value_id (get_dep unbound_state 0))"
    by (simp add: unbound_state_def get_dep_def Dependency_def truthy_def)
  have m: "\<not> py_immutable ?l" by (simp add: list_obj_def)
  have i: "py_immutable (int_obj 7 ''5'')" by (simp add: int_obj_def)
  have a: "fst (add_value (int_obj 7 ''5'') bind_state) = 3"
    "store_map (values_store (snd (add_value (int_obj 7 ''5'') bind_state))) 3 =
       Some \<lparr>v_id = 3, v_value = ''5'', v_type_id = 2\<rparr>"
    by (simp_all add: bind_state_def run_simps)
  have au: "fst (add_value ?l
              (upd_dep 0 (\<lambda>dep. dep\<lparr>dep_mode := bind_mode (dep_mode dep)\<rparr>) unbound_state)) = 3"
    by (simp add: unbound_state_def upd_dep_def run_simps)
  note th = find_value_id_bind_rule[of bind_state _ ?d 0]
  note tu = find_value_id_bind_rule[of unbound_state ?l ?e 0]
  have 1: "find_value_id ?l (Some ?d) True bind_state =
      (dep_value_id (get_dep bind_state 0),
       upd_dep 0 (\<lambda>dep. dep\<lparr>dep_mode := bind_mode (dep_mode dep)\<rparr>) bind_state)"
    using th[of ?l True] f t m d by simp
  have 2: "find_value_id (int_obj 7 ''5'') (Some ?d) True bind_state =
      (Some (fst (add_value (int_obj 7 ''5'') bind_state)),
       snd (add_value (int_obj 7 ''5'') bind_state))"
    using th[of "int_obj 7 ''5''"] i d by simp
  have 3: "bind_mode ''argument'' = ''argument-bind''" "bind_mode ''argument-bind'' = ''argument-bind''"
     "bind_mode ''dependency'' = ''assign''"
    by (simp_all add: bind_mode_def startswith_def endswith_def)
  have 4: "find_value_id ?l (Some ?e) False unbound_state =
      (dep_value_id (get_dep unbound_state 0),
       upd_dep 0 (\<lambda>dep. dep\<lparr>dep_mode := bind_mode (dep_mode dep)\<rparr>) unbound_state)"
    using tu[of False] fu m d by simp
  have 5: "find_value_id ?l (Some ?e) True unbound_state =
      (Some (fst (add_value ?l
                (upd_dep 0 (\<lambda>dep. dep\<lparr>dep_mode := bind_mode (dep_mode dep)\<rparr>) unbound_state))),
       snd (add_value ?l
                (upd_dep 0 (\<lambda>dep. dep\<lparr>dep_mode := bind_mode (dep_mode dep)\<rparr>) unbound_state)))"
    using tu[of True] fu nt m d by simp
  have 6: "fst (find_value_id ?l (Some ?e) True unbound_state) = Some 3"
    unfolding 5 using au by simp
  have 7: "find_value_id ?l (Some ?e) False unbound_state =
     (None, unbound_state\<lparr>dep_heap := [Dependency (-1) 1 ?l None ''assign'']\<rparr>)"
    unfolding 4 using 3
    by (simp add: unbound_state_def get_dep_def upd_dep_def Dependency_def)
  have 8: "find_value_id ?l (Some ?d) True bind_state =
     (Some 5,
      bind_state\<lparr>dep_heap :=
          [Dependency (-1) 1 ?l (Some 5) ''assign'',
           Dependency (-1) 2 (int_obj 7 ''5'') (Some 6) ''argument'']\<rparr>)"
    unfolding 1 using 3
    by (simp add: bind_state_def get_dep_def upd_dep_def Dependency_def)
  have 9: "find_value_id (int_obj 7 ''5'') (Some ?d) True bind_state =
     (Some 3, snd (add_value (int_obj 7 ''5'') bind_state))"
    unfolding 2 using a by simp
  show ?thesis using f 8 3 9 a(2) 7 6 by blast
qed

subsection \<open>What the hooks leave of the activations\<close>

text \<open>
  Interning, the bind rule, the creation of records and the clock do not touch the
  activation objects.
\<close>

lemma act_values_add [simp]: "activation_part (snd (values_add r t s)) = activation_part s"
  by (simp add: values_add_eq activation_part_def)

lemma act_add_value [simp]: "activation_part (snd (add_value v s)) = activation_part s"
proof (induction v arbitrary: s)
  case PyTypeType
  then show ?case by (simp add: add_value_type_eq activation_part_def)
next
  case (PyObj a c r im it xs)
  show ?case
  proof (cases "shared_types s (py_id c)")
    case None
    have "activation_part (snd (add_value c s)) = activation_part s" by (rule PyObj.IH(1))
    then show ?thesis using None
      by (auto simp: add_value_obj_eq values_add_eq activation_part_def split: prod.splits)
  next
    case (Some t)
    then show ?thesis by (simp add: add_value_obj_eq)
  qed
qed

lemma act_time [simp]: "activation_part (snd (time s)) = activation_part s"
  by (simp add: time_def activation_part_def)

lemma act_upd_dep [simp]: "activation_part (upd_dep r f s) = activation_part s"
  by (simp add: upd_dep_def activation_part_def)

lemma act_new_dependency [simp]: "activation_part (snd (new_dependency d s)) = activation_part s"
  by (simp add: new_dependency_def activation_part_def)

lemma act_dependencies_add [simp]:
  "activation_part (dependencies_add a e da de m s) = activation_part s"
  by (simp add: dependencies_add_def activation_part_def)

lemma act_evaluations_add_object [simp]:
  "activation_part (snd (evaluations_add_object c a m v s)) = activation_part s"
  by (simp add: evaluations_add_object_def activation_part_def store_add_object_def Let_def)

lemma act_compartments_add_object [simp]:
  "activation_part (compartments_add_object n m w p s) = activation_part s"
  by (simp add: compartments_add_object_def activation_part_def)

lemma act_add_compartments [simp]:
  "activation_part (add_compartments w its s) = activation_part s"
  by (induction w its s rule: add_compartments.induct) simp_all

lemma act_find_value_id [simp]:
  "activation_part (snd (find_value_id v depa create s)) = activation_part s"
proof -
  define inner where "inner =
        (case depa of
           None \<Rightarrow> (None, s)
         | Some d \<Rightarrow>
             if \<not> py_immutable v \<or> length (dependencies d) = 1 then
               (case find_dep s v (dependencies d) of
                  None \<Rightarrow> (None, s)
                | Some r \<Rightarrow>
                    (dep_value_id (get_dep s r),
                     upd_dep r (\<lambda>dep. dep\<lparr>dep_mode := bind_mode (dep_mode dep)\<rparr>) s))
             else (None, s))"
  have 1: "activation_part (snd inner) = activation_part s"
    unfolding inner_def by (simp split: option.splits)
  have "find_value_id v depa create s =
          (if create \<and> \<not> truthy (fst inner)
           then (Some (fst (add_value v (snd inner))), snd (add_value v (snd inner)))
           else inner)"
    unfolding find_value_id_def inner_def by (simp add: Let_def split: prod.splits)
  then show ?thesis using 1 by simp
qed

lemma act_create_dependencies_loop [simp]:
  "activation_part (create_dependencies_loop ev rs s) = activation_part s"
  by (induction rs arbitrary: s) simp_all

lemma act_create_dependencies [simp]:
  "activation_part (create_dependencies ev depa s) = activation_part s"
  by (simp add: create_dependencies_def split: option.splits)

lemma act_evaluate [simp]:
  "activation_part (snd (evaluate aid c v m depa s)) = activation_part s"
proof -
  obtain t s1 where 1: "(case m of None \<Rightarrow> time s | Some t \<Rightarrow> (t, s)) = (t, s1)"
    by (cases "case m of None \<Rightarrow> time s | Some t \<Rightarrow> (t, s)")
  then have a1: "activation_part s1 = activation_part s"
    by (cases m) (use act_time[of s] in auto)
  obtain vid s2 where 2: "find_value_id v depa True s1 = (vid, s2)"
    by (cases "find_value_id v depa True s1")
  then have a2: "activation_part s2 = activation_part s1"
    using act_find_value_id[of v depa True s1] by simp
  obtain ev s3 where 3: "evaluations_add_object c aid (Some t) vid s2 = (ev, s3)"
    by (cases "evaluations_add_object c aid (Some t) vid s2")
  then have a3: "activation_part s3 = activation_part s2"
    using act_evaluations_add_object[of c aid "Some t" vid s2] by simp
  show ?thesis using 1 2 3 a1 a2 a3 by (simp add: evaluate_def)
qed

subsection \<open>The size of the scope stack\<close>

lemma bind_err_Inr: "bind_err m f = Inr y \<Longrightarrow> \<exists>x. m = Inr x \<and> f x = Inr y"
  by (cases m) (simp_all add: bind_err_def)

lemma get_activation_part:
  "activation_part s' = activation_part s \<Longrightarrow> get_activation s' r = get_activation s r"
  by (simp add: activation_part_def get_activation_def split: act_ref.splits)

lemma stack_size_part:
  "activation_part s' = activation_part s \<Longrightarrow> stack_size s' r = stack_size s r"
  using get_activation_part[of s' s r] by (simp add: stack_size_def)

lemma last_activation_part:
  "activation_part s' = activation_part s \<Longrightarrow> last_activation s' = last_activation s"
  by (simp add: activation_part_def)

lemma get_put_activation:
  "get_activation (put_activation r a s) r' = (if r' = r then Some a else get_activation s r')"
  by (auto simp: get_activation_def put_activation_def split: act_ref.splits)

lemma last_put_activation [simp]: "last_activation (put_activation r a s) = last_activation s"
  by (simp add: put_activation_def split: act_ref.splits)

lemma append_scope_size:
  "append_scope r d s = Inr s1 \<Longrightarrow>
   stack_size s1 r = Suc (stack_size s r) \<and> last_activation s1 = last_activation s \<and>
   (\<exists>a. get_activation s r = Some a \<and>
        map_option a_dependencies (get_activation s1 r) = Some (a_dependencies a @ [d]))"
  by (auto simp: append_scope_def stack_size_def get_put_activation split: option.splits)

lemma pop_scope_size:
  "pop_scope r s = Inr (d, s1) \<Longrightarrow>
   Suc (stack_size s1 r) = stack_size s r \<and> last_activation s1 = last_activation s"
  by (auto simp: pop_scope_def stack_size_def get_put_activation split: option.splits if_splits)

lemma upd_top_size:
  "upd_top r f s = Inr s1 \<Longrightarrow>
   stack_size s1 r' = stack_size s r' \<and> last_activation s1 = last_activation s"
  by (auto simp: upd_top_def stack_size_def get_put_activation bind_err_def
           split: option.splits if_splits sum.splits)

lemma top_add_size:
  "top_add r dref s = Inr s1 \<Longrightarrow>
   stack_size s1 r' = stack_size s r' \<and> last_activation s1 = last_activation s"
  unfolding top_add_def by (rule upd_top_size)

lemma top_items_append_size:
  "top_items_append r entry s = Inr s1 \<Longrightarrow>
   stack_size s1 r' = stack_size s r' \<and> last_activation s1 = last_activation s"
  unfolding top_items_append_def by (rule upd_top_size)

lemma top_set_key_size:
  "top_set_key r v s = Inr s1 \<Longrightarrow>
   stack_size s1 r' = stack_size s r' \<and> last_activation s1 = last_activation s"
  unfolding top_set_key_def by (rule upd_top_size)


lemma bind_err_InrE:
  assumes "bind_err m f = Inr y"
  obtains x where "m = Inr x" and "f x = Inr y"
  using assms by (cases m) (simp_all add: bind_err_def)

lemma stack_size_steps [simp]:
  "stack_size (snd (add_value v s)) r = stack_size s r"
  "stack_size (snd (time s)) r = stack_size s r"
  "stack_size (upd_dep q f s) r = stack_size s r"
  "stack_size (snd (new_dependency d s)) r = stack_size s r"
  "stack_size (dependencies_add a e da de m s) r = stack_size s r"
  "stack_size (snd (evaluations_add_object c a mo vi s)) r = stack_size s r"
  "stack_size (add_compartments wh its s) r = stack_size s r"
  "stack_size (snd (find_value_id v depa create s)) r = stack_size s r"
  "stack_size (create_dependencies ev depa s) r = stack_size s r"
  "stack_size (snd (evaluate a c v mom depa s)) r = stack_size s r"
  by (rule stack_size_part, simp)+

lemma last_activation_steps [simp]:
  "last_activation (snd (add_value v s)) = last_activation s"
  "last_activation (snd (time s)) = last_activation s"
  "last_activation (upd_dep q f s) = last_activation s"
  "last_activation (snd (new_dependency d s)) = last_activation s"
  "last_activation (dependencies_add a e da de m s) = last_activation s"
  "last_activation (snd (evaluations_add_object c a mo vi s)) = last_activation s"
  "last_activation (add_compartments wh its s) = last_activation s"
  "last_activation (snd (find_value_id v depa create s)) = last_activation s"
  "last_activation (create_dependencies ev depa s) = last_activation s"
  "last_activation (snd (evaluate a c v mom depa s)) = last_activation s"
  by (rule last_activation_part, simp)+

lemma pop_scope_size':
  "pop_scope r s = Inr x \<Longrightarrow>
   Suc (stack_size (snd x) r) = stack_size s r \<and> last_activation (snd x) = last_activation s"
  by (cases x) (simp add: pop_scope_size)


lemma before_size:
  assumes "h \<in> set [operation, container, dict_hook, dict_key, dict_value, list_hook,
                     tuple_hook, set_hook, item, assign_value, func, argument, function_def,
                     return_hook]"
    and "h activation s = Inr (cb, s1)"
  shows "stack_size s1 activation = Suc (stack_size s activation)"
proof -
  from assms obtain d where "append_scope activation d s = Inr s1"
    by (auto simp: operation_def container_def dict_hook_def dict_key_def dict_value_def
          list_hook_def tuple_hook_def set_hook_def item_def assign_value_def argument_def
          return_hook_def func_def function_def_def elim!: bind_err_InrE)
  then show ?thesis by (simp add: append_scope_size)
qed

lemma after_operation_size:
  assumes "after_operation activation code_id v mode s = Inr (w, s')"
  shows "Suc (stack_size s' activation) = stack_size s activation \<and> w = v"
  using assms unfolding after_operation_def split_def Let_def
  by (elim bind_err_InrE) (auto dest!: pop_scope_size' top_add_size[where r' = activation])


lemma put_same_stack:
  "get_activation s r = Some a \<Longrightarrow> a_dependencies a' = a_dependencies a \<Longrightarrow>
   stack_size (put_activation r a' s) r' = stack_size s r'"
  by (simp add: stack_size_def get_put_activation)

lemma new_dependency_pair:
  "new_dependency d s = (r, s1) \<Longrightarrow>
   stack_size s1 q = stack_size s q \<and> last_activation s1 = last_activation s"
  using stack_size_steps(4)[of d s q] last_activation_steps(4)[of d s] by simp

lemma after_dict_size:
  assumes "after_dict activation code_id v mode s = Inr (w, s')"
  shows "Suc (stack_size s' activation) = stack_size s activation \<and> w = v"
  using assms unfolding after_dict_def split_def Let_def
  by (elim bind_err_InrE)
     (auto dest!: pop_scope_size' top_add_size[where r' = activation] elim!: bind_err_InrE
           split: option.splits)

lemma after_list_size:
  assumes "after_list activation code_id v mode s = Inr (w, s')"
  shows "Suc (stack_size s' activation) = stack_size s activation \<and> w = v"
  using assms unfolding after_list_def split_def Let_def
  by (elim bind_err_InrE)
     (auto dest!: pop_scope_size' top_add_size[where r' = activation] elim!: bind_err_InrE
           split: option.splits)

lemma after_container_size:
  assumes "after_container activation code_id v s = Inr (w, s')"
  shows "stack_size s' activation = stack_size s activation \<and> w = v"
  using assms unfolding after_container_def
  by (elim bind_err_InrE) (auto dest!: top_set_key_size[where r' = activation])

lemma after_dict_key_size:
  assumes "after_dict_key activation code_id v s = Inr (w, s')"
  shows "stack_size s' activation = stack_size s activation \<and> w = v"
  using assms unfolding after_dict_key_def
  by (elim bind_err_InrE) (auto dest!: top_set_key_size[where r' = activation])

lemma after_dict_value_size:
  assumes "after_dict_value activation code_id v s = Inr (w, s')"
  shows "Suc (Suc (stack_size s' activation)) = stack_size s activation \<and> w = v"
  using assms unfolding after_dict_value_def split_def Let_def
  by (elim bind_err_InrE)
     (auto dest!: pop_scope_size' top_add_size[where r' = activation]
             top_items_append_size[where r' = activation]
           elim!: bind_err_InrE split: option.splits)

lemma after_item_size:
  assumes "after_item activation code_id v key_arg s = Inr (w, s')"
  shows "Suc (stack_size s' activation) = stack_size s activation \<and> w = v"
  using assms unfolding after_item_def split_def Let_def
  by (elim bind_err_InrE)
     (auto dest!: pop_scope_size' top_add_size[where r' = activation]
             new_dependency_pair[where q = activation]
             top_items_append_size[where r' = activation]
           elim!: bind_err_InrE split: option.splits if_splits)

lemma after_assign_value_size:
  assumes "after_assign_value activation v s = Inr (w, s')"
  shows "Suc (stack_size s' activation) = stack_size s activation \<and> w = v"
  using assms unfolding after_assign_value_def split_def Let_def
  by (elim bind_err_InrE)
     (auto dest!: pop_scope_size' simp: put_same_stack split: option.splits)

lemma after_argument_size:
  assumes "after_argument activation code_id v mode_arg arg kind_arg s = Inr (w, s')"
  shows "Suc (stack_size s' activation) = stack_size s activation \<and> w = v"
  using assms unfolding after_argument_def split_def Let_def
  by (elim bind_err_InrE)
     (auto dest!: pop_scope_size' top_add_size[where r' = activation]
             new_dependency_pair[where q = activation]
           elim!: bind_err_InrE split: option.splits if_splits)

lemma after_return_size:
  assumes "after_return activation v s = Inr (w, s')"
  shows "Suc (stack_size s' activation) = stack_size s activation \<and> w = v"
  using assms unfolding after_return_def split_def Let_def
  by (elim bind_err_InrE)
     (auto dest!: pop_scope_size' split: option.splits)

lemma before_fresh:
  assumes "h \<in> set [operation, container, dict_hook, dict_key, dict_value, list_hook,
                     tuple_hook, set_hook, item, assign_value, func, argument, function_def,
                     return_hook]"
    and "h activation s = Inr (cb, s1)"
  shows "\<exists>a d. get_activation s activation = Some a \<and> dependencies d = [] \<and>
           map_option a_dependencies (get_activation s1 activation) = Some (a_dependencies a @ [d])"
proof -
  from assms obtain d where "append_scope activation d s = Inr s1" and "dependencies d = []"
    by (auto simp: operation_def container_def dict_hook_def dict_key_def dict_value_def
          list_hook_def tuple_hook_def set_hook_def item_def assign_value_def argument_def
          return_hook_def func_def function_def_def DependencyAware_def
          CompartmentDependencyAware_def CollectionDependencyAware_def elim!: bind_err_InrE)
  then show ?thesis using append_scope_size[of activation d s s1] by blast
qed

text \<open>
  \<open>_container\<close> and \<open>_dict_key\<close> change the state in the \<open>key\<close> slot of the top scope
  only; \<open>_function_def\<close> pops one scope; \<open>call\<close> starts the activation under the next
  identifier of the store, which then holds two scopes, and leaves the other stacks as
  they are; \<open>_func\<close> pops one scope of its activation.
\<close>

lemma upd_top_content:
  "upd_top r (\<lambda>d. Inr (g d)) s = Inr s1 \<Longrightarrow>
   \<exists>a. get_activation s r = Some a \<and> a_dependencies a \<noteq> [] \<and>
       s1 = put_activation r
              (a\<lparr>a_dependencies := butlast (a_dependencies a) @ [g (last (a_dependencies a))]\<rparr>) s"
  by (auto simp: upd_top_def bind_err_def split: option.splits if_splits)

lemma after_container_key:
  assumes "after_container activation code_id v s = Inr (w, s')"
  shows "\<exists>a. get_activation s activation = Some a \<and> a_dependencies a \<noteq> [] \<and>
       s' = put_activation activation
              (a\<lparr>a_dependencies :=
                   butlast (a_dependencies a) @ [(last (a_dependencies a))\<lparr>key := Some v\<rparr>]\<rparr>) s"
  using assms unfolding after_container_def top_set_key_def
  by (elim bind_err_InrE) (auto dest!: upd_top_content)

lemma after_dict_key_key:
  assumes "after_dict_key activation code_id v s = Inr (w, s')"
  shows "\<exists>a. get_activation s activation = Some a \<and> a_dependencies a \<noteq> [] \<and>
       s' = put_activation activation
              (a\<lparr>a_dependencies :=
                   butlast (a_dependencies a) @ [(last (a_dependencies a))\<lparr>key := Some v\<rparr>]\<rparr>) s"
  using assms unfolding after_dict_key_def top_set_key_def
  by (elim bind_err_InrE) (auto dest!: upd_top_content)

lemma after_function_def_size:
  assumes "after_function_def activation block_id args s = Inr (dec, s')"
  shows "Suc (stack_size s' activation) = stack_size s activation"
  using assms unfolding after_function_def_def split_def
  by (elim bind_err_InrE) (auto dest!: pop_scope_size')

lemma start_activation_size:
  assumes "start_activation nm c d act s = Inr (new, s1)"
  shows "new = Stored (store_id (activations_store s) + 1) \<and> last_activation s1 = new \<and>
         stack_size s1 new = 1 \<and> (\<forall>r. r \<noteq> new \<longrightarrow> stack_size s1 r = stack_size s r)"
  using assms unfolding start_activation_def split_def Let_def
  by (elim bind_err_InrE)
     (auto simp: stack_size_def get_activation_def store_add_object_def Let_def time_def
        evaluations_add_object_def split: act_ref.splits)

lemma awf_live:
  "activations_wf s \<Longrightarrow> get_activation s r = Some a \<Longrightarrow>
   r \<noteq> Stored (store_id (activations_store s) + 1)"
  by (auto simp: activations_wf_def get_activation_def)

lemma call_size:
  assumes "call activation code_id f fname mode s = Inr (cb, s')"
  shows "last_activation s' = Stored (store_id (activations_store s) + 1) \<and>
         stack_size s' (last_activation s') = 2 \<and>
         (\<forall>r. r \<noteq> Stored (store_id (activations_store s) + 1) \<longrightarrow>
              stack_size s' r = stack_size s r)"
proof -
  from assms obtain nm where nm: "fname = Some nm"
    by (cases fname) (simp_all add: call_def)
  from assms nm obtain act s1 s2 a where
    st: "start_activation nm code_id (- 1) activation s = Inr (act, s1)" and
    ap: "append_scope act DependencyAware s1 = Inr s2" and
    g: "get_activation s2 act = Some a" and
    s': "s' = put_activation act (a\<lparr>a_func := Some f, a_depedency_type := mode\<rparr>) s2"
    unfolding call_def
    by (auto elim!: bind_err_InrE split: option.splits)
  let ?n = "Stored (store_id (activations_store s) + 1)"
  from start_activation_size[OF st] have
    act: "act = ?n" and l1: "last_activation s1 = act" and z1: "stack_size s1 act = 1" and
    o1: "\<And>r. r \<noteq> act \<Longrightarrow> stack_size s1 r = stack_size s r"
    by blast+
  from append_scope_size[OF ap] have
    z2: "stack_size s2 act = Suc (stack_size s1 act)" and l2: "last_activation s2 = last_activation s1"
    by blast+
  have 3: "\<And>r. stack_size s' r = stack_size s2 r"
    unfolding s' using g by (simp add: put_same_stack)
  have 4: "\<And>r. r \<noteq> act \<Longrightarrow> stack_size s2 r = stack_size s1 r"
    using ap by (auto simp: append_scope_def stack_size_def get_put_activation split: option.splits)
  have 5: "last_activation s' = act" unfolding s' using l1 l2 by simp
  have 6: "stack_size s' (last_activation s') = 2" unfolding 5 3 z2 z1 by simp
  have 7: "\<forall>r. r \<noteq> ?n \<longrightarrow> stack_size s' r = stack_size s r"
    using 3 4 o1 act by simp
  show ?thesis using 5 6 7 act by blast
qed

lemma after_func_size:
  assumes wf: "activations_wf s"
    and run: "after_func activation code_id func_id f fname mode s = Inr (cb, s')"
  shows "Suc (stack_size s' activation) = stack_size s activation"
proof -
  from run obtain x y z where
    pop: "pop_scope activation s = Inr x" and
    mid: "(if length (dependencies (fst x)) = 1 then Inr (hd (dependencies (fst x)), snd x)
           else bind_err (act_id_of (snd x) activation) (\<lambda>aid.
                Inr (new_dependency
                       (Dependency aid
                          (e_id (fst (evaluate aid func_id f (Some (fst (time (snd x))))
                                        (Some (fst x)) (snd (time (snd x))))))
                          f
                          (e_value_id (fst (evaluate aid func_id f (Some (fst (time (snd x))))
                                        (Some (fst x)) (snd (time (snd x))))))
                          ''func'')
                       (snd (evaluate aid func_id f (Some (fst (time (snd x))))
                                        (Some (fst x)) (snd (time (snd x))))))))
          = Inr y" and
    cl: "call activation code_id f fname mode (snd y) = Inr z" and
    ad: "top_add (last_activation (snd z)) (fst y) (snd z) = Inr s'"
    unfolding after_func_def split_def Let_def
    by (elim bind_err_InrE) auto
  have p1: "activation_part (snd y) = activation_part (snd x)"
  proof (cases "length (dependencies (fst x)) = 1")
    case True
    with mid show ?thesis by auto
  next
    case False
    with mid obtain aid where
      "y = new_dependency
                       (Dependency aid
                          (e_id (fst (evaluate aid func_id f (Some (fst (time (snd x))))
                                        (Some (fst x)) (snd (time (snd x))))))
                          f
                          (e_value_id (fst (evaluate aid func_id f (Some (fst (time (snd x))))
                                        (Some (fst x)) (snd (time (snd x))))))
                          ''func'')
                       (snd (evaluate aid func_id f (Some (fst (time (snd x))))
                                        (Some (fst x)) (snd (time (snd x)))))"
      by (auto elim!: bind_err_InrE)
    then show ?thesis by simp
  qed
  obtain a where live: "get_activation s activation = Some a"
    using pop by (auto simp: pop_scope_def split: option.splits)
  have sid: "store_id (activations_store (snd x)) = store_id (activations_store s)"
    using pop by (auto simp: pop_scope_def put_activation_def split: option.splits if_splits act_ref.splits)
  have sid4: "store_id (activations_store (snd y)) = store_id (activations_store s)"
    using p1 sid by (simp add: activation_part_def)
  from awf_live[OF wf live] have ne: "activation \<noteq> Stored (store_id (activations_store (snd y)) + 1)"
    using sid4 by simp
  obtain cb' s5 where z: "z = (cb', s5)" by (cases z)
  have "stack_size s' activation = stack_size s5 activation"
    using top_add_size[OF ad] z by simp
  also have "\<dots> = stack_size (snd y) activation" using call_size[OF cl[unfolded z]] ne by simp
  also have "\<dots> = stack_size (snd x) activation" by (rule stack_size_part[OF p1])
  finally show ?thesis using pop_scope_size'[OF pop] by simp
qed


text \<open>
  \<open>activations_wf\<close> is an invariant: it holds in the initial state, and the hooks
  preserve it.
\<close>

lemma awf_part:
  "activation_part s' = activation_part s \<Longrightarrow> activations_wf s' = activations_wf s"
  by (simp add: activations_wf_def activation_part_def)

lemma awf_put:
  "get_activation s r = Some a \<Longrightarrow> activations_wf (put_activation r a' s) = activations_wf s"
  by (cases r) (auto simp: activations_wf_def get_activation_def put_activation_def)

lemma awf_steps [simp]:
  "activations_wf (snd (add_value v s)) = activations_wf s"
  "activations_wf (snd (time s)) = activations_wf s"
  "activations_wf (upd_dep q g s) = activations_wf s"
  "activations_wf (snd (new_dependency d s)) = activations_wf s"
  "activations_wf (dependencies_add a e da de m s) = activations_wf s"
  "activations_wf (snd (evaluations_add_object c a mo vi s)) = activations_wf s"
  "activations_wf (add_compartments wh its s) = activations_wf s"
  "activations_wf (snd (find_value_id v depa create s)) = activations_wf s"
  "activations_wf (create_dependencies ev depa s) = activations_wf s"
  "activations_wf (snd (evaluate a c v mom depa s)) = activations_wf s"
  by (rule awf_part, simp)+

lemma append_scope_wf:
  "append_scope r d s = Inr s1 \<Longrightarrow> activations_wf s1 = activations_wf s"
  by (auto simp: append_scope_def awf_put split: option.splits)

lemma pop_scope_wf:
  "pop_scope r s = Inr x \<Longrightarrow> activations_wf (snd x) = activations_wf s"
  by (auto simp: pop_scope_def awf_put split: option.splits if_splits)

lemma upd_top_wf:
  "upd_top r g s = Inr s1 \<Longrightarrow> activations_wf s1 = activations_wf s"
  by (auto simp: upd_top_def awf_put bind_err_def split: option.splits if_splits sum.splits)

lemma awf_init: "activations_wf (init_collector b)"
  by (simp add: activations_wf_def init_collector_def empty_store_def)

lemma before_wf:
  assumes "h \<in> set [operation, container, dict_hook, dict_key, dict_value, list_hook,
                     tuple_hook, set_hook, item, assign_value, func, argument, function_def,
                     return_hook]"
    and "h activation s = Inr (cb, s1)"
  shows "activations_wf s1 = activations_wf s"
proof -
  from assms obtain d where "append_scope activation d s = Inr s1"
    by (auto simp: operation_def container_def dict_hook_def dict_key_def dict_value_def
          list_hook_def tuple_hook_def set_hook_def item_def assign_value_def argument_def
          return_hook_def func_def function_def_def elim!: bind_err_InrE)
  then show ?thesis by (rule append_scope_wf)
qed

lemma start_activation_wf:
  assumes "activations_wf s" and "start_activation nm c d act s = Inr (new, s1)"
  shows "activations_wf s1"
  using assms unfolding start_activation_def split_def Let_def
  by (elim bind_err_InrE)
     (auto simp: activations_wf_def store_add_object_def Let_def time_def
        evaluations_add_object_def)

lemma call_wf:
  assumes "activations_wf s" and "call activation code_id f fname mode s = Inr (cb, s')"
  shows "activations_wf s'"
proof -
  from assms(2) obtain nm where nm: "fname = Some nm"
    by (cases fname) (simp_all add: call_def)
  from assms(2) nm obtain act s1 s2 a where
    st: "start_activation nm code_id (- 1) activation s = Inr (act, s1)" and
    ap: "append_scope act DependencyAware s1 = Inr s2" and
    g: "get_activation s2 act = Some a" and
    s': "s' = put_activation act (a\<lparr>a_func := Some f, a_depedency_type := mode\<rparr>) s2"
    unfolding call_def
    by (auto elim!: bind_err_InrE split: option.splits)
  show ?thesis unfolding s' awf_put[OF g] append_scope_wf[OF ap]
    by (rule start_activation_wf[OF assms(1) st])
qed


lemma top_add_wf: "top_add r dref s = Inr s1 \<Longrightarrow> activations_wf s1 = activations_wf s"
  unfolding top_add_def by (rule upd_top_wf)

lemma top_items_append_wf:
  "top_items_append r entry s = Inr s1 \<Longrightarrow> activations_wf s1 = activations_wf s"
  unfolding top_items_append_def by (rule upd_top_wf)

lemma top_set_key_wf: "top_set_key r v s = Inr s1 \<Longrightarrow> activations_wf s1 = activations_wf s"
  unfolding top_set_key_def by (rule upd_top_wf)

lemma new_dependency_wf:
  "new_dependency d s = (r, s1) \<Longrightarrow> activations_wf s1 = activations_wf s"
  using awf_steps(4)[of d s] by simp

lemma after_wf:
  "after_operation activation code_id v mode s = Inr (w, s') \<Longrightarrow>
     activations_wf s' = activations_wf s"
  "after_dict activation code_id v mode s = Inr (w, s') \<Longrightarrow>
     activations_wf s' = activations_wf s"
  "after_list activation code_id v mode s = Inr (w, s') \<Longrightarrow>
     activations_wf s' = activations_wf s"
  "after_container activation code_id v s = Inr (w, s') \<Longrightarrow>
     activations_wf s' = activations_wf s"
  "after_dict_key activation code_id v s = Inr (w, s') \<Longrightarrow>
     activations_wf s' = activations_wf s"
  "after_dict_value activation code_id v s = Inr (w, s') \<Longrightarrow>
     activations_wf s' = activations_wf s"
  "after_item activation code_id v key_arg s = Inr (w, s') \<Longrightarrow>
     activations_wf s' = activations_wf s"
  "after_assign_value activation v s = Inr (w, s') \<Longrightarrow>
     activations_wf s' = activations_wf s"
  "after_argument activation code_id v mode arg kind s = Inr (w, s') \<Longrightarrow>
     activations_wf s' = activations_wf s"
  "after_return activation v s = Inr (w, s') \<Longrightarrow>
     activations_wf s' = activations_wf s"
  "after_function_def activation block_id args s = Inr (dec, s') \<Longrightarrow>
     activations_wf s' = activations_wf s"
  unfolding after_operation_def after_dict_def after_list_def after_container_def
    after_dict_key_def after_dict_value_def after_item_def after_assign_value_def
    after_argument_def after_return_def after_function_def_def split_def Let_def
  by (elim bind_err_InrE,
      auto dest!: pop_scope_wf top_add_wf top_items_append_wf top_set_key_wf new_dependency_wf
           simp: awf_put elim!: bind_err_InrE split: option.splits if_splits)+

lemma after_func_wf:
  assumes wf: "activations_wf s"
    and run: "after_func activation code_id func_id f fname mode s = Inr (cb, s')"
  shows "activations_wf s'"
proof -
  from run obtain x y z where
    pop: "pop_scope activation s = Inr x" and
    mid: "(if length (dependencies (fst x)) = 1 then Inr (hd (dependencies (fst x)), snd x)
           else bind_err (act_id_of (snd x) activation) (\<lambda>aid.
                Inr (new_dependency
                       (Dependency aid
                          (e_id (fst (evaluate aid func_id f (Some (fst (time (snd x))))
                                        (Some (fst x)) (snd (time (snd x))))))
                          f
                          (e_value_id (fst (evaluate aid func_id f (Some (fst (time (snd x))))
                                        (Some (fst x)) (snd (time (snd x))))))
                          ''func'')
                       (snd (evaluate aid func_id f (Some (fst (time (snd x))))
                                        (Some (fst x)) (snd (time (snd x))))))))
          = Inr y" and
    cl: "call activation code_id f fname mode (snd y) = Inr z" and
    ad: "top_add (last_activation (snd z)) (fst y) (snd z) = Inr s'"
    unfolding after_func_def split_def Let_def
    by (elim bind_err_InrE) auto
  have p1: "activations_wf (snd y) = activations_wf (snd x)"
  proof (cases "length (dependencies (fst x)) = 1")
    case True
    with mid show ?thesis by auto
  next
    case False
    with mid obtain aid where
      "y = new_dependency
                       (Dependency aid
                          (e_id (fst (evaluate aid func_id f (Some (fst (time (snd x))))
                                        (Some (fst x)) (snd (time (snd x))))))
                          f
                          (e_value_id (fst (evaluate aid func_id f (Some (fst (time (snd x))))
                                        (Some (fst x)) (snd (time (snd x))))))
                          ''func'')
                       (snd (evaluate aid func_id f (Some (fst (time (snd x))))
                                        (Some (fst x)) (snd (time (snd x)))))"
      by (auto elim!: bind_err_InrE)
    then show ?thesis by simp
  qed
  obtain cb' s5 where z: "z = (cb', s5)" by (cases z)
  have "activations_wf (snd y)" using p1 pop_scope_wf[OF pop] wf by simp
  from call_wf[OF this cl[unfolded z]] have "activations_wf s5" .
  then show ?thesis using top_add_wf[OF ad] z by simp
qed

text \<open>
  Claim C3, as amended. Each of the before-hooks \<open>operation\<close>, \<open>container\<close>, \<open>dict\<close>,
  \<open>dict_key\<close>, \<open>dict_value\<close>, \<open>list\<close>, \<open>tuple\<close>, \<open>set\<close>, \<open>item\<close>,
  \<open>assign_value\<close>, \<open>func\<close>, \<open>argument\<close>, \<open>function_def\<close> and \<open>return_\<close> pushes
  exactly one scope without dependencies onto the stack of its activation. The after-forms
  \<open>_operation\<close>, \<open>_dict\<close>, \<open>_list\<close>, \<open>_item\<close>, \<open>_assign_value\<close>, \<open>_func\<close>,
  \<open>_argument\<close>, \<open>_function_def\<close> and \<open>_return\<close> pop exactly one scope from it, so
  that each of these pairs leaves the stack as long as it found it; for \<open>_func\<close>, which
  starts the activation of the call, this is stated for the states in which the activations
  store holds nothing beyond the last identifier it has handed out. \<open>_container\<close> and
  \<open>_dict_key\<close> pop nothing: they store the value in the \<open>key\<close> slot of the top scope,
  which stays on the stack, and change nothing else. \<open>_dict_value\<close> pops two scopes, its
  own and the one that \<open>dict_key\<close> pushed, so that the sequence \<open>dict_key\<close>,
  \<open>_dict_key\<close>, \<open>dict_value\<close>, \<open>_dict_value\<close> leaves the stack as long as it found
  it.
\<close>

theorem scope_stack_hooks:
  "(h \<in> set [operation, container, dict_hook, dict_key, dict_value, list_hook,
              tuple_hook, set_hook, item, assign_value, func, argument, function_def,
              return_hook] \<and>
    h activation s = Inr (cb, s1) \<longrightarrow>
      stack_size s1 activation = Suc (stack_size s activation) \<and>
      (\<exists>a d. get_activation s activation = Some a \<and> dependencies d = [] \<and>
         map_option a_dependencies (get_activation s1 activation) =
           Some (a_dependencies a @ [d]))) \<and>
   (after_operation activation code_id v mode s = Inr (w, s') \<longrightarrow>
      Suc (stack_size s' activation) = stack_size s activation) \<and>
   (after_dict activation code_id v mode s = Inr (w, s') \<longrightarrow>
      Suc (stack_size s' activation) = stack_size s activation) \<and>
   (after_list activation code_id v mode s = Inr (w, s') \<longrightarrow>
      Suc (stack_size s' activation) = stack_size s activation) \<and>
   (after_item activation code_id v key_arg s = Inr (w, s') \<longrightarrow>
      Suc (stack_size s' activation) = stack_size s activation) \<and>
   (after_assign_value activation v s = Inr (w, s') \<longrightarrow>
      Suc (stack_size s' activation) = stack_size s activation) \<and>
   (after_argument activation code_id v mode arg kind s = Inr (w, s') \<longrightarrow>
      Suc (stack_size s' activation) = stack_size s activation) \<and>
   (after_return activation v s = Inr (w, s') \<longrightarrow>
      Suc (stack_size s' activation) = stack_size s activation) \<and>
   (activations_wf s \<and>
    after_func activation code_id func_id v func_name mode s = Inr (cb', s') \<longrightarrow>
      Suc (stack_size s' activation) = stack_size s activation) \<and>
   (after_function_def activation block_id arguments s = Inr (dec, s') \<longrightarrow>
      Suc (stack_size s' activation) = stack_size s activation) \<and>
   (after_container activation code_id v s = Inr (w, s') \<longrightarrow>
      stack_size s' activation = stack_size s activation \<and>
      (\<exists>a. get_activation s activation = Some a \<and> a_dependencies a \<noteq> [] \<and>
         s' = put_activation activation
                (a\<lparr>a_dependencies :=
                     butlast (a_dependencies a) @
                     [(last (a_dependencies a))\<lparr>key := Some v\<rparr>]\<rparr>) s)) \<and>
   (after_dict_key activation code_id v s = Inr (w, s') \<longrightarrow>
      stack_size s' activation = stack_size s activation \<and>
      (\<exists>a. get_activation s activation = Some a \<and> a_dependencies a \<noteq> [] \<and>
         s' = put_activation activation
                (a\<lparr>a_dependencies :=
                     butlast (a_dependencies a) @
                     [(last (a_dependencies a))\<lparr>key := Some v\<rparr>]\<rparr>) s)) \<and>
   (after_dict_value activation code_id v s = Inr (w, s') \<longrightarrow>
      Suc (Suc (stack_size s' activation)) = stack_size s activation)"
  using before_size[of h activation s cb s1] before_fresh[of h activation s cb s1]
    after_operation_size[of activation code_id v mode s w s']
    after_dict_size[of activation code_id v mode s w s']
    after_list_size[of activation code_id v mode s w s']
    after_item_size[of activation code_id v key_arg s w s']
    after_assign_value_size[of activation v s w s']
    after_argument_size[of activation code_id v mode arg kind s w s']
    after_return_size[of activation v s w s']
    after_func_size[of s activation code_id func_id v func_name mode cb' s']
    after_function_def_size[of activation block_id arguments s dec s']
    after_container_size[of activation code_id v s w s']
    after_container_key[of activation code_id v s w s']
    after_dict_key_size[of activation code_id v s w s']
    after_dict_key_key[of activation code_id v s w s']
    after_dict_value_size[of activation code_id v s w s']
  by blast


text \<open>The equations that evaluate the hooks.\<close>

lemmas hook_simps = operation_def after_operation_def container_def after_container_def
  dict_key_def after_dict_key_def dict_value_def after_dict_value_def evaluate_def
  find_value_id_def create_dependencies_def time_def evaluations_add_object_def
  store_add_object_def new_dependency_def Dependency_def truthy_def stack_size_def

lemmas func_simps = func_def after_func_def call_def start_activation_def function_def_def
  after_function_def_def len_builtin_def

text \<open>
  Claim C3 as stated fails for the pairs it names: on the root activation of the initial
  state, whose stack holds one scope, \<open>container\<close> followed by \<open>_container\<close> leaves
  two scopes, and so does \<open>dict_key\<close> followed by \<open>_dict_key\<close>.
\<close>

theorem scope_stack_counterexample:
  "stack_size s0 FirstActivation = 1 \<and>
   map_sum id (\<lambda>(w, s2). stack_size s2 FirstActivation)
     (bind_err (container FirstActivation s0)
        (\<lambda>(cb, s1). after_container FirstActivation 1 (int_obj 7 ''5'') s1)) = Inr 2 \<and>
   map_sum id (\<lambda>(w, s2). stack_size s2 FirstActivation)
     (bind_err (dict_key FirstActivation s0)
        (\<lambda>(cb, s1). after_dict_key FirstActivation 1 (int_obj 7 ''5'') s1)) = Inr 2"
  by (simp add: hook_simps stack_simps run_simps)

text \<open>
  Witness for C3 as amended, on the root activation of the initial state, whose stack
  holds one scope: \<open>operation\<close> followed by \<open>_operation\<close> leaves one scope; a dict
  literal with one entry, up to the end of \<open>_dict_value\<close>, leaves the scope of \<open>dict\<close>
  above the initial one; \<open>container\<close> followed by \<open>_container\<close> leaves the compartment
  scope with the value in its \<open>key\<close> slot; \<open>func\<close> followed by \<open>_func\<close> leaves one
  scope and starts the activation 1 with two scopes; \<open>function_def\<close> followed by
  \<open>_function_def\<close> leaves one scope.
\<close>

theorem scope_stack_hooks_witness:
  "stack_size s0 FirstActivation = 1 \<and>
   map_sum id (\<lambda>(cb, s1). stack_size s1 FirstActivation) (operation FirstActivation s0) = Inr 2 \<and>
   map_sum id (\<lambda>(w, s2). stack_size s2 FirstActivation)
     (bind_err (operation FirstActivation s0)
        (\<lambda>(cb, s1). after_operation FirstActivation 1 (int_obj 7 ''5'') ''dependency'' s1)) = Inr 1 \<and>
   map_sum id (\<lambda>(w, s4). stack_size s4 FirstActivation)
     (bind_err (dict_hook FirstActivation s0) (\<lambda>(cb, s1).
      bind_err (dict_key FirstActivation s1) (\<lambda>(cb, s2).
      bind_err (after_dict_key FirstActivation 1 (int_obj 7 ''5'') s2) (\<lambda>(w, s3).
      bind_err (dict_value FirstActivation s3) (\<lambda>(cb, s4).
      after_dict_value FirstActivation 2 (int_obj 9 ''6'') s4))))) = Inr 2 \<and>
   map_sum id (\<lambda>(w, s2). map_option a_dependencies (get_activation s2 FirstActivation))
     (bind_err (container FirstActivation s0)
        (\<lambda>(cb, s1). after_container FirstActivation 1 (int_obj 7 ''5'') s1)) =
     Inr (Some [DependencyAware, CompartmentDependencyAware\<lparr>key := Some (int_obj 7 ''5'')\<rparr>]) \<and>
   activations_wf s0 \<and>
   map_sum id (\<lambda>(cb, s2). (cb, stack_size s2 FirstActivation, last_activation s2,
                            stack_size s2 (Stored 1)))
     (bind_err (func FirstActivation s0)
        (\<lambda>(cb, s1). after_func FirstActivation 5 6 len_builtin (Some ''len'') ''dependency'' s1)) =
     Inr (U_call, 1, Stored 1, 2) \<and>
   map_sum id (\<lambda>(dec, s2). stack_size s2 FirstActivation)
     (bind_err (function_def FirstActivation s0)
        (\<lambda>(cb, s1). after_function_def FirstActivation 3 () s1)) = Inr 1"
proof -
  have size0: "stack_size s0 FirstActivation = 1"
    by (simp add: stack_size_def stack_simps run_simps)
  obtain cb s1 where op: "operation FirstActivation s0 = Inr (cb, s1)"
    by (simp add: operation_def stack_simps run_simps)
  have "stack_size s1 FirstActivation = Suc (stack_size s0 FirstActivation)"
    using scope_stack_hooks[where h = operation and activation = FirstActivation and s = s0
        and cb = cb and ?s1.0 = s1, THEN conjunct1] op by simp
  then have size1: "map_sum id (\<lambda>(cb, s1). stack_size s1 FirstActivation)
      (operation FirstActivation s0) = Inr 2"
    using op size0 by simp
  have size2: "map_sum id (\<lambda>(w, s2). stack_size s2 FirstActivation)
     (bind_err (operation FirstActivation s0)
        (\<lambda>(cb, s1). after_operation FirstActivation 1 (int_obj 7 ''5'') ''dependency'' s1)) = Inr 1"
    by (simp add: hook_simps func_simps stack_simps run_simps)
  have size3: "map_sum id (\<lambda>(w, s4). stack_size s4 FirstActivation)
     (bind_err (dict_hook FirstActivation s0) (\<lambda>(cb, s1).
      bind_err (dict_key FirstActivation s1) (\<lambda>(cb, s2).
      bind_err (after_dict_key FirstActivation 1 (int_obj 7 ''5'') s2) (\<lambda>(w, s3).
      bind_err (dict_value FirstActivation s3) (\<lambda>(cb, s4).
      after_dict_value FirstActivation 2 (int_obj 9 ''6'') s4))))) = Inr 2"
    by (simp add: hook_simps func_simps dict_hook_def stack_simps run_simps)
  have key: "map_sum id (\<lambda>(w, s2). map_option a_dependencies (get_activation s2 FirstActivation))
     (bind_err (container FirstActivation s0)
        (\<lambda>(cb, s1). after_container FirstActivation 1 (int_obj 7 ''5'') s1)) =
     Inr (Some [DependencyAware, CompartmentDependencyAware\<lparr>key := Some (int_obj 7 ''5'')\<rparr>])"
    by (simp add: hook_simps func_simps stack_simps run_simps)
  have wf0: "activations_wf s0"
    by (simp add: activations_wf_def run_simps)
  obtain cf sf where fu: "func FirstActivation s0 = Inr (cf, sf)"
    by (simp add: func_def stack_simps run_simps)
  have sizef: "stack_size sf FirstActivation = 2"
    using scope_stack_hooks[where h = func and activation = FirstActivation and s = s0
        and cb = cf and ?s1.0 = sf, THEN conjunct1] fu size0 by simp
  have wff: "activations_wf sf"
    using before_wf[of func FirstActivation s0 cf sf] fu wf0 by simp
  have run: "map_sum id (\<lambda>(cb, s2). (cb, stack_size s2 FirstActivation, last_activation s2,
                            stack_size s2 (Stored 1)))
     (bind_err (func FirstActivation s0)
        (\<lambda>(cb, s1). after_func FirstActivation 5 6 len_builtin (Some ''len'') ''dependency'' s1)) =
     Inr (U_call, 1, Stored 1, 2)"
    by (simp add: hook_simps func_simps stack_simps run_simps)
  then obtain ca sa where af:
    "after_func FirstActivation 5 6 len_builtin (Some ''len'') ''dependency'' sf = Inr (ca, sa)"
    using fu by (cases "after_func FirstActivation 5 6 len_builtin (Some ''len'') ''dependency'' sf")
      (auto simp: bind_err_def)
  have "Suc (stack_size sa FirstActivation) = stack_size sf FirstActivation"
    using scope_stack_hooks[where s = sf and activation = FirstActivation and s' = sa
        and cb' = ca and code_id = 5 and func_id = 6 and v = len_builtin
        and func_name = "Some ''len''" and mode = "''dependency''",
        THEN conjunct2, THEN conjunct2, THEN conjunct2, THEN conjunct2, THEN conjunct2,
        THEN conjunct2, THEN conjunct2, THEN conjunct2, THEN conjunct1]
      wff af by simp
  then have sizea: "stack_size sa FirstActivation = 1" using sizef by simp
  have fd: "map_sum id (\<lambda>(dec, s2). stack_size s2 FirstActivation)
     (bind_err (function_def FirstActivation s0)
        (\<lambda>(cb, s1). after_function_def FirstActivation 3 () s1)) = Inr 1"
    by (simp add: hook_simps func_simps stack_simps run_simps)
  show ?thesis using size0 size1 size2 size3 key wf0 run fd sizea by blast
qed

subsection \<open>The assignment engine\<close>

text \<open>The equations that evaluate \<open>assign\<close> on the unpacking runs.\<close>

lemmas assign_simps = clone_def join_def evaluate_def find_value_id_def create_dependencies_def
  time_def evaluations_add_object_def store_add_object_def new_dependency_def Dependency_def
  truthy_def stack_simps run_simps rhs_state_def rhs_depa_def one_def two_def three_def
  list123_def pair12_def nested123_def py_tuple_def get_dep_def upd_dep_def py_is_def
  startswith_def endswith_def bind_mode_def dependencies_add_def list_get_def list_slice_def
  slice_bound_def py_len_def py_getitem_def py_getslice_def edges_def list23_def list3_def

text \<open>
  Claim C1 fails on the code where the starred target is the last sub-target. For
  \<open>a, *b = [1, 2, 3]\<close> the loops end with \<open>delta = 1\<close> and \<open>rdelta = -1\<close>, and the
  record that \<open>assign\<close> passes on for \<open>b\<close> holds the slice \<open>[1, 2, 3][1:0]\<close>, which is
  empty, together with the scopes of the indices 1 and 2; the slice of the claim,
  \<open>[1, 2, 3][1:3]\<close>, is \<open>[2, 3]\<close>. The empty slice shows in the graph where the
  starred target is itself a target list: for \<open>a, *(b, *c) = [1, 2, 3]\<close> the inner call
  computes the indices of \<open>c\<close> from the length of the empty slice, finds none, and the
  evaluation of \<open>c\<close> gets no dependency: the run leaves the two edges of \<open>a\<close> and \<open>b\<close>.
\<close>

theorem assign_starred_last:
  "assign_subcomps activation moment (Object list123) custom 1 1
       [Starred (Single 2 ''b'' list23) list23] s =
     bind_err (custom_dependencies custom [1, 2] s) (\<lambda>(depas, s2).
     bind_err (assign activation (moment, Slice [], Many depas) (Single 2 ''b'' list23) s2)
       (\<lambda>(w, s3). Inr ((), s3))) \<and>
   list_slice [one, two, three] 1 (3 + (- 1) + 1) = [two, three] \<and>
   map_sum id (\<lambda>(w, s). edges s)
     (assign FirstActivation (0, Object list123, One rhs_depa)
        (Multiple [Single 1 ''a'' one,
                   Starred (Multiple [Single 2 ''b'' two, Starred (Single 3 ''c'' list3) list3]
                              list23) list23] list123)
        (rhs_state list123)) =
     Inr [(- 1, 1, - 1, 1, ''dependency''), (- 1, 2, - 1, 1, ''dependency'')]"
proof (intro conjI)
  have up: "[1 .. 3 + (- 1 :: int)] = [1, 2]" by (simp add: upto.simps)
  have sl: "py_getslice (Object list123) 1 (- 1 + 1) = Inr (Slice [])"
    by (simp add: py_getslice_def list_slice_def slice_bound_def list123_def list_obj_def)
  have ln: "py_len (Object list123) = Inr 3"
    by (simp add: py_len_def list123_def list_obj_def)
  show "assign_subcomps activation moment (Object list123) custom 1 1
       [Starred (Single 2 ''b'' list23) list23] s =
     bind_err (custom_dependencies custom [1, 2] s) (\<lambda>(depas, s2).
     bind_err (assign activation (moment, Slice [], Many depas) (Single 2 ''b'' list23) s2)
       (\<lambda>(w, s3). Inr ((), s3)))"
    using up sl ln by (simp add: bind_err_def del: assign.simps)
  show "list_slice [one, two, three] 1 (3 + (- 1) + 1) = [two, three]"
    by (simp add: list_slice_def slice_bound_def)
  show "map_sum id (\<lambda>(w, s). edges s)
     (assign FirstActivation (0, Object list123, One rhs_depa)
        (Multiple [Single 1 ''a'' one,
                   Starred (Multiple [Single 2 ''b'' two, Starred (Single 3 ''c'' list3) list3]
                              list23) list23] list123)
        (rhs_state list123)) =
     Inr [(- 1, 1, - 1, 1, ''dependency''), (- 1, 2, - 1, 1, ''dependency'')]"
    by (simp add: assign_simps upto.simps eval_nat_numeral)
qed

text \<open>
  Claim C7 fails on the code. The branch of \<open>assign\<close> for a target list ends without a
  \<open>return\<close> statement, so the call for a nested target list returns \<open>None\<close>, and the
  loop of the enclosing call raises TypeError when it adds this result to \<open>delta\<close>:
  \<open>(a, b), c = ((1, 2), 3)\<close> ends in TypeError, while \<open>a, b = (1, 2)\<close> completes and
  returns \<open>None\<close>.
\<close>

theorem assign_nested_unpacking:
  "assign FirstActivation (0, Object nested123, One rhs_depa)
     (Multiple [Multiple [Single 1 ''a'' one, Single 2 ''b'' two] pair12, Single 3 ''c'' three]
        nested123)
     (rhs_state nested123) = Inl TypeError \<and>
   map_sum id fst
     (assign FirstActivation (0, Object pair12, One rhs_depa)
        (Multiple [Single 1 ''a'' one, Single 2 ''b'' two] pair12)
        (rhs_state pair12)) = Inr None"
  by (simp add: assign_simps)

subsection \<open>Calls\<close>

text \<open>What the steps of \<open>_call\<close> change of the state.\<close>

lemma add_value_shape:
  "\<exists>vs st. snd (add_value v s) = s\<lparr>values_store := vs, shared_types := st\<rparr>"
proof (induction v arbitrary: s)
  case PyTypeType
  show ?case by (simp add: add_value_type_eq) blast
next
  case (PyObj a c r im it xs)
  show ?case
  proof (cases "shared_types s (py_id c)")
    case (Some t)
    have "snd (add_value (PyObj a c r im it xs) s) =
            s\<lparr>values_store := values_store (snd (values_add r t s)), shared_types := shared_types s\<rparr>"
      using Some by (simp add: add_value_obj_eq values_add_eq)
    then show ?thesis by blast
  next
    case None
    from PyObj.IH(1)[of s] obtain vs st where
      c: "snd (add_value c s) = s\<lparr>values_store := vs, shared_types := st\<rparr>" by blast
    obtain t s1 where t: "add_value c s = (t, s1)" by (cases "add_value c s")
    with c have s1: "s1 = s\<lparr>values_store := vs, shared_types := st\<rparr>" by simp
    have "snd (add_value (PyObj a c r im it xs) s) =
            s\<lparr>values_store :=
                 \<lparr>store_id = store_id vs + 1,
                  store_map = (store_map vs)(store_id vs + 1 \<mapsto>
                     \<lparr>v_id = store_id vs + 1, v_value = r, v_type_id = t\<rparr>)\<rparr>,
              shared_types := st(py_id c \<mapsto> t)\<rparr>"
      using None t by (simp add: add_value_obj_eq values_add_eq s1)
    then show ?thesis by blast
  qed
qed

lemma add_value_keeps [simp]:
  "dependencies_store (snd (add_value v s)) = dependencies_store s"
  "dep_heap (snd (add_value v s)) = dep_heap s"
  "exceptions_store (snd (add_value v s)) = exceptions_store s"
  "evaluations_store (snd (add_value v s)) = evaluations_store s"
  "clock (snd (add_value v s)) = clock s"
proof -
  from add_value_shape[of v s] obtain vs st where
    "snd (add_value v s) = s\<lparr>values_store := vs, shared_types := st\<rparr>" by blast
  then show "dependencies_store (snd (add_value v s)) = dependencies_store s"
    "dep_heap (snd (add_value v s)) = dep_heap s"
    "exceptions_store (snd (add_value v s)) = exceptions_store s"
    "evaluations_store (snd (add_value v s)) = evaluations_store s"
    "clock (snd (add_value v s)) = clock s"
    by simp_all
qed

lemma get_dep_add_value [simp]: "get_dep (snd (add_value v s)) r = get_dep s r"
  by (simp add: get_dep_def)

text \<open>
  The bind rule leaves of a dependency everything but its mode, and leaves the mode
  on the same side of \<open>startswith "argument"\<close>.
\<close>

lemma argument_no_dash: "k < 8 \<Longrightarrow> ''argument'' ! k \<noteq> CHR ''-''"
proof -
  assume "k < 8"
  then have "k = 0 \<or> k = 1 \<or> k = 2 \<or> k = 3 \<or> k = 4 \<or> k = 5 \<or> k = 6 \<or> k = 7" by arith
  then show ?thesis by (elim disjE) (simp_all add: eval_nat_numeral)
qed

lemma startswith_iff: "startswith m p \<longleftrightarrow> (\<exists>q. m = p @ q)"
proof
  assume "startswith m p"
  then have "m = p @ drop (length p) m"
    unfolding startswith_def by (metis append_take_drop_id)
  then show "\<exists>q. m = p @ q" ..
next
  assume "\<exists>q. m = p @ q"
  then show "startswith m p" by (auto simp: startswith_def)
qed

lemma nth_prefix: "k < length p \<Longrightarrow> (p @ q) ! k = p ! k"
  by (simp add: nth_append)

lemma startswith_append:
  "length p \<le> length m \<Longrightarrow> startswith (m @ x) p = startswith m p"
  by (simp add: startswith_def)

lemma startswith_append_bind:
  "startswith (m @ ''-bind'') ''argument'' = startswith m ''argument''"
proof (cases "8 \<le> length m")
  case True
  then show ?thesis by (intro startswith_append) simp
next
  case False
  then have lt: "length m < 8" by simp
  have no: "\<not> startswith m ''argument''"
  proof
    assume "startswith m ''argument''"
    then obtain q where "m = ''argument'' @ q" unfolding startswith_iff ..
    then have "8 \<le> length m" by simp
    with lt show False by simp
  qed
  have "\<not> startswith (m @ ''-bind'') ''argument''"
  proof
    assume "startswith (m @ ''-bind'') ''argument''"
    then obtain q where eq: "m @ ''-bind'' = ''argument'' @ q" unfolding startswith_iff ..
    have "(m @ ''-bind'') ! length m = CHR ''-''" by (simp add: nth_append)
    moreover have "(''argument'' @ q) ! length m = ''argument'' ! length m"
      by (rule nth_prefix) (use lt in simp)
    ultimately have "''argument'' ! length m = CHR ''-''" using eq by simp
    with argument_no_dash[OF lt] show False by simp
  qed
  with no show ?thesis by simp
qed

lemma startswith_bind_mode:
  "startswith (bind_mode m) ''argument'' = startswith m ''argument''"
proof (cases "startswith m ''dependency''")
  case True
  then obtain q where "m = ''dependency'' @ q" unfolding startswith_iff ..
  then have "\<not> startswith m ''argument''" by (auto simp: startswith_iff)
  moreover have "\<not> startswith ''assign'' ''argument''" by (auto simp: startswith_iff)
  ultimately show ?thesis using True by (simp add: bind_mode_def)
next
  case False
  then show ?thesis by (simp add: bind_mode_def startswith_append_bind)
qed


lemma modes_rewritten_refl [simp]: "modes_rewritten h h"
  by (simp add: modes_rewritten_def)

lemma modes_rewritten_trans:
  "modes_rewritten h h' \<Longrightarrow> modes_rewritten h' h'' \<Longrightarrow> modes_rewritten h h''"
  unfolding modes_rewritten_def
proof (intro conjI allI)
  assume a: "length h' = length h \<and> (\<forall>r. h' ! r = (h ! r)\<lparr>dep_mode := dep_mode (h' ! r)\<rparr> \<and>
           startswith (dep_mode (h' ! r)) ''argument'' = startswith (dep_mode (h ! r)) ''argument'')"
    and b: "length h'' = length h' \<and> (\<forall>r. h'' ! r = (h' ! r)\<lparr>dep_mode := dep_mode (h'' ! r)\<rparr> \<and>
           startswith (dep_mode (h'' ! r)) ''argument'' = startswith (dep_mode (h' ! r)) ''argument'')"
  show "length h'' = length h" using a b by simp
  fix r
  have 1: "h' ! r = (h ! r)\<lparr>dep_mode := dep_mode (h' ! r)\<rparr>" using a by blast
  have 2: "h'' ! r = (h' ! r)\<lparr>dep_mode := dep_mode (h'' ! r)\<rparr>" using b by blast
  have "h'' ! r = ((h ! r)\<lparr>dep_mode := dep_mode (h' ! r)\<rparr>)\<lparr>dep_mode := dep_mode (h'' ! r)\<rparr>"
    using 1 2 by metis
  then show "h'' ! r = (h ! r)\<lparr>dep_mode := dep_mode (h'' ! r)\<rparr>" by simp
  show "startswith (dep_mode (h'' ! r)) ''argument'' = startswith (dep_mode (h ! r)) ''argument''"
    using a b by simp
qed

lemma modes_rewritten_bind:
  "modes_rewritten h (h[r := (h ! r)\<lparr>dep_mode := bind_mode (dep_mode (h ! r))\<rparr>])"
  unfolding modes_rewritten_def
proof (intro conjI allI)
  let ?h' = "h[r := (h ! r)\<lparr>dep_mode := bind_mode (dep_mode (h ! r))\<rparr>]"
  show "length ?h' = length h" by simp
  fix q
  consider "q = r \<and> r < length h" | "q \<noteq> r" | "q = r \<and> \<not> r < length h" by blast
  then have "?h' ! q = (h ! q)\<lparr>dep_mode := dep_mode (?h' ! q)\<rparr> \<and>
       startswith (dep_mode (?h' ! q)) ''argument'' = startswith (dep_mode (h ! q)) ''argument''"
    by cases (simp_all add: startswith_bind_mode list_update_beyond)
  then show "?h' ! q = (h ! q)\<lparr>dep_mode := dep_mode (?h' ! q)\<rparr>"
    and "startswith (dep_mode (?h' ! q)) ''argument'' = startswith (dep_mode (h ! q)) ''argument''"
    by blast+
qed

text \<open>\<open>find_value_id\<close> without creation changes the heap only, and only by the bind rule.\<close>

lemma find_value_id_False:
  "\<exists>h. snd (find_value_id v depa False s) = s\<lparr>dep_heap := h\<rparr> \<and>
       modes_rewritten (dep_heap s) h \<and>
       (truthy (fst (find_value_id v depa False s)) \<longrightarrow>
          (\<exists>d r. depa = Some d \<and> r \<in> set (dependencies d) \<and>
                 py_is (dep_value (get_dep s r)) v \<and>
                 dep_value_id (get_dep s r) = fst (find_value_id v depa False s)))"
proof (cases depa)
  case None
  have "snd (find_value_id v depa False s) = s\<lparr>dep_heap := dep_heap s\<rparr>"
    using None by (simp add: find_value_id_def)
  moreover have "\<not> truthy (fst (find_value_id v depa False s))"
    using None by (simp add: find_value_id_def truthy_def)
  ultimately show ?thesis using modes_rewritten_refl by blast
next
  case (Some d)
  show ?thesis
  proof (cases "(\<not> py_immutable v \<or> length (dependencies d) = 1) \<and>
                find_dep s v (dependencies d) \<noteq> None")
    case False
    then have "snd (find_value_id v depa False s) = s\<lparr>dep_heap := dep_heap s\<rparr>"
      and "\<not> truthy (fst (find_value_id v depa False s))"
      using Some by (auto simp: find_value_id_def truthy_def)
    then show ?thesis using modes_rewritten_refl by blast
  next
    case True
    then obtain r where r: "find_dep s v (dependencies d) = Some r" by auto
    from find_dep_Some[OF r] have mem: "r \<in> set (dependencies d)"
      and same: "py_is (dep_value (get_dep s r)) v" by auto
    have res: "find_value_id v depa False s =
        (dep_value_id (get_dep s r),
         upd_dep r (\<lambda>dep. dep\<lparr>dep_mode := bind_mode (dep_mode dep)\<rparr>) s)"
      using True r Some by (auto simp: find_value_id_def)
    let ?h = "(dep_heap s)[r := (dep_heap s ! r)\<lparr>dep_mode := bind_mode (dep_mode (dep_heap s ! r))\<rparr>]"
    have 1: "snd (find_value_id v depa False s) = s\<lparr>dep_heap := ?h\<rparr>"
      by (simp add: res upd_dep_def)
    have 2: "fst (find_value_id v depa False s) = dep_value_id (get_dep s r)"
      by (simp add: res)
    have 3: "modes_rewritten (dep_heap s) ?h" by (rule modes_rewritten_bind)
    have 4: "\<exists>d r. depa = Some d \<and> r \<in> set (dependencies d) \<and>
                 py_is (dep_value (get_dep s r)) v \<and>
                 dep_value_id (get_dep s r) = fst (find_value_id v depa False s)"
      using mem same Some 2 by auto
    show ?thesis using 1 3 4 by blast
  qed
qed

lemma modes_rewritten_fields:
  assumes "modes_rewritten h h'"
  shows "dep_value (h' ! r) = dep_value (h ! r)"
    and "dep_value_id (h' ! r) = dep_value_id (h ! r)"
    and "dep_activation_id (h' ! r) = dep_activation_id (h ! r)"
    and "dep_evaluation_id (h' ! r) = dep_evaluation_id (h ! r)"
    and "startswith (dep_mode (h' ! r)) ''argument'' = startswith (dep_mode (h ! r)) ''argument''"
proof -
  from assms have eq: "h' ! r = (h ! r)\<lparr>dep_mode := dep_mode (h' ! r)\<rparr>"
    and sw: "startswith (dep_mode (h' ! r)) ''argument'' = startswith (dep_mode (h ! r)) ''argument''"
    unfolding modes_rewritten_def by blast+
  show "dep_value (h' ! r) = dep_value (h ! r)" by (subst eq) simp
  show "dep_value_id (h' ! r) = dep_value_id (h ! r)" by (subst eq) simp
  show "dep_activation_id (h' ! r) = dep_activation_id (h ! r)" by (subst eq) simp
  show "dep_evaluation_id (h' ! r) = dep_evaluation_id (h ! r)" by (subst eq) simp
  show "startswith (dep_mode (h' ! r)) ''argument'' = startswith (dep_mode (h ! r)) ''argument''"
    by (rule sw)
qed

lemma find_in_scopes_shape:
  "\<exists>h. snd (find_in_scopes v ds vid0 s) = s\<lparr>dep_heap := h\<rparr> \<and>
       modes_rewritten (dep_heap s) h \<and>
       (truthy (fst (find_in_scopes v ds vid0 s)) \<longrightarrow>
          truthy vid0 \<and> ds = [] \<or>
          (\<exists>d r. d \<in> set ds \<and> r \<in> set (dependencies d) \<and>
                 py_is (dep_value (get_dep s r)) v \<and>
                 dep_value_id (get_dep s r) = fst (find_in_scopes v ds vid0 s)))"
proof (induction ds arbitrary: vid0 s)
  case Nil
  have "snd (find_in_scopes v [] vid0 s) = s\<lparr>dep_heap := dep_heap s\<rparr>" by simp
  then show ?case using modes_rewritten_refl by (intro exI[of _ "dep_heap s"]) simp
next
  case (Cons d ds)
  obtain vid s1 where f: "find_value_id v (Some d) False s = (vid, s1)"
    by (cases "find_value_id v (Some d) False s")
  from find_value_id_False[of v "Some d" s] f obtain h1 where
    s1: "s1 = s\<lparr>dep_heap := h1\<rparr>" and m1: "modes_rewritten (dep_heap s) h1"
    and t1: "truthy vid \<longrightarrow> (\<exists>r. r \<in> set (dependencies d) \<and>
                 py_is (dep_value (get_dep s r)) v \<and> dep_value_id (get_dep s r) = vid)"
    by auto
  show ?case
  proof (cases "truthy vid")
    case True
    then have res: "find_in_scopes v (d # ds) vid0 s = (vid, s1)" using f by simp
    from t1 True obtain r where "r \<in> set (dependencies d)"
      "py_is (dep_value (get_dep s r)) v" "dep_value_id (get_dep s r) = vid" by blast
    then have "\<exists>d' r. d' \<in> set (d # ds) \<and> r \<in> set (dependencies d') \<and>
                 py_is (dep_value (get_dep s r)) v \<and>
                 dep_value_id (get_dep s r) = fst (find_in_scopes v (d # ds) vid0 s)"
      using res by auto
    then show ?thesis using res s1 m1 by (intro exI[of _ h1]) simp
  next
    case False
    then have res: "find_in_scopes v (d # ds) vid0 s = find_in_scopes v ds vid s1"
      using f by simp
    from Cons.IH[of vid s1] obtain h2 where
      s2: "snd (find_in_scopes v ds vid s1) = s1\<lparr>dep_heap := h2\<rparr>"
      and m2: "modes_rewritten (dep_heap s1) h2"
      and t2: "truthy (fst (find_in_scopes v ds vid s1)) \<longrightarrow>
          truthy vid \<and> ds = [] \<or>
          (\<exists>d r. d \<in> set ds \<and> r \<in> set (dependencies d) \<and>
                 py_is (dep_value (get_dep s1 r)) v \<and>
                 dep_value_id (get_dep s1 r) = fst (find_in_scopes v ds vid s1))"
      by blast
    have m: "modes_rewritten (dep_heap s) h2"
      using m1 m2 s1 by (auto intro: modes_rewritten_trans)
    have g: "dep_value (get_dep s1 r) = dep_value (get_dep s r)"
      "dep_value_id (get_dep s1 r) = dep_value_id (get_dep s r)" for r
      using modes_rewritten_fields[OF m1] by (simp_all add: get_dep_def s1)
    have t: "truthy (fst (find_in_scopes v (d # ds) vid0 s)) \<longrightarrow>
          (\<exists>d' r. d' \<in> set (d # ds) \<and> r \<in> set (dependencies d') \<and>
                 py_is (dep_value (get_dep s r)) v \<and>
                 dep_value_id (get_dep s r) = fst (find_in_scopes v (d # ds) vid0 s))"
      using t2 False unfolding res g by auto
    have "snd (find_in_scopes v (d # ds) vid0 s) = s\<lparr>dep_heap := h2\<rparr>"
      using s2 s1 res by simp
    then show ?thesis using m t by (intro exI[of _ h2]) simp
  qed
qed

lemma call_value_id_shape:
  "\<exists>h vs st. snd (call_value_id v ds s) = s\<lparr>dep_heap := h, values_store := vs, shared_types := st\<rparr> \<and>
       modes_rewritten (dep_heap s) h \<and>
       ((\<exists>d r. d \<in> set ds \<and> r \<in> set (dependencies d) \<and>
                 py_is (dep_value (get_dep s r)) v \<and>
                 dep_value_id (get_dep s r) = Some (fst (call_value_id v ds s))) \<or>
        (store_id (values_store s) < fst (call_value_id v ds s) \<and>
         (\<exists>t. store_map vs (fst (call_value_id v ds s)) =
               Some \<lparr>v_id = fst (call_value_id v ds s), v_value = py_repr v, v_type_id = t\<rparr>)))"
proof -
  obtain vid s1 where f: "find_in_scopes v ds None s = (vid, s1)"
    by (cases "find_in_scopes v ds None s")
  from find_in_scopes_shape[of v ds None s] f obtain h where
    s1: "s1 = s\<lparr>dep_heap := h\<rparr>" and m: "modes_rewritten (dep_heap s) h"
    and t: "truthy vid \<longrightarrow> (\<exists>d r. d \<in> set ds \<and> r \<in> set (dependencies d) \<and>
                 py_is (dep_value (get_dep s r)) v \<and> dep_value_id (get_dep s r) = vid)"
    by (auto simp: truthy_def)
  show ?thesis
  proof (cases "truthy vid")
    case True
    then obtain i where i: "vid = Some i" "i \<noteq> 0" by (auto simp: truthy_def split: option.splits)
    then have res: "call_value_id v ds s = (i, s1)" using f by (simp add: call_value_id_def)
    have "s1 = s\<lparr>dep_heap := h, values_store := values_store s, shared_types := shared_types s\<rparr>"
      by (simp add: s1)
    then show ?thesis using res m t True i by (intro exI[of _ h] exI[of _ "values_store s"] exI[of _ "shared_types s"]) auto
  next
    case False
    then have res: "call_value_id v ds s = add_value v s1"
      using f by (auto simp: call_value_id_def truthy_def split: option.splits)
    obtain j s2 where a: "add_value v s1 = (j, s2)" by (cases "add_value v s1")
    from add_value_shape[of v s1] a obtain vs st where
      s2: "s2 = s1\<lparr>values_store := vs, shared_types := st\<rparr>" by auto
    from add_value_grows[OF a] have "store_id (values_store s1) < j"
      and "\<exists>t. store_map (values_store s2) j = Some \<lparr>v_id = j, v_value = py_repr v, v_type_id = t\<rparr>"
      by blast+
    then have "store_id (values_store s) < j"
      and "\<exists>t. store_map vs j = Some \<lparr>v_id = j, v_value = py_repr v, v_type_id = t\<rparr>"
      by (simp_all add: s1 s2)
    moreover have "s2 = s\<lparr>dep_heap := h, values_store := vs, shared_types := st\<rparr>"
      by (simp add: s1 s2)
    ultimately show ?thesis using res a m
      by (intro exI[of _ h] exI[of _ vs] exI[of _ st]) simp
  qed
qed

text \<open>Closing an activation.\<close>

lemma close_activation_Inr:
  assumes "get_activation s r = Some a"
  shows "\<exists>s'. close_activation r vid s = Inr s' \<and>
           dep_heap s' = dep_heap s \<and> dependencies_store s' = dependencies_store s \<and>
           exceptions_store s' = exceptions_store s \<and> values_store s' = values_store s \<and>
           get_activation s' r =
             Some (a\<lparr>a_evaluation :=
                      (a_evaluation a)\<lparr>e_moment := Some (clock s), e_value_id := Some vid\<rparr>\<rparr>) \<and>
           (store_map (evaluations_store s) (e_id (a_evaluation a)) \<noteq> None \<longrightarrow>
              store_map (evaluations_store s') (e_id (a_evaluation a)) =
                Some ((a_evaluation a)\<lparr>e_moment := Some (clock s), e_value_id := Some vid\<rparr>)) \<and>
           last_activation s' =
             (case store_map (activations_store s) (e_activation_id (a_evaluation a)) of
                None \<Rightarrow> FirstActivation
              | Some _ \<Rightarrow> Stored (e_activation_id (a_evaluation a)))"
proof (cases r)
  case FirstActivation
  with assms show ?thesis
    by (auto simp: close_activation_def time_def get_activation_def put_activation_def Let_def
             split: option.splits)
next
  case (Stored i)
  with assms show ?thesis
    by (auto simp: close_activation_def time_def get_activation_def put_activation_def Let_def
             split: option.splits)
qed

text \<open>The edges that the two loops over the first scope add to the dependencies store.\<close>

lemma dependencies_add_keeps [simp]:
  "dep_heap (dependencies_add a e da de m s) = dep_heap s"
  "get_dep (dependencies_add a e da de m s) r = get_dep s r"
  "exceptions_store (dependencies_add a e da de m s) = exceptions_store s"
  "values_store (dependencies_add a e da de m s) = values_store s"
  "evaluations_store (dependencies_add a e da de m s) = evaluations_store s"
  "edge_to ev (dependencies_add a e da de m s) r = edge_to ev s r"
  "argument_edge_to ev (dependencies_add a e da de m s) r = argument_edge_to ev s r"
  by (simp_all add: dependencies_add_def get_dep_def edge_to_def argument_edge_to_def)

lemma create_dependencies_loop_push:
  "create_dependencies_loop ev rs s = push_edges (map (edge_to ev s) rs) s"
proof (induction rs arbitrary: s)
  case Nil
  show ?case by simp
next
  case (Cons r rs)
  let ?s1 = "dependencies_add (e_activation_id ev) (e_id ev)
          (dep_activation_id (get_dep s r)) (dep_evaluation_id (get_dep s r))
          (dep_mode (get_dep s r)) s"
  have "map (edge_to ev ?s1) rs = map (edge_to ev s) rs" by simp
  then show ?case using Cons.IH[of ?s1] by (simp add: edge_to_def)
qed

lemma create_argument_dependencies_loop_push:
  "create_argument_dependencies_loop ev rs s =
     push_edges (map (argument_edge_to ev s)
                   (filter (\<lambda>r. startswith (dep_mode (get_dep s r)) ''argument'') rs)) s"
proof (induction rs arbitrary: s)
  case Nil
  show ?case by simp
next
  case (Cons r rs)
  let ?s1 = "dependencies_add (e_activation_id ev) (e_id ev)
               (dep_activation_id (get_dep s r)) (dep_evaluation_id (get_dep s r))
               ''dependency'' s"
  have 1: "map (argument_edge_to ev ?s1)
             (filter (\<lambda>r. startswith (dep_mode (get_dep ?s1 r)) ''argument'') rs) =
           map (argument_edge_to ev s)
             (filter (\<lambda>r. startswith (dep_mode (get_dep s r)) ''argument'') rs)"
    by simp
  show ?case
  proof (cases "startswith (dep_mode (get_dep s r)) ''argument''")
    case True
    then show ?thesis using Cons.IH[of ?s1] 1 by (simp add: argument_edge_to_def)
  next
    case False
    then show ?thesis using Cons.IH[of s] by simp
  qed
qed

lemma push_edges_append: "push_edges (es @ fs) s = push_edges fs (push_edges es s)"
  by (induction es s rule: push_edges.induct) simp_all

lemma push_edges_keeps [simp]:
  "dep_heap (push_edges es s) = dep_heap s"
  "exceptions_store (push_edges es s) = exceptions_store s"
  "values_store (push_edges es s) = values_store s"
  "evaluations_store (push_edges es s) = evaluations_store s"
  "activation_part (push_edges es s) = activation_part s"
  by (induction es s rule: push_edges.induct) simp_all

lemma added_upd_beyond:
  "base + int n < j \<Longrightarrow> added (m(j \<mapsto> x)) base n = added m base n"
  by (induction n) simp_all

lemma new_edges_same [simp]: "new_edges s s = []"
  by (simp add: new_edges_def)

lemma new_edges_add:
  assumes "store_id (dependencies_store sb) \<le> store_id (dependencies_store s)"
  shows "new_edges sb (dependencies_add a e da de m s) = new_edges sb s @ [(a, e, da, de, m)] \<and>
         store_id (dependencies_store sb) \<le> store_id (dependencies_store (dependencies_add a e da de m s))"
proof -
  let ?b = "store_id (dependencies_store sb)"
  let ?i = "store_id (dependencies_store s)"
  let ?n = "nat (?i - ?b)"
  have n: "nat (?i + 1 - ?b) = Suc ?n" and key: "?b + int (Suc ?n) = ?i + 1"
    and lt: "?b + int ?n < ?i + 1"
    using assms by simp_all
  let ?rec = "\<lparr>d_id = ?i + 1, d_dependent_activation_id = a, d_dependent_id = e,
                d_dependency_activation_id = da, d_dependency_id = de, d_mode = m\<rparr>"
  let ?m = "store_map (dependencies_store s)"
  have st: "dependencies_store (dependencies_add a e da de m s) =
              \<lparr>store_id = ?i + 1, store_map = ?m(?i + 1 \<mapsto> ?rec)\<rparr>"
    by (simp add: dependencies_add_def store_add_object_def Let_def)
  have "added (?m(?i + 1 \<mapsto> ?rec)) ?b (Suc ?n) = added (?m(?i + 1 \<mapsto> ?rec)) ?b ?n @ [?rec]"
    using key by simp
  also have "added (?m(?i + 1 \<mapsto> ?rec)) ?b ?n = added ?m ?b ?n"
    by (rule added_upd_beyond[OF lt])
  finally have "added (?m(?i + 1 \<mapsto> ?rec)) ?b (nat (?i + 1 - ?b)) = added ?m ?b ?n @ [?rec]"
    unfolding n .
  then show ?thesis using assms unfolding new_edges_def st by simp
qed

lemma new_edges_push:
  "store_id (dependencies_store sb) \<le> store_id (dependencies_store s) \<Longrightarrow>
   new_edges sb (push_edges es s) = new_edges sb s @ es \<and>
   store_id (dependencies_store sb) \<le> store_id (dependencies_store (push_edges es s))"
proof (induction es s rule: push_edges.induct)
  case (1 s)
  then show ?case by simp
next
  case (2 a e da de m es s)
  from new_edges_add[OF 2(2), of a e da de m] 2(1) show ?case by simp
qed

lemma new_edges_cong:
  "dependencies_store s' = dependencies_store s'' \<Longrightarrow> dependencies_store sb = dependencies_store s1
   \<Longrightarrow> new_edges sb s' = new_edges s1 s''"
  by (simp add: new_edges_def)

text \<open>The \<open>finally\<close> block of \<open>_call\<close> on an activation with a scope on its stack.\<close>

lemma get_dep_heap: "dep_heap s' = dep_heap s \<Longrightarrow> get_dep s' r = get_dep s r"
  by (simp add: get_dep_def)

lemma edge_to_heap: "dep_heap s' = dep_heap s \<Longrightarrow> edge_to ev s' r = edge_to ev s r"
  by (simp add: edge_to_def get_dep_def)

lemma call_finally_result:
  assumes act: "get_activation s2 r = Some a1" and stack: "a_dependencies a1 = depa # rest"
  shows "\<exists>vid s'.
      call_finally r ev result s2 = (None, s') \<and>
      ((\<exists>d q. d \<in> set (a_dependencies a1) \<and> q \<in> set (dependencies d) \<and>
              py_is (dep_value (get_dep s2 q)) result \<and>
              dep_value_id (get_dep s2 q) = Some vid) \<or>
       (store_id (values_store s2) < vid \<and>
        (\<exists>t. store_map (values_store s') vid =
              Some \<lparr>v_id = vid, v_value = py_repr result, v_type_id = t\<rparr>))) \<and>
      get_activation s' r =
        Some (a1\<lparr>a_evaluation :=
                 (a_evaluation a1)\<lparr>e_moment := Some (clock s2), e_value_id := Some vid\<rparr>\<rparr>) \<and>
      (store_map (evaluations_store s2) (e_id (a_evaluation a1)) \<noteq> None \<longrightarrow>
         store_map (evaluations_store s') (e_id (a_evaluation a1)) =
           Some ((a_evaluation a1)\<lparr>e_moment := Some (clock s2), e_value_id := Some vid\<rparr>)) \<and>
      last_activation s' =
        (case store_map (activations_store s2) (e_activation_id (a_evaluation a1)) of
           None \<Rightarrow> FirstActivation
         | Some _ \<Rightarrow> Stored (e_activation_id (a_evaluation a1))) \<and>
      exceptions_store s' = exceptions_store s2 \<and>
      dep_heap s' = dep_heap (snd (call_value_id result (a_dependencies a1) s2)) \<and>
      new_edges s2 s' =
        map (edge_to ev s') (dependencies depa) @
        (if a_code_block_id a1 = Some (- 1)
         then map (argument_edge_to ev s2)
                (filter (\<lambda>q. startswith (dep_mode (get_dep s2 q)) ''argument'')
                   (dependencies depa))
         else [])"
proof -
  obtain vid s3 where cv: "call_value_id result (a_dependencies a1) s2 = (vid, s3)"
    by (cases "call_value_id result (a_dependencies a1) s2")
  note sh = call_value_id_shape[of result "a_dependencies a1" s2, unfolded cv fst_conv snd_conv]
  from sh obtain h vs st where
    s3: "s3 = s2\<lparr>dep_heap := h, values_store := vs, shared_types := st\<rparr>"
    and m: "modes_rewritten (dep_heap s2) h"
    and how: "(\<exists>d q. d \<in> set (a_dependencies a1) \<and> q \<in> set (dependencies d) \<and>
              py_is (dep_value (get_dep s2 q)) result \<and>
              dep_value_id (get_dep s2 q) = Some vid) \<or>
       (store_id (values_store s2) < vid \<and>
        (\<exists>t. store_map vs vid = Some \<lparr>v_id = vid, v_value = py_repr result, v_type_id = t\<rparr>))"
    by blast
  have act3: "get_activation s3 r = Some a1"
    using act by (simp add: s3 get_activation_def split: act_ref.splits)
  from close_activation_Inr[OF act3, of vid] obtain s4 where
    cl: "close_activation r vid s3 = Inr s4"
    and h4: "dep_heap s4 = dep_heap s3" and d4: "dependencies_store s4 = dependencies_store s3"
    and x4: "exceptions_store s4 = exceptions_store s3" and v4: "values_store s4 = values_store s3"
    and act4: "get_activation s4 r =
             Some (a1\<lparr>a_evaluation :=
                      (a_evaluation a1)\<lparr>e_moment := Some (clock s3), e_value_id := Some vid\<rparr>\<rparr>)"
    and e4: "store_map (evaluations_store s3) (e_id (a_evaluation a1)) \<noteq> None \<longrightarrow>
              store_map (evaluations_store s4) (e_id (a_evaluation a1)) =
                Some ((a_evaluation a1)\<lparr>e_moment := Some (clock s3), e_value_id := Some vid\<rparr>)"
    and l4: "last_activation s4 =
             (case store_map (activations_store s3) (e_activation_id (a_evaluation a1)) of
                None \<Rightarrow> FirstActivation
              | Some _ \<Rightarrow> Stored (e_activation_id (a_evaluation a1)))"
    by blast
  define E1 where "E1 = map (edge_to ev s4) (dependencies depa)"
  define E2 where "E2 = (if a_code_block_id a1 = Some (- 1)
         then map (argument_edge_to ev s2)
                (filter (\<lambda>q. startswith (dep_mode (get_dep s2 q)) ''argument'')
                   (dependencies depa))
         else [])"
  define s5 where "s5 = create_dependencies ev (Some depa) s4"
  define s6 where "s6 = (if a_code_block_id a1 = Some (- 1)
                         then create_argument_dependencies ev depa s5 else s5)"
  have s5: "s5 = push_edges E1 s4"
    by (simp add: s5_def E1_def create_dependencies_def create_dependencies_loop_push)
  have g: "get_dep s5 q = get_dep s3 q" for q
    by (simp add: s5 get_dep_def h4)
  have f: "dep_activation_id (get_dep s3 q) = dep_activation_id (get_dep s2 q)"
    "dep_evaluation_id (get_dep s3 q) = dep_evaluation_id (get_dep s2 q)"
    "startswith (dep_mode (get_dep s3 q)) ''argument'' =
       startswith (dep_mode (get_dep s2 q)) ''argument''" for q
    using modes_rewritten_fields[OF m, of q] by (simp_all add: get_dep_def s3)
  have ae: "argument_edge_to ev s5 = argument_edge_to ev s2"
    by (rule ext) (simp add: argument_edge_to_def g f)
  have s6: "s6 = push_edges E2 s5"
    by (simp add: s6_def E2_def create_argument_dependencies_def
          create_argument_dependencies_loop_push ae g f)
  have fin: "call_finally r ev result s2 = (None, s6)"
    using act cv cl act4 stack by (simp add: call_finally_def s5_def s6_def)
  have base: "store_id (dependencies_store s2) \<le> store_id (dependencies_store s4)"
    by (simp add: d4 s3)
  have "new_edges s2 s4 = new_edges s2 s2"
    by (rule new_edges_cong) (simp_all add: d4 s3)
  then have n4: "new_edges s2 s4 = []" by simp
  from new_edges_push[OF base, of E1] have n5: "new_edges s2 s5 = E1"
    and base5: "store_id (dependencies_store s2) \<le> store_id (dependencies_store s5)"
    by (simp_all add: s5 n4)
  from new_edges_push[OF base5, of E2] have n6: "new_edges s2 s6 = E1 @ E2"
    by (simp add: s6 n5)
  have h6: "dep_heap s6 = dep_heap s3" by (simp add: s6 s5 h4)
  have E1': "E1 = map (edge_to ev s6) (dependencies depa)"
    unfolding E1_def using edge_to_heap[of s6 s4 ev] h6 h4 by simp
  have ap6: "activation_part s6 = activation_part s4" by (simp add: s6 s5)
  have keep6: "get_activation s6 r = get_activation s4 r"
    "last_activation s6 = last_activation s4"
    "exceptions_store s6 = exceptions_store s4"
    "values_store s6 = values_store s4"
    "evaluations_store s6 = evaluations_store s4"
    using get_activation_part[OF ap6, of r] last_activation_part[OF ap6]
    by (simp_all add: s6 s5)
  have c3: "clock s3 = clock s2" "activations_store s3 = activations_store s2"
    "evaluations_store s3 = evaluations_store s2" "exceptions_store s3 = exceptions_store s2"
    "values_store s3 = vs"
    by (simp_all add: s3)
  show ?thesis
    apply (rule exI[of _ vid], rule exI[of _ s6])
    using fin how act4 e4 l4 n6 h6
    by (simp add: keep6 c3 x4 v4 E1' E2_def cv del: new_edges_same)
qed

lemma collect_exception_Inr:
  assumes "get_activation s r = Some a"
  shows "collect_exception r exc s =
           Inr (s\<lparr>exceptions_store :=
                   \<lparr>store_id = store_id (exceptions_store s) + 1,
                    store_map = (store_map (exceptions_store s))
                      (store_id (exceptions_store s) + 1 \<mapsto>
                         \<lparr>x_id = store_id (exceptions_store s) + 1, x_exception = exc,
                          x_activation_id = a_id a\<rparr>)\<rparr>\<rparr>)"
  using assms
  by (simp add: collect_exception_def act_id_of_def bind_err_def store_add_object_def Let_def)

text \<open>
  Claim C6. Let the callee raise an exception, and let the activation of the call be
  live with a scope on its stack when it does. Then \<open>_call\<close> raises the same
  exception, and the state it leaves has the exception in the exceptions store against
  the activation; the value id of the activation's evaluation is that of a dependency
  in the scopes of the activation whose value is \<open>None\<close> (the bind rule) or that of a
  Value interned for \<open>None\<close> after the callee has ended; the evaluation of the
  activation, in the activation and in the evaluations store, carries the moment of the
  closing and this value id; \<open>last_activation\<close> is the activation that the evaluation
  names, or the root activation; and the dependencies store has gained one edge from the
  evaluation to each dependency of the first scope of the activation, followed, for an
  activation without a known definition, by the edges to the arguments.
\<close>

theorem call_exception:
  assumes start: "get_activation s (last_activation s) = Some a"
    and raised: "callee s = (Inl exc, s1)"
    and live: "get_activation s1 (last_activation s) = Some a1"
    and stack: "a_dependencies a1 = depa # rest"
  shows "\<exists>vid s'.
      after_call none callee s = (Inl (Raised exc), s') \<and>
      store_map (exceptions_store s') (store_id (exceptions_store s1) + 1) =
        Some \<lparr>x_id = store_id (exceptions_store s1) + 1, x_exception = exc,
              x_activation_id = a_id a1\<rparr> \<and>
      ((\<exists>d q. d \<in> set (a_dependencies a1) \<and> q \<in> set (dependencies d) \<and>
              py_is (dep_value (get_dep s1 q)) none \<and>
              dep_value_id (get_dep s1 q) = Some vid) \<or>
       (store_id (values_store s1) < vid \<and>
        (\<exists>t. store_map (values_store s') vid =
              Some \<lparr>v_id = vid, v_value = py_repr none, v_type_id = t\<rparr>))) \<and>
      get_activation s' (last_activation s) =
        Some (a1\<lparr>a_evaluation :=
                 (a_evaluation a1)\<lparr>e_moment := Some (clock s1), e_value_id := Some vid\<rparr>\<rparr>) \<and>
      (store_map (evaluations_store s1) (e_id (a_evaluation a1)) \<noteq> None \<longrightarrow>
         store_map (evaluations_store s') (e_id (a_evaluation a1)) =
           Some ((a_evaluation a1)\<lparr>e_moment := Some (clock s1), e_value_id := Some vid\<rparr>)) \<and>
      last_activation s' =
        (case store_map (activations_store s1) (e_activation_id (a_evaluation a1)) of
           None \<Rightarrow> FirstActivation
         | Some _ \<Rightarrow> Stored (e_activation_id (a_evaluation a1))) \<and>
      new_edges s1 s' =
        map (edge_to (a_evaluation a) s') (dependencies depa) @
        (if a_code_block_id a1 = Some (- 1)
         then map (argument_edge_to (a_evaluation a) s1)
                (filter (\<lambda>q. startswith (dep_mode (get_dep s1 q)) ''argument'')
                   (dependencies depa))
         else [])"
proof -
  let ?r = "last_activation s"
  define s2 where "s2 = s1\<lparr>exceptions_store :=
                   \<lparr>store_id = store_id (exceptions_store s1) + 1,
                    store_map = (store_map (exceptions_store s1))
                      (store_id (exceptions_store s1) + 1 \<mapsto>
                         \<lparr>x_id = store_id (exceptions_store s1) + 1, x_exception = exc,
                          x_activation_id = a_id a1\<rparr>)\<rparr>\<rparr>"
  have ce: "collect_exception ?r exc s1 = Inr s2"
    unfolding s2_def by (rule collect_exception_Inr[OF live])
  have act2: "get_activation s2 ?r = Some a1"
    using live by (simp add: s2_def get_activation_def split: act_ref.splits)
  from call_finally_result[OF act2 stack, of "a_evaluation a" none] obtain vid s' where
    fin: "call_finally ?r (a_evaluation a) none s2 = (None, s')"
    and how: "(\<exists>d q. d \<in> set (a_dependencies a1) \<and> q \<in> set (dependencies d) \<and>
              py_is (dep_value (get_dep s2 q)) none \<and>
              dep_value_id (get_dep s2 q) = Some vid) \<or>
       (store_id (values_store s2) < vid \<and>
        (\<exists>t. store_map (values_store s') vid =
              Some \<lparr>v_id = vid, v_value = py_repr none, v_type_id = t\<rparr>))"
    and act': "get_activation s' ?r =
        Some (a1\<lparr>a_evaluation :=
                 (a_evaluation a1)\<lparr>e_moment := Some (clock s2), e_value_id := Some vid\<rparr>\<rparr>)"
    and ev': "store_map (evaluations_store s2) (e_id (a_evaluation a1)) \<noteq> None \<longrightarrow>
         store_map (evaluations_store s') (e_id (a_evaluation a1)) =
           Some ((a_evaluation a1)\<lparr>e_moment := Some (clock s2), e_value_id := Some vid\<rparr>)"
    and last': "last_activation s' =
        (case store_map (activations_store s2) (e_activation_id (a_evaluation a1)) of
           None \<Rightarrow> FirstActivation
         | Some _ \<Rightarrow> Stored (e_activation_id (a_evaluation a1)))"
    and exc': "exceptions_store s' = exceptions_store s2"
    and edges': "new_edges s2 s' =
        map (edge_to (a_evaluation a) s') (dependencies depa) @
        (if a_code_block_id a1 = Some (- 1)
         then map (argument_edge_to (a_evaluation a) s2)
                (filter (\<lambda>q. startswith (dep_mode (get_dep s2 q)) ''argument'')
                   (dependencies depa))
         else [])"
    by blast
  have g2: "get_dep s2 q = get_dep s1 q" for q by (simp add: s2_def get_dep_def)
  have ae: "argument_edge_to (a_evaluation a) s2 = argument_edge_to (a_evaluation a) s1"
    by (rule ext) (simp add: argument_edge_to_def g2)
  have f2: "values_store s2 = values_store s1" "clock s2 = clock s1"
    "evaluations_store s2 = evaluations_store s1" "activations_store s2 = activations_store s1"
    by (simp_all add: s2_def)
  have ne: "new_edges s1 s' = new_edges s2 s'"
    by (rule new_edges_cong) (simp_all add: s2_def)
  have res: "after_call none callee s = (Inl (Raised exc), s')"
    using start raised ce fin by (simp add: after_call_def Let_def)
  have rec: "store_map (exceptions_store s') (store_id (exceptions_store s1) + 1) =
        Some \<lparr>x_id = store_id (exceptions_store s1) + 1, x_exception = exc,
              x_activation_id = a_id a1\<rparr>"
    by (simp add: exc' s2_def)
  show ?thesis
    apply (rule exI[of _ vid], rule exI[of _ s'])
    using res rec how act' ev' last' edges'
    by (simp add: g2 ae f2 ne)
qed

lemma top_add_content:
  assumes "top_add r dref s = Inr s'"
  shows "dep_heap s' = dep_heap s \<and> dependencies_store s' = dependencies_store s \<and>
         last_activation s' = last_activation s \<and>
         (\<exists>a'. get_activation s' r = Some a' \<and> a_dependencies a' \<noteq> [] \<and>
               last (dependencies (last (a_dependencies a'))) = dref)"
proof -
  from assms obtain a where a: "get_activation s r = Some a" and ne: "a_dependencies a \<noteq> []"
    and s': "s' = put_activation r
                    (a\<lparr>a_dependencies := butlast (a_dependencies a) @
                         [(last (a_dependencies a))
                            \<lparr>dependencies := dependencies (last (a_dependencies a)) @ [dref]\<rparr>]\<rparr>) s"
    by (auto simp: top_add_def upd_top_def bind_err_def split: option.splits if_splits)
  have "dep_heap s' = dep_heap s" "dependencies_store s' = dependencies_store s"
    by (simp_all add: s' put_activation_def split: act_ref.splits)
  moreover have "last_activation s' = last_activation s" by (simp add: s')
  moreover have "get_activation s' r = Some (a\<lparr>a_dependencies := butlast (a_dependencies a) @
                         [(last (a_dependencies a))
                            \<lparr>dependencies := dependencies (last (a_dependencies a)) @ [dref]\<rparr>]\<rparr>)"
    by (simp add: s' get_put_activation)
  ultimately show ?thesis by simp
qed

text \<open>
  Claim C5. Let the callee return, and let the activation of the call be live with a
  scope on its stack when it does. Then the edges that \<open>_call\<close> adds to the dependencies
  store are one edge from the evaluation of the call to each dependency of the first scope
  of the activation, with the mode the dependency has after the bind rule, followed, if and
  only if the activation has no known definition (\<open>code_block_id = -1\<close>), by one edge with
  the mode \<open>dependency\<close> to each dependency of that scope whose mode starts with
  \<open>argument\<close>. When \<open>_call\<close> completes it returns the result of the callee, and the
  result Dependency, from the evaluation of the call and with the mode recorded by
  \<open>call\<close>, is the last dependency of the top scope of the enclosing activation.
\<close>

theorem call_argument_edges:
  assumes start: "get_activation s (last_activation s) = Some a"
    and returned: "callee s = (Inr result, s1)"
    and live: "get_activation s1 (last_activation s) = Some a1"
    and stack: "a_dependencies a1 = depa # rest"
  shows "new_edges s1 (snd (after_call none callee s)) =
           map (edge_to (a_evaluation a) (snd (call_value_id result (a_dependencies a1) s1)))
             (dependencies depa) @
           (if a_code_block_id a1 = Some (- 1)
            then map (argument_edge_to (a_evaluation a) s1)
                   (filter (\<lambda>q. startswith (dep_mode (get_dep s1 q)) ''argument'')
                      (dependencies depa))
            else []) \<and>
         (\<forall>r. fst (after_call none callee s) = Inr r \<longrightarrow>
            r = result \<and>
            (\<exists>vid la.
               dep_heap (snd (after_call none callee s)) =
                 dep_heap (snd (call_value_id result (a_dependencies a1) s1)) @
                 [Dependency (e_activation_id (a_evaluation a)) (e_id (a_evaluation a)) result
                    (Some vid) (a_depedency_type a1)] \<and>
               get_activation (snd (after_call none callee s))
                 (last_activation (snd (after_call none callee s))) = Some la \<and>
               a_dependencies la \<noteq> [] \<and>
               last (dependencies (last (a_dependencies la))) =
                 length (dep_heap (snd (call_value_id result (a_dependencies a1) s1)))))"
proof -
  let ?r = "last_activation s"
  let ?ev = "a_evaluation a"
  let ?s3 = "snd (call_value_id result (a_dependencies a1) s1)"
  from call_finally_result[OF live stack, of ?ev result] obtain vid s' where
    fin: "call_finally ?r ?ev result s1 = (None, s')"
    and act': "get_activation s' ?r =
        Some (a1\<lparr>a_evaluation :=
                 (a_evaluation a1)\<lparr>e_moment := Some (clock s1), e_value_id := Some vid\<rparr>\<rparr>)"
    and heap': "dep_heap s' = dep_heap ?s3"
    and edges': "new_edges s1 s' =
        map (edge_to ?ev s') (dependencies depa) @
        (if a_code_block_id a1 = Some (- 1)
         then map (argument_edge_to ?ev s1)
                (filter (\<lambda>q. startswith (dep_mode (get_dep s1 q)) ''argument'')
                   (dependencies depa))
         else [])"
    by blast
  have et: "edge_to ?ev s' = edge_to ?ev ?s3"
    by (rule ext) (rule edge_to_heap[OF heap'])
  define v4 where "v4 = fst (add_value result s')"
  define s4 where "s4 = snd (add_value result s')"
  define dep where "dep = Dependency (e_activation_id ?ev) (e_id ?ev) result (Some v4)
                            (a_depedency_type a1)"
  define s5 where "s5 = s4\<lparr>dep_heap := dep_heap s4 @ [dep]\<rparr>"
  have act4: "get_activation s4 ?r = get_activation s' ?r"
    unfolding s4_def by (rule get_activation_part) simp
  have h4: "dep_heap s4 = dep_heap s'" "dependencies_store s4 = dependencies_store s'"
    by (simp_all add: s4_def)
  have la5: "last_activation s5 = last_activation s'"
    by (simp add: s5_def s4_def)
  have res: "after_call none callee s =
     (case get_activation s' (last_activation s') of
        None \<Rightarrow> (Inl InvalidReference, s')
      | Some la \<Rightarrow>
          if a_dependencies la = [] then (Inl IndexError, s')
          else (case top_add (last_activation s') (length (dep_heap s')) s5 of
                  Inl e \<Rightarrow> (Inl e, s5)
                | Inr s6 \<Rightarrow> (Inr result, s6)))"
    using start returned fin act4 act'
    by (simp add: after_call_def Let_def split_def new_dependency_def s5_def s4_def v4_def
          dep_def h4[unfolded s4_def] la5[unfolded s5_def s4_def]
        split: option.splits sum.splits)
  have store: "dependencies_store (snd (after_call none callee s)) = dependencies_store s'"
    unfolding res using h4
    by (auto simp: s5_def split: option.splits sum.splits dest!: top_add_content)
  have "new_edges s1 (snd (after_call none callee s)) = new_edges s1 s'"
    by (rule new_edges_cong) (simp_all add: store)
  then have first: "new_edges s1 (snd (after_call none callee s)) =
           map (edge_to ?ev ?s3) (dependencies depa) @
           (if a_code_block_id a1 = Some (- 1)
            then map (argument_edge_to ?ev s1)
                   (filter (\<lambda>q. startswith (dep_mode (get_dep s1 q)) ''argument'')
                      (dependencies depa))
            else [])"
    using edges' et by simp
  have second: "r = result \<and>
            (\<exists>vid la.
               dep_heap (snd (after_call none callee s)) =
                 dep_heap ?s3 @
                 [Dependency (e_activation_id ?ev) (e_id ?ev) result (Some vid)
                    (a_depedency_type a1)] \<and>
               get_activation (snd (after_call none callee s))
                 (last_activation (snd (after_call none callee s))) = Some la \<and>
               a_dependencies la \<noteq> [] \<and>
               last (dependencies (last (a_dependencies la))) = length (dep_heap ?s3))"
    if ok: "fst (after_call none callee s) = Inr r" for r
  proof -
    from ok obtain s6 where t: "top_add (last_activation s') (length (dep_heap s')) s5 = Inr s6"
      and r: "r = result" and s6: "snd (after_call none callee s) = s6"
      unfolding res by (auto split: option.splits sum.splits if_splits)
    from top_add_content[OF t] obtain la where
      "dep_heap s6 = dep_heap s5" "last_activation s6 = last_activation s5"
      "get_activation s6 (last_activation s') = Some la" "a_dependencies la \<noteq> []"
      "last (dependencies (last (a_dependencies la))) = length (dep_heap s')"
      by blast
    then show ?thesis
      using r s6 heap' la5 by (auto simp: s5_def h4 dep_def)
  qed
  show ?thesis using first second by blast
qed

text \<open>The equations that evaluate \<open>_call\<close> on the call of \<open>len\<close>.\<close>

lemmas call_simps = after_call_def call_finally_def call_value_id_def close_activation_def
  collect_exception_def create_argument_dependencies_def call_state_def len_activation_def
  len_evaluation_def returns_three_def raises_def type_error_def py_None_def py_NoneType_def
  new_edges_def edge_to_def argument_edge_to_def

lemma call_state_activation:
  "get_activation call_state (last_activation call_state) = Some len_activation"
  "a_dependencies len_activation = DependencyAware\<lparr>dependencies := [0]\<rparr> # []"
  by (simp_all add: call_state_def get_activation_def len_activation_def)

text \<open>
  Witness for C5: \<open>len(xs)\<close> with \<open>xs = [1, 2, 3]\<close> returns 3, and the dependencies
  store gains the edge to the argument with its own mode and the edge to the argument
  with the mode \<open>dependency\<close>.
\<close>

theorem call_argument_edges_witness:
  "fst (after_call py_None returns_three call_state) = Inr three \<and>
   new_edges call_state (snd (after_call py_None returns_three call_state)) =
     [(- 1, 1, - 1, 7, ''argument''), (- 1, 1, - 1, 7, ''dependency'')]"
proof -
  have r: "returns_three call_state = (Inr three, call_state)"
    by (simp add: returns_three_def)
  note th = call_argument_edges[where s = call_state and callee = returns_three
      and ?s1.0 = call_state and none = py_None,
      OF call_state_activation(1) r call_state_activation(1) call_state_activation(2)]
  have 1: "fst (after_call py_None returns_three call_state) = Inr three"
    by (simp add: call_simps assign_simps hook_simps eval_nat_numeral)
  have 2: "map (edge_to (a_evaluation len_activation)
                 (snd (call_value_id three (a_dependencies len_activation) call_state)))
             (dependencies (DependencyAware\<lparr>dependencies := [0]\<rparr>)) =
           [(- 1, 1, - 1, 7, ''argument'')]"
    by (simp add: call_simps assign_simps hook_simps)
  have 3: "(if a_code_block_id len_activation = Some (- 1)
            then map (argument_edge_to (a_evaluation len_activation) call_state)
                   (filter (\<lambda>q. startswith (dep_mode (get_dep call_state q)) ''argument'')
                      (dependencies (DependencyAware\<lparr>dependencies := [0]\<rparr>)))
            else []) = [(- 1, 1, - 1, 7, ''dependency'')]"
    by (simp add: call_simps assign_simps hook_simps)
  from th have "new_edges call_state (snd (after_call py_None returns_three call_state)) =
      [(- 1, 1, - 1, 7, ''argument'')] @ [(- 1, 1, - 1, 7, ''dependency'')]"
    unfolding 2 3 by blast
  with 1 show ?thesis by simp
qed

text \<open>
  Witness for C6: the callee raises a TypeError; \<open>_call\<close> raises it, records it
  against the activation, closes the activation at the moment 1 with the value id of the
  Value interned for \<open>None\<close>, restores the root activation and draws both edges.
\<close>

theorem call_exception_witness:
  "fst (after_call py_None raises call_state) = Inl (Raised type_error) \<and>
   store_map (exceptions_store (snd (after_call py_None raises call_state))) 1 =
     Some \<lparr>x_id = 1, x_exception = type_error, x_activation_id = 1\<rparr> \<and>
   map_option a_evaluation (get_activation (snd (after_call py_None raises call_state)) (Stored 1)) =
     Some (len_evaluation\<lparr>e_moment := Some 1, e_value_id := Some 3\<rparr>) \<and>
   store_map (evaluations_store (snd (after_call py_None raises call_state))) 1 =
     Some (len_evaluation\<lparr>e_moment := Some 1, e_value_id := Some 3\<rparr>) \<and>
   last_activation (snd (after_call py_None raises call_state)) = FirstActivation \<and>
   new_edges call_state (snd (after_call py_None raises call_state)) =
     [(- 1, 1, - 1, 7, ''argument''), (- 1, 1, - 1, 7, ''dependency'')]"
proof -
  have r: "raises call_state = (Inl type_error, call_state)"
    by (simp add: raises_def)
  from call_exception[where s = call_state and callee = raises
      and ?s1.0 = call_state and none = py_None,
      OF call_state_activation(1) r call_state_activation(1) call_state_activation(2)]
  obtain vid s' where res: "after_call py_None raises call_state = (Inl (Raised type_error), s')"
    and rec: "store_map (exceptions_store s') (store_id (exceptions_store call_state) + 1) =
        Some \<lparr>x_id = store_id (exceptions_store call_state) + 1, x_exception = type_error,
              x_activation_id = a_id len_activation\<rparr>"
    and last: "last_activation s' =
        (case store_map (activations_store call_state)
                (e_activation_id (a_evaluation len_activation)) of
           None \<Rightarrow> FirstActivation
         | Some _ \<Rightarrow> Stored (e_activation_id (a_evaluation len_activation)))"
    by blast
  have 1: "fst (after_call py_None raises call_state) = Inl (Raised type_error)"
    by (simp add: res)
  have 2: "store_map (exceptions_store (snd (after_call py_None raises call_state))) 1 =
     Some \<lparr>x_id = 1, x_exception = type_error, x_activation_id = 1\<rparr>"
  proof -
    have "store_map (exceptions_store s') 1 =
        Some \<lparr>x_id = 1, x_exception = type_error, x_activation_id = 1\<rparr>"
      using rec by (simp add: call_state_def len_activation_def run_simps)
    then show ?thesis by (simp add: res)
  qed
  have 3: "last_activation (snd (after_call py_None raises call_state)) = FirstActivation"
  proof -
    have "last_activation s' = FirstActivation"
      using last by (simp add: call_state_def len_activation_def len_evaluation_def run_simps)
    then show ?thesis by (simp add: res)
  qed
  have 4: "map_option a_evaluation
       (get_activation (snd (after_call py_None raises call_state)) (Stored 1)) =
     Some (len_evaluation\<lparr>e_moment := Some 1, e_value_id := Some 3\<rparr>)"
    by (simp add: call_simps assign_simps hook_simps eval_nat_numeral)
  have 5: "store_map (evaluations_store (snd (after_call py_None raises call_state))) 1 =
     Some (len_evaluation\<lparr>e_moment := Some 1, e_value_id := Some 3\<rparr>)"
    by (simp add: call_simps assign_simps hook_simps eval_nat_numeral)
  have 6: "new_edges call_state (snd (after_call py_None raises call_state)) =
     [(- 1, 1, - 1, 7, ''argument''), (- 1, 1, - 1, 7, ''dependency'')]"
    by (simp add: call_simps assign_simps hook_simps eval_nat_numeral)
  show ?thesis using 1 2 3 4 5 6 by blast
qed

end
